(* ===== verification/Prelude.thy ===== *)
theory Prelude
  imports Main "HOL-Library.Word" "HOL-Library.Monad_Syntax"
begin

text \<open>
  The shared vocabulary of the development: the machine integer types of the Rust sources,
  slices with Rust's bounds checks, little-endian byte encodings
  (\<^verbatim>\<open>to_le_bytes\<close>, \<^verbatim>\<open>from_le_bytes\<close>), page arithmetic and the lemmas on words, lists and
  options that the component theories use.

  Conventions. \<^verbatim>\<open>usize\<close> and \<^verbatim>\<open>u64\<close> are \<open>64 word\<close>; the images are built with
  \<^verbatim>\<open>cargo build --release\<close> (Makefile), so \<open>+\<close>, \<open>-\<close> and \<open>*\<close> wrap as word arithmetic
  does. \<^verbatim>\<open>as\<close> casts are \<open>ucast\<close> (truncation, zero extension) and \<open>scast\<close> (sign
  extension). A computation that may panic has an \<open>option\<close> type whose \<open>None\<close> is the panic; a
  Rust \<^verbatim>\<open>Result\<close> is a sum with the error on the left.
\<close>

unbundle bit_operations_syntax

section \<open>Types\<close>

type_synonym u8 = "8 word"
type_synonym u16 = "16 word"
type_synonym u32 = "32 word"
type_synonym u64 = "64 word"
type_synonym usize = "64 word"
type_synonym i32 = "32 word"
type_synonym isize = "64 word"
type_synonym bytes = "u8 list"

text \<open>\<^verbatim>\<open>Result<usize, i32>\<close>, the result type of every system call and file operation.\<close>

type_synonym sysresult = "i32 + usize"

text \<open>The named collections of the development.\<close>

named_theorems word_nat_simps \<open>rules that move word arithmetic to natural numbers\<close>
named_theorems page_simps \<open>rules on page rounding\<close>
named_theorems frame_simps \<open>which components of a state an operation leaves alone\<close>

text \<open>The bytes of a string literal.\<close>

definition str :: "string \<Rightarrow> bytes" where
  "str s = map of_char s"

lemma length_str [simp]: "length (str s) = length s"
  by (simp add: str_def)

section \<open>Slices\<close>

text \<open>\<open>sub_slice xs a b\<close> is \<^verbatim>\<open>&xs[a..b]\<close>: it panics when \<open>a > b\<close> or \<open>b\<close> is past the end.\<close>

definition sub_slice :: "'a list \<Rightarrow> nat \<Rightarrow> nat \<Rightarrow> 'a list option" where
  "sub_slice xs a b = (if a \<le> b \<and> b \<le> length xs then Some (take (b - a) (drop a xs)) else None)"

text \<open>\<open>copy_slice xs off ys\<close> is the array after \<^verbatim>\<open>xs[off..off + ys.len()].copy_from_slice(ys)\<close>.\<close>

definition copy_slice :: "'a list \<Rightarrow> nat \<Rightarrow> 'a list \<Rightarrow> 'a list" where
  "copy_slice xs off ys = take off xs @ ys @ drop (off + length ys) xs"

text \<open>\<open>index xs i\<close> is \<^verbatim>\<open>xs[i]\<close>, which panics out of range.\<close>

definition index :: "'a list \<Rightarrow> nat \<Rightarrow> 'a option" where
  "index xs i = (if i < length xs then Some (xs ! i) else None)"

lemma sub_slice_Some_iff:
  "sub_slice xs a b = Some ys \<longleftrightarrow> a \<le> b \<and> b \<le> length xs \<and> ys = take (b - a) (drop a xs)"
  by (auto simp: sub_slice_def)

lemma length_sub_slice: "sub_slice xs a b = Some ys \<Longrightarrow> length ys = b - a"
  by (auto simp: sub_slice_def split: if_splits)

lemma length_copy_slice [simp]: "off + length ys \<le> length xs \<Longrightarrow> length (copy_slice xs off ys) = length xs"
  by (simp add: copy_slice_def)

lemma nth_copy_slice:
  assumes "off + length ys \<le> length xs" and "i < length xs"
  shows "copy_slice xs off ys ! i =
    (if off \<le> i \<and> i < off + length ys then ys ! (i - off) else xs ! i)"
  using assms by (auto simp: copy_slice_def nth_append min_def)

lemma sub_slice_copy_same:
  "off + length ys \<le> length xs \<Longrightarrow> sub_slice (copy_slice xs off ys) off (off + length ys) = Some ys"
  by (simp add: sub_slice_def copy_slice_def)

lemma sub_slice_copy_other:
  assumes fits: "off + length ys \<le> length xs" and apart: "b \<le> off \<or> off + length ys \<le> a"
  shows "sub_slice (copy_slice xs off ys) a b = sub_slice xs a b"
proof (cases "a \<le> b \<and> b \<le> length xs")
  case True
  have "take (b - a) (drop a (copy_slice xs off ys)) = take (b - a) (drop a xs)"
    by (rule nth_equalityI) (use True fits apart in \<open>auto simp: nth_copy_slice\<close>)
  with True fits show ?thesis by (simp add: sub_slice_def)
qed (use fits in \<open>auto simp: sub_slice_def\<close>)

lemma copy_slice_nil [simp]: "copy_slice xs off [] = xs"
  by (simp add: copy_slice_def)

lemma replicate_eq_iff_nth:
  "xs = replicate n x \<longleftrightarrow> length xs = n \<and> (\<forall>i < n. xs ! i = x)"
  by (auto intro: nth_equalityI)

section \<open>Little-endian bytes\<close>

fun from_le :: "bytes \<Rightarrow> 'a::len word" where
  "from_le [] = 0"
| "from_le (b # bs) = ucast b OR push_bit 8 (from_le bs)"

definition to_le :: "nat \<Rightarrow> 'a::len word \<Rightarrow> bytes" where
  "to_le n w = map (\<lambda>i. ucast (drop_bit (8 * i) w)) [0..<n]"

lemma length_to_le [simp]: "length (to_le n w) = n"
  by (simp add: to_le_def)

lemma nth_to_le: "i < n \<Longrightarrow> to_le n w ! i = ucast (drop_bit (8 * i) w)"
  by (simp add: to_le_def)

lemma bit_from_le:
  "bit (from_le bs :: 'a::len word) k \<longleftrightarrow>
     k < LENGTH('a) \<and> k div 8 < length bs \<and> bit (bs ! (k div 8)) (k mod 8)"
proof (induction bs arbitrary: k)
  case Nil
  show ?case by simp
next
  case (Cons b bs)
  have high: "\<not> bit b k" if "\<not> k < 8"
    using that bit_imp_le_length [of b k] by auto
  show ?case
  proof (cases "k < 8")
    case True
    then show ?thesis
      by (simp add: bit_simps)
  next
    case False
    then obtain j where "k = j + 8" by (metis le_add_diff_inverse2 not_less)
    moreover have "(j + 8) div 8 = Suc (j div 8)" by simp
    ultimately show ?thesis
      using high Cons.IH [of j] by (auto simp: bit_simps simp del: div_add_self2)
  qed
qed

lemma from_le_to_le:
  assumes "LENGTH('a::len) \<le> 8 * n"
  shows "from_le (to_le n w) = (w :: 'a word)"
proof (rule bit_word_eqI)
  fix k assume k: "k < LENGTH('a)"
  then have "k div 8 < n" using assms by linarith
  with k show "bit (from_le (to_le n w) :: 'a word) k = bit w k"
    by (simp add: bit_from_le nth_to_le bit_simps)
qed

lemma to_le_from_le:
  assumes "8 * length bs \<le> LENGTH('a::len)"
  shows "to_le (length bs) (from_le bs :: 'a word) = bs"
proof (rule nth_equalityI)
  fix i assume "i < length (to_le (length bs) (from_le bs :: 'a word))"
  then have i: "i < length bs" by simp
  show "to_le (length bs) (from_le bs :: 'a word) ! i = bs ! i"
    by (rule bit_word_eqI) (use i assms in \<open>auto simp: nth_to_le bit_simps bit_from_le\<close>)
qed simp

section \<open>Word arithmetic\<close>

lemma unat_plus_no_wrap:
  "unat a + unat b < 2 ^ LENGTH('a) \<Longrightarrow> unat (a + b) = unat a + unat (b :: 'a::len word)"
  by (simp add: unat_word_ariths)

lemma unat_less_64: "unat (w :: usize) < 2 ^ 64"
  using unsigned_less [of w, where 'a = nat] by simp

lemma unat_inc: "a < b \<Longrightarrow> unat (a + 1) = unat (a :: 'a::len word) + 1"
proof -
  assume "a < b"
  then have "unat a < unat b" by (simp add: word_less_nat_alt)
  moreover have "unat b < 2 ^ LENGTH('a)" by (rule unsigned_less)
  ultimately have "unat a + 1 < 2 ^ LENGTH('a)" by linarith
  then show ?thesis by (simp add: unat_word_ariths)
qed

lemma unat_of_nat_small: "n < 2 ^ LENGTH('a) \<Longrightarrow> unat (of_nat n :: 'a::len word) = n"
  by (simp add: unat_of_nat)

lemma unat_pow2: "k < LENGTH('a) \<Longrightarrow> unat (2 ^ k :: 'a::len word) = 2 ^ k"
  using unat_of_nat_small [of "2 ^ k", where 'a = 'a] by simp

lemma unat_minus_le: "b \<le> a \<Longrightarrow> unat (a - b) = unat a - unat (b :: 'a::len word)"
  by (rule unat_sub)

lemma and_not_mask_eq: "w AND NOT (mask k) = push_bit k (drop_bit k (w :: 'a::len word))"
  by (rule bit_word_eqI) (auto simp: bit_simps)

lemma unat_and_not_mask: "unat (w AND NOT (mask k)) = unat (w :: 'a::len word) div 2 ^ k * 2 ^ k"
proof -
  have "unat w div 2 ^ k * 2 ^ k \<le> unat w" by simp
  also have "\<dots> < 2 ^ LENGTH('a)" by (rule unsigned_less)
  finally have "unat w div 2 ^ k * 2 ^ k < 2 ^ LENGTH('a)" .
  then have "take_bit LENGTH('a) (push_bit k (drop_bit k (unat w))) = unat w div 2 ^ k * 2 ^ k"
    by (simp add: push_bit_eq_mult drop_bit_eq_div take_bit_nat_eq_self)
  moreover have "drop_bit k (take_bit LENGTH('a) (unat w)) = drop_bit k (unat w)"
    by (simp add: take_bit_nat_eq_self)
  ultimately show ?thesis
    unfolding and_not_mask_eq unsigned_push_bit_eq unsigned_drop_bit_eq by (metis)
qed

lemma mask_word_eq: "(2 ^ k :: 'a::len word) - 1 = mask k"
  by (simp add: mask_eq_exp_minus_1)

text \<open>Rounding down and up to a multiple of \<open>2 ^ k\<close>.\<close>

lemma round_down_le: "(n :: nat) div d * d \<le> n"
  by simp

lemma round_up_bounds:
  assumes "0 < (d :: nat)"
  shows "n \<le> (n + d - 1) div d * d" and "(n + d - 1) div d * d < n + d"
proof -
  have "n + d - 1 = (n + d - 1) div d * d + (n + d - 1) mod d" by simp
  moreover have "(n + d - 1) mod d < d" using assms by simp
  ultimately show "n \<le> (n + d - 1) div d * d" "(n + d - 1) div d * d < n + d"
    using assms by linarith+
qed

section \<open>Pages\<close>

definition PAGE_SIZE :: usize where "PAGE_SIZE = 0x1000"

text \<open>\<^verbatim>\<open>addr & !(PAGE_SIZE - 1)\<close>, \<^verbatim>\<open>addr / PAGE_SIZE * PAGE_SIZE\<close> and the round-up.\<close>

definition page_floor :: "usize \<Rightarrow> usize" where
  "page_floor a = a AND NOT (PAGE_SIZE - 1)"

definition page_ceil :: "usize \<Rightarrow> usize" where
  "page_ceil a = (a + PAGE_SIZE - 1) AND NOT (PAGE_SIZE - 1)"

lemma PAGE_SIZE_mask: "PAGE_SIZE - 1 = mask 12"
  by (simp add: PAGE_SIZE_def mask_eq_exp_minus_1)

lemma unat_PAGE_SIZE [simp]: "unat PAGE_SIZE = 4096"
  by (simp add: PAGE_SIZE_def)

lemma unat_page_floor [page_simps]: "unat (page_floor a) = unat a div 4096 * 4096"
  by (simp add: page_floor_def PAGE_SIZE_mask unat_and_not_mask)

lemma page_floor_le [page_simps]: "page_floor a \<le> a"
  by (simp add: word_le_nat_alt unat_page_floor)

lemma page_floor_idem [page_simps]: "page_floor (page_floor a) = page_floor a"
  by (simp add: word_unat_eq_iff unat_page_floor)

lemma unat_page_ceil [page_simps]:
  assumes "unat a + 4095 < 2 ^ 64"
  shows "unat (page_ceil a) = (unat a + 4095) div 4096 * 4096"
proof -
  have "a + PAGE_SIZE - 1 = a + 4095" by (simp add: PAGE_SIZE_def)
  moreover have "unat (a + 4095) = unat a + 4095" using assms by (simp add: unat_plus_no_wrap)
  ultimately have "unat (a + PAGE_SIZE - 1) = unat a + 4095" by metis
  then show ?thesis
    unfolding page_ceil_def PAGE_SIZE_mask unat_and_not_mask by simp
qed

lemma word_div_mult_floor: "(a :: usize) div PAGE_SIZE * PAGE_SIZE = page_floor a"
proof -
  have "unat a div 4096 * 4096 \<le> unat a" by simp
  also have "\<dots> < 2 ^ 64" using unsigned_less [of a] by simp
  finally have "unat a div 4096 * 4096 < 2 ^ 64" .
  then have "unat (a div PAGE_SIZE * PAGE_SIZE) = unat a div 4096 * 4096"
    by (simp add: unat_word_ariths unat_div)
  then show ?thesis by (simp add: word_unat_eq_iff unat_page_floor)
qed

lemma page_offset_mod: "unat (a AND (PAGE_SIZE - 1)) = unat a mod 4096"
  unfolding PAGE_SIZE_mask take_bit_eq_mask [symmetric] unsigned_take_bit_eq by (simp add: take_bit_eq_mod)

lemma page_split: "unat a = unat (page_floor a) + unat a mod 4096"
  by (simp add: unat_page_floor)

lemma unat_page_floor_top: "unat (page_floor a) + 4096 \<le> 2 ^ 64"
proof -
  have "unat a div 4096 < 2 ^ 52" using unat_less_64 [of a] by (simp add: less_mult_imp_div_less)
  then show ?thesis by (simp add: unat_page_floor)
qed

text \<open>The pages of \<^verbatim>\<open>(start..end).step_by(PAGE_SIZE)\<close>.\<close>

definition page_steps :: "usize \<Rightarrow> usize \<Rightarrow> usize list" where
  "page_steps a b = map (\<lambda>k. a + of_nat k * PAGE_SIZE) [0..<(unat b - unat a + 4095) div 4096]"

section \<open>Byte memory\<close>

text \<open>A flat address space, and reading and writing a run of bytes in it (addresses wrap).\<close>

definition mem_slice :: "(usize \<Rightarrow> u8) \<Rightarrow> usize \<Rightarrow> nat \<Rightarrow> bytes" where
  "mem_slice mem a n = map (\<lambda>i. mem (a + of_nat i)) [0..<n]"

definition mem_store :: "(usize \<Rightarrow> u8) \<Rightarrow> usize \<Rightarrow> bytes \<Rightarrow> (usize \<Rightarrow> u8)" where
  "mem_store mem a bs = (\<lambda>x. if unat (x - a) < length bs then bs ! unat (x - a) else mem x)"

lemma length_mem_slice [simp]: "length (mem_slice mem a n) = n"
  by (simp add: mem_slice_def)

lemma mem_store_nth:
  "i < length bs \<Longrightarrow> length bs < 2 ^ 64 \<Longrightarrow> mem_store mem a bs (a + of_nat i) = bs ! i"
  by (simp add: mem_store_def unat_of_nat_small)

lemma mem_slice_store_same: "length bs < 2 ^ 64 \<Longrightarrow> mem_slice (mem_store mem a bs) a (length bs) = bs"
  by (rule nth_equalityI) (simp_all add: mem_slice_def mem_store_nth)

text \<open>Two runs of bytes that do not touch.\<close>

definition apart :: "usize \<Rightarrow> nat \<Rightarrow> usize \<Rightarrow> nat \<Rightarrow> bool" where
  "apart a n b k \<longleftrightarrow> (\<forall>i < n. k \<le> unat (a + of_nat i - b))"

lemma mem_slice_store_other: "apart a n b (length bs) \<Longrightarrow> mem_slice (mem_store mem b bs) a n = mem_slice mem a n"
  by (auto simp: mem_slice_def mem_store_def apart_def linorder_not_less [symmetric])

lemma unat_diff_cases:
  "unat (x - a :: usize) = (if unat a \<le> unat x then unat x - unat a else 2 ^ 64 + unat x - unat a)"
proof (cases "unat a \<le> unat x")
  case True
  then show ?thesis by (simp add: unat_minus_le word_le_nat_alt)
next
  case False
  then show ?thesis using unat_sub_if' [of x a] by simp
qed

lemma apartI:
  assumes "unat a + n \<le> 2 ^ 64" and "unat b + k \<le> 2 ^ 64" and "unat a + n \<le> unat b \<or> unat b + k \<le> unat a"
  shows "apart a n b k"
  unfolding apart_def
proof (intro allI impI)
  fix i assume i: "i < n"
  then have "unat (of_nat i :: usize) = i" using assms(1) by (intro unat_of_nat_small) simp
  with i assms(1) have "unat (a + of_nat i) = unat a + i"
    using unat_plus_no_wrap [of a "of_nat i"] by simp
  then show "k \<le> unat (a + of_nat i - b)" using i assms by (auto simp: unat_diff_cases)
qed

text \<open>A store of two pieces is two stores.\<close>

lemma mem_store_append:
  assumes "length bs + length cs < 2 ^ 64"
  shows "mem_store (mem_store mem a bs) (a + of_nat (length bs)) cs = mem_store mem a (bs @ cs)"
proof
  fix x
  let ?n = "of_nat (length bs) :: usize"
  have n: "unat ?n = length bs" using assms by (intro unat_of_nat_small) simp
  have d: "unat (x - (a + ?n)) = (if length bs \<le> unat (x - a) then unat (x - a) - length bs else 2 ^ 64 + unat (x - a) - length bs)"
    using unat_diff_cases [of "x - a" ?n] n by (simp add: algebra_simps)
  show "mem_store (mem_store mem a bs) (a + ?n) cs x = mem_store mem a (bs @ cs) x"
    using d assms by (auto simp: mem_store_def nth_append)
qed

end
