(* ===== verification/Btree_Map.thy ===== *)
theory Btree_Map
  imports Main
begin

text \<open>
  The standard library's \<^verbatim>\<open>BTreeMap\<close>, as the sources use it: an ordered map whose iteration visits
  the keys in increasing order. It is an association list with strictly increasing keys. The locale
  \<open>ordered_map\<close> is the contract the component theories use; it is interpreted on the association
  list below.
\<close>

type_synonym ('k, 'v) btree = "('k \<times> 'v) list"

definition bt_empty :: "('k, 'v) btree" where
  "bt_empty = []"

definition bt_get :: "('k, 'v) btree \<Rightarrow> 'k \<Rightarrow> 'v option" where
  "bt_get m k = map_of m k"

fun bt_insert :: "'k::linorder \<Rightarrow> 'v \<Rightarrow> ('k, 'v) btree \<Rightarrow> ('k, 'v) btree" where
  "bt_insert k v [] = [(k, v)]"
| "bt_insert k v ((k', v') # m) =
     (if k < k' then (k, v) # (k', v') # m
      else if k = k' then (k, v) # m
      else (k', v') # bt_insert k v m)"

definition bt_remove :: "'k \<Rightarrow> ('k, 'v) btree \<Rightarrow> ('k, 'v) btree" where
  "bt_remove k m = filter (\<lambda>(k', _). k' \<noteq> k) m"

definition bt_keys :: "('k, 'v) btree \<Rightarrow> 'k list" where
  "bt_keys m = map fst m"

definition bt_contains :: "('k, 'v) btree \<Rightarrow> 'k \<Rightarrow> bool" where
  "bt_contains m k \<longleftrightarrow> bt_get m k \<noteq> None"

text \<open>\<^verbatim>\<open>entry(k).or_insert(v)\<close>\<close>

definition bt_or_insert :: "'k::linorder \<Rightarrow> 'v \<Rightarrow> ('k, 'v) btree \<Rightarrow> ('k, 'v) btree" where
  "bt_or_insert k v m = (if bt_contains m k then m else bt_insert k v m)"

definition bt_inv :: "('k::linorder, 'v) btree \<Rightarrow> bool" where
  "bt_inv m \<longleftrightarrow> sorted_wrt (<) (map fst m)"

section \<open>The ordered map interface\<close>

locale ordered_map =
  fixes empty :: 'm
    and get :: "'m \<Rightarrow> 'k::linorder \<Rightarrow> 'v option"
    and ins :: "'k \<Rightarrow> 'v \<Rightarrow> 'm \<Rightarrow> 'm"
    and rem :: "'k \<Rightarrow> 'm \<Rightarrow> 'm"
    and keys :: "'m \<Rightarrow> 'k list"
    and inv :: "'m \<Rightarrow> bool"
  assumes inv_empty: "inv empty"
    and inv_ins: "inv m \<Longrightarrow> inv (ins k v m)"
    and inv_rem: "inv m \<Longrightarrow> inv (rem k m)"
    and get_empty: "get empty k = None"
    and get_ins: "get (ins k v m) k' = (if k' = k then Some v else get m k')"
    and get_rem: "get (rem k m) k' = (if k' = k then None else get m k')"
    and keys_sorted: "inv m \<Longrightarrow> sorted_wrt (<) (keys m)"
    and keys_get: "k \<in> set (keys m) \<longleftrightarrow> get m k \<noteq> None"
begin

lemma keys_distinct: "inv m \<Longrightarrow> distinct (keys m)"
  using keys_sorted [of m] by (simp add: strict_sorted_iff)

text \<open>Removing a list of keys.\<close>

lemma inv_fold_rem: "inv m \<Longrightarrow> inv (fold rem ks m)"
  by (induction ks arbitrary: m) (simp_all add: inv_rem)

lemma get_fold_rem: "get (fold rem ks m) k = (if k \<in> set ks then None else get m k)"
  by (induction ks arbitrary: m) (simp_all add: get_rem)

text \<open>Inserting a value at each of a list of keys that has none.\<close>

lemma get_fold_or_insert:
  "get (fold (\<lambda>k m. if get m k \<noteq> None then m else ins k v m) ks m) k =
   (if k \<in> set ks \<and> get m k = None then Some v else get m k)"
  by (induction ks arbitrary: m) (auto simp: get_ins)

lemma inv_fold_or_insert: "inv m \<Longrightarrow> inv (fold (\<lambda>k m. if get m k \<noteq> None then m else ins k v m) ks m)"
  by (induction ks arbitrary: m) (auto simp: inv_ins)

end

lemma fst_bt_insert: "fst ` set (bt_insert k v m) = insert k (fst ` set m)"
  by (induction k v m rule: bt_insert.induct) auto

lemma bt_inv_insert: "bt_inv m \<Longrightarrow> bt_inv (bt_insert k v m)"
proof (induction k v m rule: bt_insert.induct)
  case (2 k v k' v' m)
  then have m: "bt_inv m" "\<forall>x \<in> fst ` set m. k' < x" by (auto simp: bt_inv_def)
  then show ?case using 2 fst_bt_insert [of k v m] by (auto simp: bt_inv_def)
qed (simp add: bt_inv_def)

lemma bt_get_insert: "bt_get (bt_insert k v m) k' = (if k' = k then Some v else bt_get m k')"
  unfolding bt_get_def by (induction k v m rule: bt_insert.induct) auto

lemma bt_get_remove: "bt_get (bt_remove k m) k' = (if k' = k then None else bt_get m k')"
  unfolding bt_get_def bt_remove_def by (induction m) auto

lemma bt_inv_remove: "bt_inv m \<Longrightarrow> bt_inv (bt_remove k m)"
  unfolding bt_inv_def bt_remove_def by (induction m) auto

lemma map_fst_bt_keys: "k \<in> set (bt_keys m) \<longleftrightarrow> bt_get m k \<noteq> None"
  by (auto simp: bt_keys_def bt_get_def map_of_eq_None_iff)

interpretation btree: ordered_map bt_empty bt_get bt_insert bt_remove bt_keys bt_inv
proof (unfold_locales, goal_cases)
  case 1
  show ?case by (simp add: bt_inv_def bt_empty_def)
next
  case 4
  show ?case by (simp add: bt_get_def bt_empty_def)
next
  case (7 m)
  then show ?case by (simp add: bt_inv_def bt_keys_def)
qed (simp_all add: bt_inv_insert bt_inv_remove bt_get_insert bt_get_remove map_fst_bt_keys)

lemma bt_or_insert_eq: "bt_or_insert k v = (\<lambda>m. if bt_get m k \<noteq> None then m else bt_insert k v m)"
  by (simp add: bt_or_insert_def bt_contains_def fun_eq_iff)

lemmas bt_simps [simp] = bt_get_insert bt_get_remove bt_inv_insert bt_inv_remove

lemma bt_get_empty [simp]: "bt_get bt_empty k = None" and bt_inv_empty [simp]: "bt_inv bt_empty"
  by (simp_all add: bt_get_def bt_empty_def bt_inv_def)

lemma bt_get_or_insert: "bt_get (bt_or_insert k v m) k' = (if k' = k \<and> bt_get m k = None then Some v else bt_get m k')"
  by (simp add: bt_or_insert_eq)

lemma bt_inv_or_insert [simp]: "bt_inv m \<Longrightarrow> bt_inv (bt_or_insert k v m)"
  by (simp add: bt_or_insert_eq)

end
