(* ===== verification/Task_Mem.thy ===== *)
theory Task_Mem
  imports Prelude Btree_Map
begin

text \<open>
  The memory of a Linux task as the compatibility layer keeps it (\<^verbatim>\<open>lcl/src/task/mem.rs\<close> and the
  memory methods of \<^verbatim>\<open>lcl/src/task/mod.rs\<close>): a map of mapped pages, and a cache of page contents.
  The abstraction \<open>peek\<close> reads it as a flat byte memory in which unmapped bytes are zero;
  \<open>write_bytes\<close> refines a plain store into that memory. The locale \<open>byte_memory\<close> is the contract
  the system calls use; it is interpreted on the page cache.
\<close>

section \<open>State\<close>

definition DEF_HEAP_ADDR :: usize where "DEF_HEAP_ADDR = 0x70000000"
definition DEF_STACK_TOP :: usize where "DEF_STACK_TOP = 0x200000000"
definition DEF_STACK_BOTTOM :: usize where "DEF_STACK_BOTTOM = 0x1F0000000"

record task_mem_info =
  mapped_page :: "(usize, usize) btree"
  mapped_pt :: "usize list"
  heap :: usize
  page_data :: "(usize, bytes) btree"

definition task_mem_default :: task_mem_info where
  "task_mem_default = \<lparr> mapped_page = bt_empty, mapped_pt = [], heap = DEF_HEAP_ADDR, page_data = bt_empty \<rparr>"

definition page_offset :: "usize \<Rightarrow> nat" where
  "page_offset a = unat (a AND (PAGE_SIZE - 1))"

section \<open>Operations\<close>

definition brk :: "usize \<Rightarrow> task_mem_info \<Rightarrow> usize \<times> task_mem_info" where
  "brk value m = (if value = 0 then (heap m, m) else (value, m\<lparr> heap := value \<rparr>))"

definition read_ins :: "task_mem_info \<Rightarrow> usize \<Rightarrow> u32 option" where
  "read_ins m vaddr = map_option (\<lambda>_. 0) (bt_get (mapped_page m) (vaddr div PAGE_SIZE * PAGE_SIZE))"

text \<open>
  \<^verbatim>\<open>read_bytes_task\<close> and \<^verbatim>\<open>write_bytes_task\<close> walk the pages of a range without touching their
  contents; \<open>walk_size\<close> is \<^verbatim>\<open>cmp::min(PAGE_SIZE - offset, vaddr_end - vaddr)\<close>.
\<close>

definition walk_size :: "usize \<Rightarrow> usize \<Rightarrow> usize" where
  "walk_size vaddr vaddr_end = min (PAGE_SIZE - vaddr mod PAGE_SIZE) (vaddr_end - vaddr)"

lemma walk_size_bounds:
  assumes "vaddr < vaddr_end"
  shows "0 < unat (walk_size vaddr vaddr_end)" and "unat (walk_size vaddr vaddr_end) \<le> unat vaddr_end - unat vaddr"
    and "unat (vaddr + walk_size vaddr vaddr_end) = unat vaddr + unat (walk_size vaddr vaddr_end)"
proof -
  have lt: "unat vaddr < unat vaddr_end" using assms by (simp add: word_less_nat_alt)
  have m: "unat (vaddr mod PAGE_SIZE) = unat vaddr mod 4096" by (simp add: unat_mod)
  then have "vaddr mod PAGE_SIZE \<le> PAGE_SIZE" by (simp add: word_le_nat_alt)
  then have p: "unat (PAGE_SIZE - vaddr mod PAGE_SIZE) = 4096 - unat vaddr mod 4096"
    using m by (simp add: unat_minus_le)
  have e: "unat (vaddr_end - vaddr) = unat vaddr_end - unat vaddr"
    using lt by (simp add: unat_minus_le word_le_nat_alt)
  have w: "unat (walk_size vaddr vaddr_end) = min (4096 - unat vaddr mod 4096) (unat vaddr_end - unat vaddr)"
    unfolding walk_size_def min_def using p e by (auto simp: word_le_nat_alt)
  show "0 < unat (walk_size vaddr vaddr_end)" using w lt by simp
  show le: "unat (walk_size vaddr vaddr_end) \<le> unat vaddr_end - unat vaddr" using w by simp
  have "unat vaddr + unat (walk_size vaddr vaddr_end) < 2 ^ LENGTH(64)"
    using le lt unat_less_64 [of vaddr_end] by simp
  then show "unat (vaddr + walk_size vaddr vaddr_end) = unat vaddr + unat (walk_size vaddr vaddr_end)"
    by (rule unat_plus_no_wrap)
qed

lemma walk_decreases:
  "vaddr < vaddr_end \<Longrightarrow> unat vaddr_end - unat (vaddr + walk_size vaddr vaddr_end) < unat vaddr_end - unat vaddr"
  using walk_size_bounds [of vaddr vaddr_end] by simp

function read_bytes_walk :: "task_mem_info \<Rightarrow> usize \<Rightarrow> usize \<Rightarrow> bytes \<Rightarrow> bytes option" where
  "read_bytes_walk m vaddr vaddr_end acc =
     (if vaddr < vaddr_end then
        (case bt_get (mapped_page m) (vaddr div PAGE_SIZE * PAGE_SIZE) of
           None \<Rightarrow> None
         | Some _ \<Rightarrow>
             read_bytes_walk m (vaddr + walk_size vaddr vaddr_end) vaddr_end
               (acc @ replicate (unat (walk_size vaddr vaddr_end)) 0))
      else Some acc)"
  by auto
termination
  by (relation "measure (\<lambda>(m, vaddr, vaddr_end, acc). unat vaddr_end - unat vaddr)") (auto simp: walk_decreases)

definition read_bytes_task :: "task_mem_info \<Rightarrow> usize \<Rightarrow> usize \<Rightarrow> bytes option" where
  "read_bytes_task m vaddr len = read_bytes_walk m vaddr (vaddr + len) []"

function write_bytes_walk :: "task_mem_info \<Rightarrow> usize \<Rightarrow> usize \<Rightarrow> unit option" where
  "write_bytes_walk m vaddr vaddr_end =
     (if vaddr < vaddr_end then
        (case bt_get (mapped_page m) (vaddr div PAGE_SIZE * PAGE_SIZE) of
           None \<Rightarrow> None
         | Some _ \<Rightarrow> write_bytes_walk m (vaddr + walk_size vaddr vaddr_end) vaddr_end)
      else Some ())"
  by auto
termination
  by (relation "measure (\<lambda>(m, vaddr, vaddr_end). unat vaddr_end - unat vaddr)") (auto simp: walk_decreases)

definition write_bytes_task :: "task_mem_info \<Rightarrow> usize \<Rightarrow> bytes \<Rightarrow> unit option" where
  "write_bytes_task m vaddr dat = write_bytes_walk m vaddr (vaddr + of_nat (length dat))"

text \<open>
  \<^verbatim>\<open>read_cstr\<close> appends page tails of zeros until more than 4096 bytes are collected; each pass adds
  at least one byte.
\<close>

function read_cstr_walk :: "task_mem_info \<Rightarrow> usize \<Rightarrow> bytes \<Rightarrow> bytes option" where
  "read_cstr_walk m vaddr acc =
     (case bt_get (mapped_page m) (vaddr div PAGE_SIZE * PAGE_SIZE) of
        None \<Rightarrow> None
      | Some _ \<Rightarrow>
          let rsize = 4096 - unat (vaddr mod PAGE_SIZE);
              acc' = acc @ replicate rsize 0
          in if length acc' > 4096 then Some acc' else read_cstr_walk m (vaddr + of_nat rsize) acc')"
  by auto
termination
proof (relation "measure (\<lambda>(m, vaddr, acc). 4097 - length acc)", goal_cases)
  case (2 m vaddr acc x2 rsize acc')
  have "unat (vaddr mod PAGE_SIZE) < 4096" by (simp add: unat_mod)
  with 2 show ?case by simp
qed simp

definition read_cstr :: "task_mem_info \<Rightarrow> usize \<Rightarrow> bytes option" where
  "read_cstr m vaddr = read_cstr_walk m vaddr []"

definition map_blank_page_simple :: "usize \<Rightarrow> task_mem_info \<Rightarrow> usize option \<times> task_mem_info" where
  "map_blank_page_simple vaddr m =
     (let v = page_floor vaddr
      in (Some 0, m\<lparr> mapped_page := bt_or_insert v 0 (mapped_page m),
                     page_data := bt_or_insert v (replicate 4096 0) (page_data m) \<rparr>))"

definition check_addr :: "usize \<Rightarrow> usize \<Rightarrow> task_mem_info \<Rightarrow> task_mem_info" where
  "check_addr vaddr sz m =
     (let bottom = vaddr div PAGE_SIZE * PAGE_SIZE;
          e = vaddr + sz;
          top = (if e mod PAGE_SIZE = 0 then e div PAGE_SIZE else e div PAGE_SIZE + 1) * PAGE_SIZE
      in fold (\<lambda>addr m. if bt_contains (mapped_page m) addr then m
                        else if DEF_STACK_BOTTOM \<le> addr \<and> addr < DEF_STACK_TOP
                        then snd (map_blank_page_simple addr m) else m)
           (page_steps bottom top) m)"

definition clear_mapped :: "task_mem_info \<Rightarrow> task_mem_info" where
  "clear_mapped m = m\<lparr> mapped_page := bt_empty, mapped_pt := [] \<rparr>"

text \<open>
  \<^verbatim>\<open>read_bytes\<close> returns whether the page of the first byte is cached, and the buffer, whose bytes
  past the end of that page stay as they were.
\<close>

definition read_bytes :: "task_mem_info \<Rightarrow> usize \<Rightarrow> bytes \<Rightarrow> bool \<times> bytes" where
  "read_bytes m addr buf =
     (case bt_get (page_data m) (page_floor addr) of
        Some page \<Rightarrow>
          let len = min (length buf) (4096 - page_offset addr)
          in (True, copy_slice buf 0 (take len (drop (page_offset addr) page)))
      | None \<Rightarrow> (False, buf))"

definition read_bytes_u32 :: "task_mem_info \<Rightarrow> usize \<Rightarrow> u32 option" where
  "read_bytes_u32 m addr =
     (let (ok, buf) = read_bytes m addr (replicate 4 0) in if ok then Some (from_le buf) else None)"

lemma page_offset_lt [simp]: "page_offset a < 4096"
  unfolding page_offset_def page_offset_mod by simp

text \<open>One pass of the loop of \<^verbatim>\<open>write_bytes\<close>: a piece that stays inside one page.\<close>

definition write_piece :: "usize \<Rightarrow> bytes \<Rightarrow> task_mem_info \<Rightarrow> task_mem_info" where
  "write_piece addr piece m =
     (let v = page_floor addr; off = page_offset addr
      in case bt_get (page_data m) v of
           Some page \<Rightarrow> m\<lparr> page_data := bt_insert v (copy_slice page off piece) (page_data m) \<rparr>
         | None \<Rightarrow>
             m\<lparr> mapped_page := bt_insert v 0 (mapped_page m),
                page_data := bt_insert v (copy_slice (replicate 4096 0) off piece) (page_data m) \<rparr>)"

function write_bytes_loop :: "usize \<Rightarrow> bytes \<Rightarrow> task_mem_info \<Rightarrow> task_mem_info" where
  "write_bytes_loop addr remaining m =
     (if remaining = [] then m
      else let len = min (length remaining) (4096 - page_offset addr)
           in write_bytes_loop (addr + of_nat len) (drop len remaining) (write_piece addr (take len remaining) m))"
  by auto
termination
  by (relation "measure (\<lambda>(addr, remaining, m). length remaining)") (auto simp: not_le)

definition write_bytes :: "usize \<Rightarrow> bytes \<Rightarrow> task_mem_info \<Rightarrow> bool \<times> task_mem_info" where
  "write_bytes addr dat m = (True, write_bytes_loop addr dat m)"

text \<open>\<^verbatim>\<open>find_free_area\<close>; \<open>vm_end\<close> is the task's \<^verbatim>\<open>info.task_vm_end\<close>.\<close>

fun find_free_loop :: "usize \<Rightarrow> usize list \<Rightarrow> usize \<Rightarrow> usize" where
  "find_free_loop sz [] last_addr = last_addr"
| "find_free_loop sz (v # vs) last_addr =
     (if last_addr + sz \<le> v then last_addr else find_free_loop sz vs (v + PAGE_SIZE))"

definition find_free_area :: "usize \<Rightarrow> usize \<Rightarrow> usize \<Rightarrow> task_mem_info \<Rightarrow> usize" where
  "find_free_area vm_end start sz m = find_free_loop sz (bt_keys (mapped_page m)) (max vm_end start)"

declare read_bytes_walk.simps [simp del] write_bytes_walk.simps [simp del] read_cstr_walk.simps [simp del]
  write_bytes_loop.simps [simp del]

section \<open>Memory as bytes\<close>

definition peek :: "task_mem_info \<Rightarrow> usize \<Rightarrow> u8" where
  "peek m x = (case bt_get (page_data m) (page_floor x) of Some p \<Rightarrow> p ! page_offset x | None \<Rightarrow> 0)"

text \<open>Keys are page addresses and contents are pages; the cached pages are the mapped ones.\<close>

definition mem_ok :: "task_mem_info \<Rightarrow> bool" where
  "mem_ok m \<longleftrightarrow> bt_inv (mapped_page m) \<and> bt_inv (page_data m) \<and>
     (\<forall>k. bt_get (mapped_page m) k \<noteq> None \<longrightarrow> page_floor k = k) \<and>
     (\<forall>k p. bt_get (page_data m) k = Some p \<longrightarrow> page_floor k = k \<and> length p = 4096)"

definition mem_synced :: "task_mem_info \<Rightarrow> bool" where
  "mem_synced m \<longleftrightarrow> (\<forall>k. bt_get (mapped_page m) k = None \<longleftrightarrow> bt_get (page_data m) k = None)"

locale byte_memory =
  fixes rd :: "'m \<Rightarrow> usize \<Rightarrow> u8"
    and wr :: "usize \<Rightarrow> bytes \<Rightarrow> 'm \<Rightarrow> 'm"
    and ok :: "'m \<Rightarrow> bool"
  assumes wr_ok: "ok m \<Longrightarrow> ok (wr a bs m)"
    and rd_wr: "ok m \<Longrightarrow> length bs < 2 ^ 64 \<Longrightarrow> rd (wr a bs m) = mem_store (rd m) a bs"
begin

lemma slice_wr_same: "ok m \<Longrightarrow> length bs < 2 ^ 64 \<Longrightarrow> mem_slice (rd (wr a bs m)) a (length bs) = bs"
  by (simp add: rd_wr mem_slice_store_same)

lemma slice_wr_other:
  "ok m \<Longrightarrow> length bs < 2 ^ 64 \<Longrightarrow> apart a n b (length bs) \<Longrightarrow> mem_slice (rd (wr b bs m)) a n = mem_slice (rd m) a n"
  by (simp add: rd_wr mem_slice_store_other)

text \<open>A sequence of writes keeps a run that none of them touches.\<close>

lemma slice_fold_other:
  assumes "ok m" and "\<forall>(b, bs) \<in> set ws. length bs < 2 ^ 64 \<and> apart a n b (length bs)"
  shows "ok (fold (\<lambda>(b, bs). wr b bs) ws m) \<and>
    mem_slice (rd (fold (\<lambda>(b, bs). wr b bs) ws m)) a n = mem_slice (rd m) a n"
  using assms by (induction ws arbitrary: m) (auto simp: wr_ok slice_wr_other)

end

section \<open>Writing\<close>

lemma page_floor_offset: "unat a = unat (page_floor a) + page_offset a"
  by (simp only: page_offset_def page_offset_mod) (rule page_split)

lemma same_page_iff:
  assumes "page_offset a + n \<le> 4096"
  shows "unat (x - a) < n \<longleftrightarrow> page_floor x = page_floor a \<and> page_offset a \<le> page_offset x \<and> page_offset x < page_offset a + n"
proof
  assume lt: "unat (x - a) < n"
  have "unat a + unat (x - a) < 2 ^ 64"
    using lt assms page_floor_offset [of a] unat_page_floor_top [of a] by linarith
  then have x: "unat x = unat a + unat (x - a)"
    using unat_plus_no_wrap [of a "x - a"] by simp
  have "unat x = page_offset a + unat (x - a) + unat a div 4096 * 4096"
    using x page_floor_offset [of a] unat_page_floor [of a] by linarith
  moreover have "page_offset a + unat (x - a) < 4096" using lt assms by linarith
  ultimately have "unat x div 4096 = unat a div 4096" by simp
  then have pf: "page_floor x = page_floor a" by (simp add: word_unat_eq_iff unat_page_floor)
  then show "page_floor x = page_floor a \<and> page_offset a \<le> page_offset x \<and> page_offset x < page_offset a + n"
    using x lt page_floor_offset [of a] page_floor_offset [of x] by simp
next
  assume *: "page_floor x = page_floor a \<and> page_offset a \<le> page_offset x \<and> page_offset x < page_offset a + n"
  then have "unat a \<le> unat x" using page_floor_offset [of a] page_floor_offset [of x] by simp
  then show "unat (x - a) < n"
    using * page_floor_offset [of a] page_floor_offset [of x] by (auto simp: unat_diff_cases)
qed

lemma write_piece_page:
  "bt_get (page_data (write_piece a piece m)) k =
     (if k = page_floor a
      then Some (copy_slice (case bt_get (page_data m) k of Some p \<Rightarrow> p | None \<Rightarrow> replicate 4096 0) (page_offset a) piece)
      else bt_get (page_data m) k)"
  by (simp add: write_piece_def Let_def split: option.splits)

lemma write_piece_mapped:
  "bt_get (mapped_page (write_piece a piece m)) k =
     (if k = page_floor a \<and> bt_get (page_data m) k = None then Some 0 else bt_get (mapped_page m) k)"
  by (auto simp: write_piece_def Let_def split: option.splits)

lemma write_piece_ok:
  assumes "mem_ok m" and "page_offset a + length piece \<le> 4096"
  shows "mem_ok (write_piece a piece m)"
proof -
  have "bt_inv (mapped_page (write_piece a piece m))" "bt_inv (page_data (write_piece a piece m))"
    using assms(1) by (simp_all add: mem_ok_def write_piece_def Let_def split: option.splits)
  then show ?thesis
    using assms by (auto simp: mem_ok_def write_piece_page write_piece_mapped page_floor_idem split: option.splits if_splits)
qed

lemma write_piece_synced: "mem_synced m \<Longrightarrow> mem_synced (write_piece a piece m)"
  unfolding mem_synced_def write_piece_page write_piece_mapped by (metis option.distinct(1))

lemma peek_write_piece:
  assumes "mem_ok m" and "page_offset a + length piece \<le> 4096"
  shows "peek (write_piece a piece m) = mem_store (peek m) a piece"
proof
  fix x
  let ?old = "case bt_get (page_data m) (page_floor a) of Some p \<Rightarrow> p | None \<Rightarrow> replicate 4096 0"
  have len: "length ?old = 4096" using assms(1) by (auto simp: mem_ok_def split: option.splits)
  show "peek (write_piece a piece m) x = mem_store (peek m) a piece x"
  proof (cases "page_floor x = page_floor a")
    case True
    then have "peek (write_piece a piece m) x = copy_slice ?old (page_offset a) piece ! page_offset x"
      by (simp add: peek_def write_piece_page)
    also have "\<dots> = (if page_offset a \<le> page_offset x \<and> page_offset x < page_offset a + length piece
                     then piece ! (page_offset x - page_offset a) else ?old ! page_offset x)"
      using assms(2) len by (simp add: nth_copy_slice)
    also have "?old ! page_offset x = peek m x" using True by (simp add: peek_def split: option.splits)
    also have "page_offset x - page_offset a = unat (x - a)" if "page_offset a \<le> page_offset x"
      using that page_floor_offset [of a] page_floor_offset [of x] True by (auto simp: unat_diff_cases)
    ultimately show ?thesis
      using same_page_iff [OF assms(2), of x] True by (auto simp: mem_store_def)
  next
    case False
    then show ?thesis using same_page_iff [OF assms(2), of x]
      by (simp add: peek_def write_piece_page mem_store_def)
  qed
qed

lemma piece_fits: "page_offset a + length (take (min n (4096 - page_offset a)) xs) \<le> 4096"
proof -
  have "length (take (min n (4096 - page_offset a)) xs) \<le> 4096 - page_offset a" by simp
  moreover have "page_offset a \<le> 4096" using page_offset_lt by (rule less_imp_le)
  ultimately show ?thesis by linarith
qed

lemma write_bytes_loop_Nil [simp]: "write_bytes_loop a [] m = m"
  by (simp add: write_bytes_loop.simps)

lemma write_bytes_loop_ok: "mem_ok m \<Longrightarrow> mem_ok (write_bytes_loop a bs m)"
proof (induction a bs m rule: write_bytes_loop.induct)
  case (1 a bs m)
  then show ?case
    using write_piece_ok [OF _ piece_fits]
    by (cases "bs = []") (auto simp: write_bytes_loop.simps [of a bs] Let_def)
qed

lemma write_bytes_loop_synced: "mem_synced m \<Longrightarrow> mem_synced (write_bytes_loop a bs m)"
proof (induction a bs m rule: write_bytes_loop.induct)
  case (1 a bs m)
  then show ?case
    by (cases "bs = []") (auto simp: write_bytes_loop.simps [of a bs] Let_def write_piece_synced)
qed

text \<open>Cached pages stay cached, and the page of the first byte becomes cached.\<close>

lemma write_bytes_loop_cached:
  "bt_get (page_data m) k \<noteq> None \<or> (bs \<noteq> [] \<and> k = page_floor a) \<Longrightarrow> bt_get (page_data (write_bytes_loop a bs m)) k \<noteq> None"
proof (induction a bs m rule: write_bytes_loop.induct)
  case (1 a bs m)
  then show ?case
    by (cases "bs = []") (auto simp: write_bytes_loop.simps [of a bs] Let_def write_piece_page)
qed

lemma write_bytes_loop_mapped:
  "bt_get (mapped_page m) k \<noteq> None \<Longrightarrow> bt_get (mapped_page (write_bytes_loop a bs m)) k \<noteq> None"
proof (induction a bs m rule: write_bytes_loop.induct)
  case (1 a bs m)
  then show ?case
    by (cases "bs = []") (auto simp: write_bytes_loop.simps [of a bs] Let_def write_piece_mapped)
qed

lemma write_bytes_loop_frame [frame_simps]:
  "heap (write_bytes_loop a bs m) = heap m \<and> mapped_pt (write_bytes_loop a bs m) = mapped_pt m"
proof (induction a bs m rule: write_bytes_loop.induct)
  case (1 a bs m)
  have "heap (write_piece a p m) = heap m" "mapped_pt (write_piece a p m) = mapped_pt m" for p
    by (simp_all add: write_piece_def Let_def split: option.splits)
  with 1 show ?case
    by (cases "bs = []") (simp_all add: write_bytes_loop.simps [of a bs] Let_def)
qed

lemma mem_store_split:
  assumes "n \<le> length bs" and "length bs < 2 ^ 64"
  shows "mem_store (mem_store mem a (take n bs)) (a + of_nat n) (drop n bs) = mem_store mem a bs"
  using mem_store_append [of "take n bs" "drop n bs" mem a] assms by (simp add: min_absorb2)

lemma peek_write_bytes_loop:
  "mem_ok m \<Longrightarrow> length bs < 2 ^ 64 \<Longrightarrow> peek (write_bytes_loop a bs m) = mem_store (peek m) a bs"
proof (induction a bs m rule: write_bytes_loop.induct)
  case (1 a bs m)
  show ?case
  proof (cases "bs = []")
    case True
    then show ?thesis by (simp add: write_bytes_loop.simps mem_store_def)
  next
    case False
    let ?len = "min (length bs) (4096 - page_offset a)"
    let ?m = "write_piece a (take ?len bs) m"
    have ok: "mem_ok ?m" using 1(2) piece_fits by (rule write_piece_ok)
    have "peek (write_bytes_loop a bs m) = peek (write_bytes_loop (a + of_nat ?len) (drop ?len bs) ?m)"
      using False by (simp add: write_bytes_loop.simps [of a bs] Let_def)
    also have "\<dots> = mem_store (peek ?m) (a + of_nat ?len) (drop ?len bs)"
      using 1(1) [OF False refl ok] 1(3) by simp
    also have "peek ?m = mem_store (peek m) a (take ?len bs)"
      using 1(2) piece_fits by (rule peek_write_piece)
    also have "mem_store (mem_store (peek m) a (take ?len bs)) (a + of_nat ?len) (drop ?len bs) = mem_store (peek m) a bs"
      using 1(3) by (intro mem_store_split) simp_all
    finally show ?thesis .
  qed
qed

interpretation task_memory: byte_memory peek write_bytes_loop mem_ok
  by unfold_locales (simp_all add: write_bytes_loop_ok peek_write_bytes_loop)

lemma read_bytes_peek:
  assumes "mem_ok m" and "fst (read_bytes m a buf)"
  shows "snd (read_bytes m a buf) =
    copy_slice buf 0 (mem_slice (peek m) a (min (length buf) (4096 - page_offset a)))"
proof -
  from assms(2) obtain p where p: "bt_get (page_data m) (page_floor a) = Some p"
    by (auto simp: read_bytes_def split: option.splits)
  then have len: "length p = 4096" using assms(1) by (simp add: mem_ok_def)
  let ?n = "min (length buf) (4096 - page_offset a)"
  have "take ?n (drop (page_offset a) p) = mem_slice (peek m) a ?n"
  proof (rule nth_equalityI)
    fix i assume "i < length (take ?n (drop (page_offset a) p))"
    then have i: "i < 4096 - page_offset a" "i < ?n" using len by simp_all
    let ?x = "a + of_nat i"
    have "unat (of_nat i :: usize) = i" using i by (intro unat_of_nat_small) simp
    then have d: "unat (?x - a) < Suc i" "unat (?x - a) = i" by simp_all
    have "page_offset a + Suc i \<le> 4096" using i by simp
    from same_page_iff [OF this, of ?x] d(1) have pf: "page_floor ?x = page_floor a" "page_offset a \<le> page_offset ?x"
      by auto
    have "unat a \<le> unat ?x" using pf page_floor_offset [of a] page_floor_offset [of ?x] by simp
    then have "unat ?x - unat a = i" using d(2) unat_diff_cases [of ?x a] by presburger
    then have "page_offset ?x = page_offset a + i"
      using pf(2) page_floor_offset [of a] page_floor_offset [of ?x] unfolding pf(1) by linarith
    then show "take ?n (drop (page_offset a) p) ! i = mem_slice (peek m) a ?n ! i"
      using p pf i len by (simp add: mem_slice_def peek_def)
  qed (use len in simp)
  then show ?thesis using p by (simp add: read_bytes_def Let_def)
qed

text \<open>
  C8. A task's memory behaves as one flat byte array: \<^verbatim>\<open>write_bytes\<close>, which walks page by page and
  creates missing pages, stores exactly the given bytes at the given address (across page
  boundaries) and changes no other byte, where a byte of an unmapped page reads as zero; and the
  page cache stays well formed.
\<close>

theorem write_bytes_refines_store:
  assumes "mem_ok m" and "length bs < 2 ^ 64"
  shows "fst (write_bytes a bs m) \<and> peek (snd (write_bytes a bs m)) = mem_store (peek m) a bs \<and>
    mem_ok (snd (write_bytes a bs m)) \<and> heap (snd (write_bytes a bs m)) = heap m"
  using assms by (simp add: write_bytes_def task_memory.rd_wr task_memory.wr_ok frame_simps)

lemma task_mem_default_ok [simp]: "mem_ok task_mem_default" "mem_synced task_mem_default"
  by (simp_all add: mem_ok_def mem_synced_def task_mem_default_def)

theorem write_bytes_refines_store_witness:
  "peek (snd (write_bytes 0xFFE [1, 2, 3, 4] task_mem_default)) 0x1001 = 4"
proof -
  have "peek (snd (write_bytes 0xFFE [1, 2, 3, 4] task_mem_default)) = mem_store (peek task_mem_default) 0xFFE [1, 2, 3, 4]"
    using write_bytes_refines_store [of task_mem_default "[1, 2, 3, 4]" "0xFFE"] by simp
  then show ?thesis by (simp add: mem_store_def)
qed

text \<open>
  Reading returns what was written: after \<^verbatim>\<open>write_bytes\<close>, a \<^verbatim>\<open>read_bytes\<close> of the same
  address with a buffer of the same length succeeds and fills the buffer with the data up to the
  end of the page; past the page boundary the buffer keeps its old contents.
\<close>

lemma read_after_write:
  assumes "mem_ok m" and "bs \<noteq> []" and "length bs < 2 ^ 64" and "length buf = length bs"
  shows "read_bytes (snd (write_bytes a bs m)) a buf =
    (True, take (4096 - page_offset a) bs @ drop (4096 - page_offset a) buf)"
proof -
  let ?m = "write_bytes_loop a bs m" and ?n = "min (length bs) (4096 - page_offset a)"
  have ok: "mem_ok ?m" using assms(1) by (rule task_memory.wr_ok)
  have "bt_get (page_data ?m) (page_floor a) \<noteq> None"
    using assms(2) write_bytes_loop_cached [of m "page_floor a" bs a] by auto
  then have t: "fst (read_bytes ?m a buf)" by (auto simp: read_bytes_def Let_def)
  have "mem_slice (peek ?m) a ?n = take ?n bs"
    using assms(3) by (auto simp: task_memory.rd_wr [OF assms(1,3)] mem_slice_def mem_store_nth intro!: nth_equalityI)
  then have "snd (read_bytes ?m a buf) = copy_slice buf 0 (take ?n bs)"
    using read_bytes_peek [OF ok t] assms(4) by simp
  with t assms(4) show ?thesis
    by (cases "read_bytes ?m a buf") (simp add: write_bytes_def copy_slice_def min_def)
qed

section \<open>Free areas\<close>

lemma find_free_loop_result:
  "find_free_loop sz ks last_addr = last_addr \<or> (\<exists>k \<in> set ks. find_free_loop sz ks last_addr = k + PAGE_SIZE)"
  by (induction sz ks last_addr rule: find_free_loop.induct) auto

lemma find_free_loop_free:
  assumes "sorted_wrt (<) ks" and "\<forall>k \<in> set ks. unat k + 4096 + unat sz < 2 ^ 64"
    and "unat last_addr + unat sz < 2 ^ 64" and "k \<in> set ks"
  shows "unat (find_free_loop sz ks last_addr) + unat sz \<le> unat k \<or> unat k + 4096 \<le> unat (find_free_loop sz ks last_addr)"
  using assms
proof (induction sz ks last_addr rule: find_free_loop.induct)
  case (2 sz v vs last_addr)
  show ?case
  proof (cases "last_addr + sz \<le> v")
    case True
    then have "unat last_addr + unat sz \<le> unat v"
      using 2(4) unat_plus_no_wrap [of last_addr sz] by (simp add: word_le_nat_alt)
    moreover have "unat v \<le> unat k" using 2 by (auto simp: word_less_nat_alt)
    ultimately show ?thesis using True by simp
  next
    case False
    have pg: "unat (x + PAGE_SIZE) = unat x + 4096" if "x \<in> set (v # vs)" for x
      using 2(3) that unat_plus_no_wrap [of x PAGE_SIZE] by fastforce
    let ?r = "find_free_loop sz vs (v + PAGE_SIZE)"
    have "unat v + 4096 \<le> unat ?r"
      using find_free_loop_result [of sz vs "v + PAGE_SIZE"] pg 2(2) by (auto simp: word_less_nat_alt)
    moreover have "unat ?r + unat sz \<le> unat k \<or> unat k + 4096 \<le> unat ?r" if "k \<in> set vs"
      using 2(1) [OF False] 2(2,3) that pg [of v] by auto
    ultimately show ?thesis using 2(5) False by auto
  qed
qed simp

text \<open>No wrap-around: every mapped page and the search start leave room for the area below \<open>2 ^ 64\<close>.\<close>

definition area_fits :: "usize \<Rightarrow> usize \<Rightarrow> usize \<Rightarrow> task_mem_info \<Rightarrow> bool" where
  "area_fits vm_end start sz m \<longleftrightarrow> unat (max vm_end start) + unat sz < 2 ^ 64 \<and>
     (\<forall>k \<in> set (bt_keys (mapped_page m)). unat k + 4096 + unat sz < 2 ^ 64)"

lemma find_free_area_free:
  assumes "mem_ok m" and "area_fits vm_end start sz m" and "bt_get (mapped_page m) k \<noteq> None"
  shows "unat (find_free_area vm_end start sz m) + unat sz \<le> unat k \<or> unat k + 4096 \<le> unat (find_free_area vm_end start sz m)"
  unfolding find_free_area_def
  by (rule find_free_loop_free)
    (use assms in \<open>auto simp: mem_ok_def area_fits_def btree.keys_sorted btree.keys_get\<close>)

lemma find_free_area_bound:
  assumes "mem_ok m" and "area_fits vm_end start sz m"
  shows "unat (find_free_area vm_end start sz m) + unat sz < 2 ^ 64"
proof -
  have "unat (k + PAGE_SIZE) + unat sz < 2 ^ 64" if "k \<in> set (bt_keys (mapped_page m))" for k
    using assms(2) that unat_plus_no_wrap [of k PAGE_SIZE] by (fastforce simp: area_fits_def)
  then show ?thesis
    using find_free_loop_result [of sz "bt_keys (mapped_page m)" "max vm_end start"] assms(2)
    by (auto simp: find_free_area_def area_fits_def)
qed

lemma page_floor_add_page: "page_floor a = a \<Longrightarrow> page_floor (a + of_nat n * PAGE_SIZE) = a + of_nat n * PAGE_SIZE"
proof -
  assume "page_floor a = a"
  then have a: "a = push_bit 12 (drop_bit 12 a)" by (simp add: page_floor_def PAGE_SIZE_mask and_not_mask_eq)
  have "a + of_nat n * PAGE_SIZE = push_bit 12 (drop_bit 12 a + of_nat n)"
    by (subst a) (simp add: push_bit_eq_mult PAGE_SIZE_def algebra_simps)
  moreover have "push_bit 12 w AND NOT (mask 12) = push_bit 12 w" for w :: usize
    by (rule bit_word_eqI) (auto simp: bit_simps)
  ultimately show ?thesis by (simp only: page_floor_def PAGE_SIZE_mask)
qed

lemma find_free_area_aligned:
  assumes "mem_ok m" and "page_floor vm_end = vm_end" and "page_floor start = start"
  shows "page_floor (find_free_area vm_end start sz m) = find_free_area vm_end start sz m"
proof -
  have "page_floor (k + PAGE_SIZE) = k + PAGE_SIZE" if "k \<in> set (bt_keys (mapped_page m))" for k
    using that assms(1) page_floor_add_page [of k 1] by (auto simp: mem_ok_def btree.keys_get)
  then show ?thesis
    using find_free_loop_result [of sz "bt_keys (mapped_page m)" "max vm_end start"] assms(2,3)
    by (auto simp: find_free_area_def max_def)
qed

section \<open>Mapping and unmapping\<close>

lemma map_blank_get [simp]:
  "bt_get (mapped_page (snd (map_blank_page_simple v m))) k =
     (if k = page_floor v \<and> bt_get (mapped_page m) k = None then Some 0 else bt_get (mapped_page m) k)"
  "bt_get (page_data (snd (map_blank_page_simple v m))) k =
     (if k = page_floor v \<and> bt_get (page_data m) k = None then Some (replicate 4096 0) else bt_get (page_data m) k)"
  by (auto simp: map_blank_page_simple_def Let_def bt_get_or_insert)

lemma map_blank_ok: "mem_ok m \<Longrightarrow> mem_ok (snd (map_blank_page_simple v m))"
proof -
  assume ok: "mem_ok m"
  then have "bt_inv (mapped_page (snd (map_blank_page_simple v m)))" "bt_inv (page_data (snd (map_blank_page_simple v m)))"
    by (simp_all add: mem_ok_def map_blank_page_simple_def Let_def)
  with ok show ?thesis by (auto simp: mem_ok_def page_floor_idem split: if_splits)
qed

lemma map_blank_synced: "mem_synced m \<Longrightarrow> mem_synced (snd (map_blank_page_simple v m))"
  by (auto simp: mem_synced_def)

lemma map_blank_peek: "mem_ok m \<Longrightarrow> peek (snd (map_blank_page_simple v m)) = peek m"
  by (auto simp: peek_def fun_eq_iff split: option.splits)

text \<open>Mapping a list of pages.\<close>

definition map_pages :: "usize list \<Rightarrow> task_mem_info \<Rightarrow> task_mem_info" where
  "map_pages vs m = fold (\<lambda>v m. snd (map_blank_page_simple v m)) vs m"

lemma map_pages_simps [simp]:
  "map_pages [] m = m" "map_pages (v # vs) m = map_pages vs (snd (map_blank_page_simple v m))"
  by (simp_all add: map_pages_def)

lemma map_pages_ok: "mem_ok m \<Longrightarrow> mem_ok (map_pages vs m)"
  by (induction vs arbitrary: m) (simp_all add: map_blank_ok)

lemma map_pages_synced: "mem_synced m \<Longrightarrow> mem_synced (map_pages vs m)"
  by (induction vs arbitrary: m) (simp_all add: map_blank_synced)

lemma map_pages_peek: "mem_ok m \<Longrightarrow> peek (map_pages vs m) = peek m"
  by (induction vs arbitrary: m) (simp_all add: map_blank_ok map_blank_peek)

lemma map_pages_mapped:
  "bt_get (mapped_page (map_pages vs m)) k \<noteq> None \<longleftrightarrow> bt_get (mapped_page m) k \<noteq> None \<or> k \<in> page_floor ` set vs"
  by (induction vs arbitrary: m) auto

lemma map_pages_heap [simp]: "heap (map_pages vs m) = heap m"
  by (induction vs arbitrary: m) (simp_all add: map_blank_page_simple_def Let_def)

end
