(* ===== verification/Task_Signal.thy ===== *)
theory Task_Signal
  imports Prelude
begin

text \<open>
  Signal state of a task, \<^verbatim>\<open>lcl/src/task/signal.rs\<close>: a 64-bit pending set and mask, where signal \<open>s\<close> is
  bit \<open>s - 1\<close>, and the table of 65 actions.
\<close>

record signal_action =
  sa_handler :: usize
  sa_flags :: u32
  sa_mask :: u64

definition signal_action_default :: signal_action where
  "signal_action_default = \<lparr> sa_handler = 0, sa_flags = 0, sa_mask = 0 \<rparr>"

record task_signal =
  pending :: u64
  sig_mask :: u64
  actions :: "signal_action list"
  exit_sig :: "usize option"

definition task_signal_new :: task_signal where
  "task_signal_new = \<lparr> pending = 0, sig_mask = 0, actions = replicate 65 signal_action_default, exit_sig = None \<rparr>"

definition add_signal :: "usize \<Rightarrow> usize \<Rightarrow> task_signal \<Rightarrow> task_signal" where
  "add_signal sig from_tid s =
     (if sig > 0 \<and> sig \<le> 64 then s\<lparr> pending := pending s OR push_bit (unat (sig - 1)) 1 \<rparr> else s)"

definition has_unmasked_signal :: "task_signal \<Rightarrow> bool" where
  "has_unmasked_signal s \<longleftrightarrow> pending s AND NOT (sig_mask s) \<noteq> 0"

definition trailing_zeros :: "u64 \<Rightarrow> nat" where
  "trailing_zeros w = length (takeWhile (\<lambda>i. \<not> bit w i) [0..<64])"

definition pop_signal :: "task_signal \<Rightarrow> usize option \<times> task_signal" where
  "pop_signal s =
     (let unmasked = pending s AND NOT (sig_mask s)
      in if unmasked = 0 then (None, s)
         else let sig = trailing_zeros unmasked + 1
              in (Some (of_nat sig), s\<lparr> pending := pending s AND NOT (push_bit (sig - 1) 1) \<rparr>))"

section \<open>Lemmas\<close>

text \<open>Signal \<open>n\<close> (from 1) is pending, and pending and not blocked.\<close>

definition is_pending :: "task_signal \<Rightarrow> nat \<Rightarrow> bool" where
  "is_pending s n \<longleftrightarrow> 0 < n \<and> bit (pending s) (n - 1)"

definition deliverable :: "task_signal \<Rightarrow> nat \<Rightarrow> bool" where
  "deliverable s n \<longleftrightarrow> is_pending s n \<and> \<not> bit (sig_mask s) (n - 1)"

lemma takeWhile_upt_length:
  "P n \<Longrightarrow> n < m \<Longrightarrow> length (takeWhile (\<lambda>i. \<not> P i) [0..<m]) = (LEAST i. P i)"
proof -
  assume "P n" "n < m"
  let ?l = "LEAST i. P i"
  have "P ?l" using \<open>P n\<close> by (rule LeastI)
  moreover have "?l \<le> n" using \<open>P n\<close> by (rule Least_le)
  moreover have "\<forall>i < ?l. \<not> P i" using not_less_Least by blast
  ultimately have l: "P ?l" "?l \<le> n" "\<And>i. i < ?l \<Longrightarrow> \<not> P i" by blast+
  have "takeWhile (\<lambda>i. \<not> P i) [0..<m] = take ?l [0..<m]"
  proof (rule takeWhile_eq_take_P_nth)
    fix i assume i: "i < ?l" "i < length [0..<m]"
    then have "[0..<m] ! i = i" by simp
    then show "\<not> P ([0..<m] ! i)" using l(3) [OF i(1)] by (simp only: not_False_eq_True)
  next
    assume "?l < length [0..<m]"
    then have "[0..<m] ! ?l = ?l" by simp
    then show "\<not> \<not> P ([0..<m] ! ?l)" using l(1) by (simp only: not_not)
  qed
  moreover have "?l < m" using l(2) \<open>n < m\<close> by (rule le_less_trans)
  ultimately show ?thesis by simp
qed

lemma trailing_zeros_least:
  assumes "w \<noteq> 0"
  shows "bit w (trailing_zeros w)" and "trailing_zeros w < 64" and "i < trailing_zeros w \<Longrightarrow> \<not> bit w i"
proof -
  from assms obtain n where n: "bit w n" using bit_eq_iff [of w 0] by auto
  then have "n < 64" using bit_imp_le_length [of w n] by simp
  from takeWhile_upt_length [of "bit w", OF n this] have tz: "trailing_zeros w = (LEAST i. bit w i)"
    by (simp add: trailing_zeros_def)
  then show "bit w (trailing_zeros w)" using n by (simp add: LeastI)
  then show "trailing_zeros w < 64" using bit_imp_le_length [of w "trailing_zeros w"] by simp
  show "i < trailing_zeros w \<Longrightarrow> \<not> bit w i" using tz not_less_Least by simp
qed

lemma unmasked_deliverable: "n < 64 \<Longrightarrow> bit (pending s AND NOT (sig_mask s)) n \<longleftrightarrow> deliverable s (Suc n)"
  by (simp add: deliverable_def is_pending_def bit_simps)

lemma deliverable_range: "deliverable s n \<Longrightarrow> 0 < n \<and> n \<le> 64"
  using bit_imp_le_length [of "pending s" "n - 1"] by (auto simp: deliverable_def is_pending_def)

lemma bit_clear_one: "bit (w AND NOT (2 ^ k)) i \<longleftrightarrow> bit (w :: u64) i \<and> i \<noteq> k"
  using bit_imp_le_length [of w i] by (auto simp: bit_simps)

text \<open>
  C22. \<^verbatim>\<open>pop_signal\<close> delivers the lowest-numbered pending signal that is not blocked: it returns
  nothing exactly when no pending signal is unblocked, and otherwise the least such signal, whose
  pending bit alone is cleared; mask and actions do not change.
\<close>

theorem pop_signal_least:
  "case pop_signal s of
     (None, s') \<Rightarrow> s' = s \<and> (\<forall>n. \<not> deliverable s n)
   | (Some sig, s') \<Rightarrow>
       deliverable s (unat sig) \<and> (\<forall>n < unat sig. \<not> deliverable s n) \<and>
       (\<forall>n. is_pending s' n \<longleftrightarrow> is_pending s n \<and> n \<noteq> unat sig) \<and>
       sig_mask s' = sig_mask s \<and> actions s' = actions s"
proof (cases "pending s AND NOT (sig_mask s) = 0")
  case True
  have "\<not> deliverable s n" for n
    using True unmasked_deliverable [of "n - 1" s] deliverable_range [of s n] by (cases n) auto
  with True show ?thesis by (simp add: pop_signal_def)
next
  case False
  let ?t = "trailing_zeros (pending s AND NOT (sig_mask s))"
  note tz = trailing_zeros_least [OF False]
  have u: "unat (1 + of_nat ?t :: usize) = Suc ?t"
    using tz(2) unat_of_nat_small [of "Suc ?t", where 'a = 64] by simp
  have "deliverable s (Suc ?t)" using tz(1,2) by (simp add: unmasked_deliverable [symmetric])
  moreover have "\<not> deliverable s n" if "n < Suc ?t" for n
    using that tz(2) tz(3) [of "n - 1"] unmasked_deliverable [of "n - 1" s] deliverable_range [of s n] by (cases n) auto
  moreover have "is_pending (s\<lparr> pending := pending s AND NOT (push_bit ?t 1) \<rparr>) n \<longleftrightarrow> is_pending s n \<and> n \<noteq> Suc ?t" for n
    by (cases n) (auto simp: is_pending_def bit_clear_one)
  ultimately show ?thesis using False u by (simp add: pop_signal_def Let_def)
qed

theorem pop_signal_least_witness:
  "pop_signal (task_signal_new\<lparr> pending := 0x2004, sig_mask := 4 \<rparr>) =
     (Some 14, task_signal_new\<lparr> pending := 4, sig_mask := 4 \<rparr>) \<and>
   deliverable (task_signal_new\<lparr> pending := 0x2004, sig_mask := 4 \<rparr>) 14"
proof -
  have "trailing_zeros 0x2000 = 13" by code_simp
  then have "pop_signal (task_signal_new\<lparr> pending := 0x2004, sig_mask := 4 \<rparr>) =
     (Some 14, task_signal_new\<lparr> pending := 4, sig_mask := 4 \<rparr>)"
    by (simp add: pop_signal_def)
  then show ?thesis
    using pop_signal_least [of "task_signal_new\<lparr> pending := 0x2004, sig_mask := 4 \<rparr>"] by simp
qed

lemma add_signal_pending:
  "0 < n \<Longrightarrow> is_pending (add_signal sig from_tid s) n \<longleftrightarrow> is_pending s n \<or> (n = unat sig \<and> n \<le> 64)"
proof -
  assume n: "0 < n"
  show ?thesis
  proof (cases "sig > 0 \<and> sig \<le> 64")
    case True
    then have u: "0 < unat sig" "unat sig \<le> 64" by (simp_all add: word_less_nat_alt word_le_nat_alt)
    then have "1 \<le> sig" by (simp add: word_le_nat_alt)
    then have s: "unat (sig - 1) = unat sig - 1" by (simp add: unat_minus_le)
    have "bit (push_bit (unat sig - 1) 1 :: u64) (n - 1) \<longleftrightarrow> n = unat sig"
      using n u by (auto simp: bit_simps)
    then show ?thesis using True n s u by (auto simp: add_signal_def is_pending_def bit_or_iff)
  next
    case False
    then have "unat sig = 0 \<or> 64 < unat sig" by (auto simp: word_less_nat_alt word_le_nat_alt)
    then show ?thesis using False n by (auto simp: add_signal_def)
  qed
qed

end
