(* ===== verification/Sel4_Types.thy ===== *)
theory Sel4_Types
  imports Prelude
begin

text \<open>
  The kernel ABI types of \<^verbatim>\<open>crates/sel4-sys/src/types.rs\<close> and \<^verbatim>\<open>error.rs\<close>: the packed words
  (\<^verbatim>\<open>MessageInfo\<close>, \<^verbatim>\<open>CNodeCapData\<close>, \<^verbatim>\<open>CapRights\<close>, \<^verbatim>\<open>VmAttributes\<close>), the object, fault and
  error enumerations with their numeric encodings, and the register file \<^verbatim>\<open>UserContext\<close> with its
  160-byte memory image. The lemmas are the round trips of the packed words, of the enumerations
  and of the register file.
\<close>

section \<open>MessageInfo\<close>

record message_info =
  mi_word :: usize

definition mi_from_word :: "usize \<Rightarrow> message_info" where
  "mi_from_word w = \<lparr> mi_word = w \<rparr>"

definition mi_new :: "u32 \<Rightarrow> u8 \<Rightarrow> u8 \<Rightarrow> message_info" where
  "mi_new lbl len caps =
     \<lparr> mi_word = push_bit 12 (ucast lbl) OR push_bit 7 (ucast caps) OR ucast len \<rparr>"

definition mi_label :: "message_info \<Rightarrow> u32" where
  "mi_label m = ucast (drop_bit 12 (mi_word m))"

definition mi_length :: "message_info \<Rightarrow> u8" where
  "mi_length m = ucast (mi_word m AND 0x7F)"

definition mi_extra_caps :: "message_info \<Rightarrow> u8" where
  "mi_extra_caps m = ucast (drop_bit 7 (mi_word m) AND 0x1F)"

text \<open>\<^verbatim>\<open>MessageInfoBuilder\<close>: the three fields, zero at first, replaced one by one and then packed.\<close>

record message_info_builder =
  mib_label :: u32
  mib_length :: u8
  mib_extra_caps :: u8

definition mib_new :: message_info_builder where
  "mib_new = \<lparr> mib_label = 0, mib_length = 0, mib_extra_caps = 0 \<rparr>"

definition mib_with_label :: "u32 \<Rightarrow> message_info_builder \<Rightarrow> message_info_builder" where
  "mib_with_label l b = b\<lparr> mib_label := l \<rparr>"

definition mib_with_length :: "u8 \<Rightarrow> message_info_builder \<Rightarrow> message_info_builder" where
  "mib_with_length n b = b\<lparr> mib_length := n \<rparr>"

definition mib_with_extra_caps :: "u8 \<Rightarrow> message_info_builder \<Rightarrow> message_info_builder" where
  "mib_with_extra_caps n b = b\<lparr> mib_extra_caps := n \<rparr>"

definition mib_build :: "message_info_builder \<Rightarrow> message_info" where
  "mib_build b = mi_new (mib_label b) (mib_length b) (mib_extra_caps b)"

section \<open>CNodeCapData, CapRights, VmAttributes\<close>

record cnode_cap_data =
  cd_word :: usize

definition cd_new :: "u8 \<Rightarrow> usize \<Rightarrow> u8 \<Rightarrow> cnode_cap_data" where
  "cd_new guard_size guard radix =
     \<lparr> cd_word = push_bit 12 guard OR push_bit 6 (ucast radix) OR ucast guard_size \<rparr>"

definition cd_from_word :: "usize \<Rightarrow> cnode_cap_data" where
  "cd_from_word w = \<lparr> cd_word = w \<rparr>"

definition cd_guard_size :: "cnode_cap_data \<Rightarrow> u8" where
  "cd_guard_size d = ucast (cd_word d AND 0x3F)"

definition cd_radix :: "cnode_cap_data \<Rightarrow> u8" where
  "cd_radix d = ucast (drop_bit 6 (cd_word d) AND 0x3F)"

definition cd_guard :: "cnode_cap_data \<Rightarrow> usize" where
  "cd_guard d = drop_bit 12 (cd_word d)"

record cap_rights =
  cr_bits :: usize

definition cr_from_bits :: "usize \<Rightarrow> cap_rights" where
  "cr_from_bits b = \<lparr> cr_bits = b \<rparr>"

definition CapRights_default :: cap_rights where
  "CapRights_default = \<lparr> cr_bits = 0 \<rparr>"

definition CapRights_ALL :: cap_rights where
  "CapRights_ALL = \<lparr> cr_bits = 0b1111 \<rparr>"

definition CapRights_READ_ONLY :: cap_rights where
  "CapRights_READ_ONLY = \<lparr> cr_bits = 0b0010 \<rparr>"

definition CapRights_READ_WRITE :: cap_rights where
  "CapRights_READ_WRITE = \<lparr> cr_bits = 0b0011 \<rparr>"

record vm_attributes =
  va_bits :: usize

definition VmAttributes_DEFAULT :: vm_attributes where
  "VmAttributes_DEFAULT = \<lparr> va_bits = 0 \<rparr>"

definition with_pat :: "vm_attributes \<Rightarrow> u8 \<Rightarrow> vm_attributes" where
  "with_pat v pat = \<lparr> va_bits = (va_bits v AND NOT 0x7) OR (ucast pat AND 0x7) \<rparr>"

definition with_write_through :: "vm_attributes \<Rightarrow> vm_attributes" where
  "with_write_through v = \<lparr> va_bits = va_bits v OR push_bit 3 1 \<rparr>"

definition with_cache_disabled :: "vm_attributes \<Rightarrow> vm_attributes" where
  "with_cache_disabled v = \<lparr> va_bits = va_bits v OR push_bit 4 1 \<rparr>"

section \<open>Object types\<close>

datatype object_type = Untyped | TCB | Endpoint | Notification | CNode | PDPT | PML4 | HugePage
  | Frame4K | LargePage | PageTable | PageDirectory | IOPageTable

text \<open>\<^verbatim>\<open>obj_type as usize\<close>, the discriminants of the enumeration.\<close>

primrec object_type_word :: "object_type \<Rightarrow> usize" where
  "object_type_word Untyped = 0"
| "object_type_word TCB = 1"
| "object_type_word Endpoint = 2"
| "object_type_word Notification = 3"
| "object_type_word CNode = 4"
| "object_type_word PDPT = 5"
| "object_type_word PML4 = 6"
| "object_type_word HugePage = 7"
| "object_type_word Frame4K = 8"
| "object_type_word LargePage = 9"
| "object_type_word PageTable = 10"
| "object_type_word PageDirectory = 11"
| "object_type_word IOPageTable = 12"

primrec size_bits :: "object_type \<Rightarrow> usize" where
  "size_bits Untyped = 0"
| "size_bits TCB = 11"
| "size_bits Endpoint = 4"
| "size_bits Notification = 5"
| "size_bits CNode = 0"
| "size_bits PDPT = 12"
| "size_bits PML4 = 12"
| "size_bits HugePage = 30"
| "size_bits Frame4K = 12"
| "size_bits LargePage = 21"
| "size_bits PageTable = 12"
| "size_bits PageDirectory = 12"
| "size_bits IOPageTable = 12"

section \<open>UserContext\<close>

record user_context =
  rip :: u64
  rsp :: u64
  rflags :: u64
  rax :: u64
  rbx :: u64
  rcx :: u64
  rdx :: u64
  rsi :: u64
  rdi :: u64
  rbp :: u64
  r8 :: u64
  r9 :: u64
  r10 :: u64
  r11 :: u64
  r12 :: u64
  r13 :: u64
  r14 :: u64
  r15 :: u64
  fs_base :: u64
  gs_base :: u64

definition UserContext_default :: user_context where
  "UserContext_default =
     \<lparr> rip = 0, rsp = 0, rflags = 0x202, rax = 0, rbx = 0, rcx = 0, rdx = 0, rsi = 0, rdi = 0,
       rbp = 0, r8 = 0, r9 = 0, r10 = 0, r11 = 0, r12 = 0, r13 = 0, r14 = 0, r15 = 0,
       fs_base = 0, gs_base = 0 \<rparr>"

text \<open>
  The \<^verbatim>\<open>repr(C)\<close> layout: twenty words in declaration order. \<open>context_words\<close> reads them and
  \<open>context_of_words\<close> is the structure whose memory holds the given words.
\<close>

definition context_words :: "user_context \<Rightarrow> u64 list" where
  "context_words c =
     [rip c, rsp c, rflags c, rax c, rbx c, rcx c, rdx c, rsi c, rdi c, rbp c,
      r8 c, r9 c, r10 c, r11 c, r12 c, r13 c, r14 c, r15 c, fs_base c, gs_base c]"

definition context_of_words :: "u64 list \<Rightarrow> user_context" where
  "context_of_words ws =
     \<lparr> rip = ws ! 0, rsp = ws ! 1, rflags = ws ! 2, rax = ws ! 3, rbx = ws ! 4, rcx = ws ! 5,
       rdx = ws ! 6, rsi = ws ! 7, rdi = ws ! 8, rbp = ws ! 9, r8 = ws ! 10, r9 = ws ! 11,
       r10 = ws ! 12, r11 = ws ! 13, r12 = ws ! 14, r13 = ws ! 15, r14 = ws ! 16, r15 = ws ! 17,
       fs_base = ws ! 18, gs_base = ws ! 19 \<rparr>"

text \<open>The byte image (x86-64 is little-endian) and its view as words, the two pointer casts.\<close>

definition as_bytes :: "user_context \<Rightarrow> bytes" where
  "as_bytes c = concat (map (to_le 8) (context_words c))"

fun words_of_bytes :: "bytes \<Rightarrow> u64 list" where
  "words_of_bytes (b0 # b1 # b2 # b3 # b4 # b5 # b6 # b7 # bs) =
     from_le [b0, b1, b2, b3, b4, b5, b6, b7] # words_of_bytes bs"
| "words_of_bytes _ = []"

definition uc_ip :: "user_context \<Rightarrow> u64" where
  "uc_ip c = rip c"

definition uc_set_ip :: "u64 \<Rightarrow> user_context \<Rightarrow> user_context" where
  "uc_set_ip ip c = c\<lparr> rip := ip \<rparr>"

definition uc_sp :: "user_context \<Rightarrow> u64" where
  "uc_sp c = rsp c"

definition uc_set_sp :: "u64 \<Rightarrow> user_context \<Rightarrow> user_context" where
  "uc_set_sp sp c = c\<lparr> rsp := sp \<rparr>"

definition gpr :: "user_context \<Rightarrow> usize \<Rightarrow> u64" where
  "gpr c idx =
     (if idx = 0 then rdi c else if idx = 1 then rsi c else if idx = 2 then rdx c
      else if idx = 3 then r10 c else if idx = 4 then r8 c else if idx = 5 then r9 c else 0)"

definition set_gpr :: "user_context \<Rightarrow> usize \<Rightarrow> u64 \<Rightarrow> user_context" where
  "set_gpr c idx val =
     (if idx = 0 then c\<lparr>rdi := val\<rparr> else if idx = 1 then c\<lparr>rsi := val\<rparr>
      else if idx = 2 then c\<lparr>rdx := val\<rparr> else if idx = 3 then c\<lparr>r10 := val\<rparr>
      else if idx = 4 then c\<lparr>r8 := val\<rparr> else if idx = 5 then c\<lparr>r9 := val\<rparr> else c)"

section \<open>Faults and errors\<close>

datatype fault_type = NullFault | CapFault | UnknownSyscall | UserException | VmFault | Timeout

primrec fault_tag :: "fault_type \<Rightarrow> usize" where
  "fault_tag NullFault = 0"
| "fault_tag CapFault = 1"
| "fault_tag UnknownSyscall = 2"
| "fault_tag UserException = 3"
| "fault_tag VmFault = 4"
| "fault_tag Timeout = 5"

definition from_tag :: "usize \<Rightarrow> fault_type" where
  "from_tag tag =
     (if tag = 0 then NullFault else if tag = 1 then CapFault else if tag = 2 then UnknownSyscall
      else if tag = 3 then UserException else if tag = 4 then VmFault
      else if tag = 5 then Timeout else NullFault)"

datatype sel4_error = Success | InvalidArgument | InvalidCapability | IllegalOperation | RangeError
  | AlignmentError | FailedLookup | TruncatedMessage | DeleteFirst | RevokeFirst | NotEnoughMemory

primrec error_word :: "sel4_error \<Rightarrow> usize" where
  "error_word Success = 0"
| "error_word InvalidArgument = 1"
| "error_word InvalidCapability = 2"
| "error_word IllegalOperation = 3"
| "error_word RangeError = 4"
| "error_word AlignmentError = 5"
| "error_word FailedLookup = 6"
| "error_word TruncatedMessage = 7"
| "error_word DeleteFirst = 8"
| "error_word RevokeFirst = 9"
| "error_word NotEnoughMemory = 10"

definition error_from_word :: "usize \<Rightarrow> sel4_error" where
  "error_from_word w =
     (if w = 0 then Success else if w = 1 then InvalidArgument else if w = 2 then InvalidCapability
      else if w = 3 then IllegalOperation else if w = 4 then RangeError
      else if w = 5 then AlignmentError else if w = 6 then FailedLookup
      else if w = 7 then TruncatedMessage else if w = 8 then DeleteFirst
      else if w = 9 then RevokeFirst else if w = 10 then NotEnoughMemory else InvalidArgument)"

definition error_is_ok :: "sel4_error \<Rightarrow> bool" where
  "error_is_ok e \<longleftrightarrow> e = Success"

definition error_is_err :: "sel4_error \<Rightarrow> bool" where
  "error_is_err e \<longleftrightarrow> \<not> error_is_ok e"

primrec error_display :: "sel4_error \<Rightarrow> string" where
  "error_display Success = ''success''"
| "error_display InvalidArgument = ''invalid argument''"
| "error_display InvalidCapability = ''invalid capability''"
| "error_display IllegalOperation = ''illegal operation''"
| "error_display RangeError = ''range error''"
| "error_display AlignmentError = ''alignment error''"
| "error_display FailedLookup = ''failed lookup''"
| "error_display TruncatedMessage = ''truncated message''"
| "error_display DeleteFirst = ''delete first''"
| "error_display RevokeFirst = ''revoke first''"
| "error_display NotEnoughMemory = ''not enough memory''"

definition check :: "usize \<Rightarrow> sel4_error + unit" where
  "check raw = (if raw = 0 then Inr () else Inl (error_from_word raw))"

text \<open>\<^verbatim>\<open>assert_ok\<close> panics (\<open>None\<close>) on a non-zero code.\<close>

definition assert_ok :: "usize \<Rightarrow> unit option" where
  "assert_ok raw = (if raw \<noteq> 0 then None else Some ())"

section \<open>Well-known slots and buffer sizes\<close>

definition init_NULL :: usize where "init_NULL = 0"
definition init_TCB :: usize where "init_TCB = 1"
definition init_CNODE :: usize where "init_CNODE = 2"
definition init_VSPACE :: usize where "init_VSPACE = 3"
definition init_IRQ_CONTROL :: usize where "init_IRQ_CONTROL = 4"
definition init_ASID_CONTROL :: usize where "init_ASID_CONTROL = 5"
definition init_ASID_POOL :: usize where "init_ASID_POOL = 6"
definition init_IO_PORT_CONTROL :: usize where "init_IO_PORT_CONTROL = 7"
definition init_BOOT_INFO :: usize where "init_BOOT_INFO = 9"
definition init_IPC_BUFFER :: usize where "init_IPC_BUFFER = 10"
definition NUM_INITIAL_CAPS :: usize where "NUM_INITIAL_CAPS = 16"
definition FIRST_FREE :: usize where "FIRST_FREE = NUM_INITIAL_CAPS + 1"

definition IPC_BUFFER_MSG_REGS :: nat where "IPC_BUFFER_MSG_REGS = 120"
definition IPC_BUFFER_SIZE :: nat where "IPC_BUFFER_SIZE = 4096"
definition IPC_BUFFER_ALIGN :: nat where "IPC_BUFFER_ALIGN = 4096"

section \<open>Lemmas\<close>

text \<open>The bits of the masks of the packed words (word numerals are simplified to integers).\<close>

lemma bit_mask_consts:
  "bit (0x7F :: int) n \<longleftrightarrow> n < 7" "bit (0x1F :: int) n \<longleftrightarrow> n < 5"
  "bit (0x3F :: int) n \<longleftrightarrow> n < 6" "bit (0x7 :: int) n \<longleftrightarrow> n < 3"
proof -
  have m: "(0x7F :: int) = mask 7" "(0x1F :: int) = mask 5" "(0x3F :: int) = mask 6"
    "(0x7 :: int) = mask 3" by (simp_all add: mask_eq_exp_minus_1)
  show "bit (0x7F :: int) n \<longleftrightarrow> n < 7" "bit (0x1F :: int) n \<longleftrightarrow> n < 5"
    "bit (0x3F :: int) n \<longleftrightarrow> n < 6" "bit (0x7 :: int) n \<longleftrightarrow> n < 3"
    unfolding m by (auto simp: bit_mask_iff)
qed

text \<open>A byte below \<open>2 ^ k\<close> has no bit at \<open>k\<close> or above.\<close>

lemma bit_bounded:
  assumes "w < 2 ^ k" and "k \<le> n"
  shows "\<not> bit (w :: 'a::len word) n"
proof (cases "n < LENGTH('a)")
  case True
  with assms have "uint w < 2 ^ k" by (simp add: word_2p_lem word_size)
  also have "\<dots> \<le> 2 ^ n" using assms(2) by simp
  finally have "\<not> bit (uint w) n" by (simp add: bit_iff_odd)
  then show ?thesis by (simp add: bit_unsigned_iff)
qed (use bit_imp_le_length in auto)

lemma concat_to_le_words: "words_of_bytes (concat (map (to_le 8) ws)) = ws"
proof (induction ws)
  case (Cons w ws)
  have 8: "to_le 8 w = [ucast w, ucast (drop_bit 8 w), ucast (drop_bit 16 w), ucast (drop_bit 24 w),
      ucast (drop_bit 32 w), ucast (drop_bit 40 w), ucast (drop_bit 48 w), ucast (drop_bit 56 w)]"
    by (simp add: to_le_def upt_rec)
  have "words_of_bytes (to_le 8 w @ concat (map (to_le 8) ws)) = from_le (to_le 8 w) # words_of_bytes (concat (map (to_le 8) ws))"
    unfolding 8 by simp
  also have "from_le (to_le 8 w) = w" by (rule from_le_to_le) simp
  finally show ?case using Cons by simp
qed simp

lemma length_context_words [simp]: "length (context_words c) = 20"
  by (simp add: context_words_def)

lemma words_of_as_bytes [simp]: "words_of_bytes (as_bytes c) = context_words c"
  by (simp add: as_bytes_def concat_to_le_words)

lemma length_concat_to_le: "length (concat (map (to_le n) ws)) = n * length ws"
  by (induction ws) simp_all

lemma length_as_bytes: "length (as_bytes c) = 160"
  by (simp add: as_bytes_def length_concat_to_le)

lemma context_of_context_words [simp]: "context_of_words (context_words c) = c"
  by (simp add: context_words_def context_of_words_def)

lemma context_words_of_words: "length ws = 20 \<Longrightarrow> context_words (context_of_words ws) = ws"
  by (auto simp: context_words_def context_of_words_def intro!: nth_equalityI simp: less_Suc_eq numeral_eq_Suc)

lemma error_from_word_error_word [simp]: "error_from_word (error_word e) = e"
  by (cases e) (simp_all add: error_from_word_def)

lemma check_Inr_iff [simp]: "check raw = Inr u \<longleftrightarrow> raw = 0"
  by (simp add: check_def)

text \<open>
  A \<^verbatim>\<open>MessageInfo\<close> built from a label, a length below 128 and a capability count below 32 gives
  each of the three fields back.
\<close>

lemma message_info_roundtrip:
  assumes "n < 128" and "e < 32"
  shows "mi_label (mi_new l n e) = l \<and> mi_length (mi_new l n e) = n \<and> mi_extra_caps (mi_new l n e) = e"
proof -
  have n: "\<not> bit n k" if "7 \<le> k" for k using bit_bounded [of n 7] assms(1) that by simp
  have e: "\<not> bit e k" if "5 \<le> k" for k using bit_bounded [of e 5] assms(2) that by simp
  have lt: "bit n k \<Longrightarrow> k < 7" "bit e k \<Longrightarrow> k < 5" for k
    using n [of k] e [of k] by (auto simp: not_le [symmetric])
  have "mi_label (mi_new l n e) = l"
    by (rule bit_word_eqI) (auto simp: mi_label_def mi_new_def bit_simps n e)
  moreover have "mi_length (mi_new l n e) = n"
    by (rule bit_word_eqI) (auto simp: mi_length_def mi_new_def bit_simps bit_mask_consts n e dest: lt)
  moreover have "mi_extra_caps (mi_new l n e) = e"
    by (rule bit_word_eqI) (auto simp: mi_extra_caps_def mi_new_def bit_simps bit_mask_consts n e dest: lt)
  ultimately show ?thesis by blast
qed

end
