(* ===== verification/Ipc_Buffer.thy ===== *)
theory Ipc_Buffer
  imports Sel4_Types
begin

text \<open>
  The IPC buffer page of \<^verbatim>\<open>crates/sel4-sys/src/ipc_buffer.rs\<close>: 120 message registers with bounded
  accessors, the capability-receive fields, and the transfer of a register file through the message
  registers. The type invariant is that \<^verbatim>\<open>msg\<close> keeps its array length.
\<close>

record ipc_buffer =
  ib_tag :: usize
  msg :: "usize list"
  user_data :: usize
  caps_or_badges :: "usize list"
  receive_cnode :: usize
  receive_index :: usize
  receive_depth :: usize

definition ipc_buffer_new :: ipc_buffer where
  "ipc_buffer_new =
     \<lparr> ib_tag = 0, msg = replicate IPC_BUFFER_MSG_REGS 0, user_data = 0,
       caps_or_badges = replicate 3 0, receive_cnode = 0, receive_index = 0, receive_depth = 0 \<rparr>"

text \<open>The array types \<^verbatim>\<open>[usize; 120]\<close> and \<^verbatim>\<open>[usize; 3]\<close>.\<close>

definition ipc_buffer_ok :: "ipc_buffer \<Rightarrow> bool" where
  "ipc_buffer_ok b \<longleftrightarrow> length (msg b) = IPC_BUFFER_MSG_REGS \<and> length (caps_or_badges b) = 3"

definition set_receive_slot :: "ipc_buffer \<Rightarrow> usize \<Rightarrow> usize \<Rightarrow> usize \<Rightarrow> ipc_buffer" where
  "set_receive_slot b cnode ind depth =
     b\<lparr> receive_cnode := cnode, receive_index := ind, receive_depth := depth \<rparr>"

definition read_mr :: "ipc_buffer \<Rightarrow> usize \<Rightarrow> usize" where
  "read_mr b idx = (if unat idx < IPC_BUFFER_MSG_REGS then msg b ! unat idx else 0)"

definition write_mr :: "ipc_buffer \<Rightarrow> usize \<Rightarrow> usize \<Rightarrow> ipc_buffer" where
  "write_mr b idx val =
     (if unat idx < IPC_BUFFER_MSG_REGS then b\<lparr> msg := (msg b)[unat idx := val] \<rparr> else b)"

text \<open>
  \<^verbatim>\<open>for (i, &w) in words.iter().enumerate()\<close> with its bound test, the loop that \<^verbatim>\<open>write_words\<close> and
  \<^verbatim>\<open>write_user_context\<close> share.
\<close>

fun write_words_from :: "nat \<Rightarrow> usize list \<Rightarrow> ipc_buffer \<Rightarrow> ipc_buffer" where
  "write_words_from i [] b = b"
| "write_words_from i (w # ws) b =
     write_words_from (Suc i) ws
       (if i < IPC_BUFFER_MSG_REGS then b\<lparr> msg := (msg b)[i := w] \<rparr> else b)"

definition write_words :: "ipc_buffer \<Rightarrow> usize list \<Rightarrow> ipc_buffer" where
  "write_words b words = write_words_from 0 words b"

definition read_words :: "ipc_buffer \<Rightarrow> usize \<Rightarrow> usize list" where
  "read_words b count = take (min (unat count) IPC_BUFFER_MSG_REGS) (msg b)"

definition write_user_context :: "ipc_buffer \<Rightarrow> user_context \<Rightarrow> ipc_buffer" where
  "write_user_context b ctx = write_words_from 0 (words_of_bytes (as_bytes ctx)) b"

text \<open>
  \<^verbatim>\<open>read_user_context\<close> overwrites the words of a default context one by one with \<^verbatim>\<open>msg[i]\<close>.
\<close>

definition read_user_context :: "ipc_buffer \<Rightarrow> user_context" where
  "read_user_context b =
     context_of_words
       (map (\<lambda>(i, w). if i < IPC_BUFFER_MSG_REGS then msg b ! i else w)
         (enumerate 0 (words_of_bytes (as_bytes UserContext_default))))"

text \<open>
  \<^verbatim>\<open>crates/common/src/ipcrw.rs\<close>: a value of any type, as its bytes, at a byte offset of the message registers. The
  accesses are unchecked; one that leaves the registers is undefined behaviour and has no result here.
\<close>

definition msg_bytes :: "ipc_buffer \<Rightarrow> bytes" where
  "msg_bytes b = concat (map (to_le 8) (msg b))"

definition read_from_ipc :: "ipc_buffer \<Rightarrow> nat \<Rightarrow> nat \<Rightarrow> bytes option" where
  "read_from_ipc b byte_offset n = sub_slice (msg_bytes b) byte_offset (byte_offset + n)"

definition write_to_ipc :: "ipc_buffer \<Rightarrow> nat \<Rightarrow> bytes \<Rightarrow> ipc_buffer option" where
  "write_to_ipc b byte_offset val =
     (if byte_offset + length val \<le> length (msg_bytes b)
      then Some (b\<lparr> msg := words_of_bytes (copy_slice (msg_bytes b) byte_offset val) \<rparr>) else None)"

section \<open>Lemmas\<close>

lemma list_of_8: "length xs = 8 \<Longrightarrow> \<exists>b0 b1 b2 b3 b4 b5 b6 b7. xs = [b0, b1, b2, b3, b4, b5, b6, b7]"
  by (auto simp: length_Suc_conv numeral_eq_Suc)

lemma concat_words_of_bytes: "length bs = 8 * n \<Longrightarrow> concat (map (to_le 8) (words_of_bytes bs)) = bs"
proof (induction n arbitrary: bs)
  case (Suc n)
  let ?h = "take 8 bs" and ?t = "drop 8 bs"
  have "length ?h = 8" using Suc.prems by simp
  then obtain b0 b1 b2 b3 b4 b5 b6 b7 where h: "?h = [b0, b1, b2, b3, b4, b5, b6, b7]"
    by (metis (no_types, opaque_lifting) list_of_8)
  have "words_of_bytes (?h @ ?t) = from_le ?h # words_of_bytes ?t" unfolding h by simp
  moreover have "to_le 8 (from_le ?h :: u64) = ?h" using to_le_from_le [of ?h, where 'a = 64] \<open>length ?h = 8\<close> by simp
  moreover have "concat (map (to_le 8) (words_of_bytes ?t)) = ?t" using Suc by simp
  ultimately have "concat (map (to_le 8) (words_of_bytes (?h @ ?t))) = ?h @ ?t" by simp
  then show ?case by simp
qed simp

text \<open>A value written at an offset inside the registers is read back there, and the rest of the registers is kept.\<close>

lemma ipc_value_roundtrip:
  assumes "off + length val \<le> 8 * length (msg b)"
  obtains b' where "write_to_ipc b off val = Some b'" and "length (msg b') = length (msg b)" and "read_from_ipc b' off (length val) = Some val"
    and "\<And>o2 n. o2 + n \<le> off \<or> off + length val \<le> o2 \<Longrightarrow> read_from_ipc b' o2 n = read_from_ipc b o2 n"
proof -
  have len: "length (msg_bytes b) = 8 * length (msg b)" by (simp add: msg_bytes_def length_concat_to_le)
  let ?b' = "b\<lparr> msg := words_of_bytes (copy_slice (msg_bytes b) off val) \<rparr>"
  have b': "msg_bytes ?b' = copy_slice (msg_bytes b) off val"
    using concat_words_of_bytes [of "copy_slice (msg_bytes b) off val" "length (msg b)"] assms len by (simp add: msg_bytes_def)
  have "8 * length (msg ?b') = length (msg_bytes ?b')" by (simp only: msg_bytes_def length_concat_to_le)
  then have "length (msg ?b') = length (msg b)" using b' len assms by simp
  with b' show thesis
    using that [of ?b'] assms len by (simp add: write_to_ipc_def read_from_ipc_def sub_slice_copy_same sub_slice_copy_other)
qed

lemma IPC_BUFFER_MSG_REGS_simp [simp]: "IPC_BUFFER_MSG_REGS = 120"
  by (simp add: IPC_BUFFER_MSG_REGS_def)

lemma ipc_buffer_new_ok [simp]: "ipc_buffer_ok ipc_buffer_new"
  by (simp add: ipc_buffer_ok_def ipc_buffer_new_def)

lemma write_mr_ok [simp]: "ipc_buffer_ok b \<Longrightarrow> ipc_buffer_ok (write_mr b i v)"
  by (simp add: ipc_buffer_ok_def write_mr_def)

lemma set_receive_slot_ok [simp]: "ipc_buffer_ok (set_receive_slot b c i d) = ipc_buffer_ok b"
  by (simp add: ipc_buffer_ok_def set_receive_slot_def)

lemma write_words_from_msg:
  "length (msg b) = 120 \<Longrightarrow>
   msg (write_words_from i ws b) = map (\<lambda>k. if i \<le> k \<and> k < i + length ws then ws ! (k - i) else msg b ! k) [0..<120]"
proof (induction i ws b rule: write_words_from.induct)
  case (1 i b)
  then show ?case by (auto intro!: nth_equalityI)
next
  case (2 i w ws b)
  let ?b = "if i < IPC_BUFFER_MSG_REGS then b\<lparr> msg := (msg b)[i := w] \<rparr> else b"
  have "length (msg ?b) = 120" using 2(2) by simp
  note IH = 2(1) [OF this]
  have "(if Suc i \<le> k \<and> k < Suc i + length ws then ws ! (k - Suc i) else msg ?b ! k) =
        (if i \<le> k \<and> k < i + length (w # ws) then (w # ws) ! (k - i) else msg b ! k)" if "k < 120" for k
    using that 2(2) by (auto simp: nth_list_update nth_Cons' not_less_eq_eq Suc_le_eq le_less)
  then have "map (\<lambda>k. if Suc i \<le> k \<and> k < Suc i + length ws then ws ! (k - Suc i) else msg ?b ! k) [0..<120] =
    map (\<lambda>k. if i \<le> k \<and> k < i + length (w # ws) then (w # ws) ! (k - i) else msg b ! k) [0..<120]"
    by (intro map_cong refl) simp
  with IH show ?case by simp
qed

lemma write_words_from_frame [frame_simps]:
  "ib_tag (write_words_from i ws b) = ib_tag b"
  "user_data (write_words_from i ws b) = user_data b"
  "caps_or_badges (write_words_from i ws b) = caps_or_badges b"
  "receive_cnode (write_words_from i ws b) = receive_cnode b"
  "receive_index (write_words_from i ws b) = receive_index b"
  "receive_depth (write_words_from i ws b) = receive_depth b"
  by (induction i ws b rule: write_words_from.induct) simp_all

lemma write_words_from_ok [simp]: "ipc_buffer_ok b \<Longrightarrow> ipc_buffer_ok (write_words_from i ws b)"
  by (simp add: ipc_buffer_ok_def write_words_from_msg frame_simps)

lemma read_mr_write_mr:
  assumes "ipc_buffer_ok b"
  shows "read_mr (write_mr b i v) j = (if j = i \<and> unat i < 120 then v else read_mr b j)"
  using assms by (auto simp: read_mr_def write_mr_def ipc_buffer_ok_def nth_list_update word_unat_eq_iff)

lemma read_user_context_msg:
  "read_user_context b = context_of_words (map (\<lambda>i. msg b ! i) [0..<20])"
proof -
  have "length ws = 20 \<Longrightarrow> map (\<lambda>(i, w). if i < 120 then msg b ! i else w) (enumerate 0 ws) = map ((!) (msg b)) [0..<20]"
    for ws :: "u64 list"
    by (rule nth_equalityI) (simp_all add: nth_enumerate_eq)
  from this [of "context_words UserContext_default"] show ?thesis
    by (simp add: read_user_context_def)
qed

lemma msg_write_user_context:
  assumes "ipc_buffer_ok b"
  shows "msg (write_user_context b ctx) = context_words ctx @ drop 20 (msg b)"
  using assms by (auto simp: write_user_context_def write_words_from_msg ipc_buffer_ok_def nth_append intro!: nth_equalityI)

text \<open>
  A register file written into the IPC buffer with \<^verbatim>\<open>write_user_context\<close> is read back by
  \<^verbatim>\<open>read_user_context\<close>, whatever the buffer held before; the message registers past the twentieth and
  the capability-receive slot are left alone.
\<close>

lemma user_context_ipc_roundtrip:
  assumes "ipc_buffer_ok b"
  shows "read_user_context (write_user_context b ctx) = ctx \<and>
    drop 20 (msg (write_user_context b ctx)) = drop 20 (msg b) \<and>
    receive_index (write_user_context b ctx) = receive_index b \<and>
    ipc_buffer_ok (write_user_context b ctx)"
proof -
  have len: "length (msg b) = 120" using assms by (simp add: ipc_buffer_ok_def)
  have "map ((!) (context_words ctx @ drop 20 (msg b))) [0..<20] = context_words ctx"
    by (rule nth_equalityI) (simp_all add: nth_append)
  then have "read_user_context (write_user_context b ctx) = ctx"
    using assms by (simp add: read_user_context_msg msg_write_user_context)
  moreover have "drop 20 (msg (write_user_context b ctx)) = drop 20 (msg b)"
    using assms by (simp add: msg_write_user_context)
  ultimately show ?thesis
    using assms by (simp add: write_user_context_def frame_simps)
qed

end
