(* ===== verification/Sel4_Syscalls.thy ===== *)
theory Sel4_Syscalls
  imports Ipc_Buffer
begin

text \<open>
  The system call wrappers of \<^verbatim>\<open>crates/sel4-sys/src/lib.rs\<close> and \<^verbatim>\<open>syscalls.rs\<close>.

  The kernel is outside the repository. It is the parameter \<open>kern\<close> of every wrapper: a function
  from the CPU registers at the \<^verbatim>\<open>syscall\<close> instruction, the IPC buffer page and the rest of the
  world to the registers, the page and the world when the instruction returns. A wrapper loads the
  registers its \<^verbatim>\<open>in(...)\<close> operands name and leaves the others at whatever they held, so a
  theorem that holds for every \<open>cpu\<close> component does not depend on stale registers. The page is
  the one \<^verbatim>\<open>IPC_BUFFER_PTR\<close> points to; \<open>ipc_set\<close> says that \<^verbatim>\<open>set_ipc_buffer\<close> has run, and
  using the page before that is the \<open>None\<close> of a panic (\<^verbatim>\<open>with_ipc_buffer\<close>) or of a write to an
  address near zero (the raw-pointer writes).
\<close>

record cpu_regs =
  c_rax :: usize
  c_rdx :: usize
  c_rdi :: usize
  c_rsi :: usize
  c_r10 :: usize
  c_r8 :: usize
  c_r9 :: usize
  c_r12 :: usize
  c_r13 :: usize
  c_r15 :: usize

type_synonym 'k kernel = "cpu_regs \<Rightarrow> ipc_buffer \<Rightarrow> 'k \<Rightarrow> cpu_regs \<times> ipc_buffer \<times> 'k"

record 'k machine =
  ipc_set :: bool
  ipc_buf :: ipc_buffer
  cpu :: cpu_regs
  world :: 'k

section \<open>The IPC buffer pointer\<close>

definition set_ipc_buffer :: "ipc_buffer \<Rightarrow> 'k machine \<Rightarrow> 'k machine" where
  "set_ipc_buffer buf m = m\<lparr> ipc_set := True, ipc_buf := buf \<rparr>"

definition with_ipc_buffer :: "(ipc_buffer \<Rightarrow> 'r \<times> ipc_buffer) \<Rightarrow> 'k machine \<Rightarrow> ('r \<times> 'k machine) option" where
  "with_ipc_buffer f m =
     (if ipc_set m then (let (r, b) = f (ipc_buf m) in Some (r, m\<lparr> ipc_buf := b \<rparr>)) else None)"

section \<open>System call numbers\<close>

definition SYS_CALL :: isize where "SYS_CALL = - 1"
definition SYS_REPLY_RECV :: isize where "SYS_REPLY_RECV = - 2"
definition SYS_SEND :: isize where "SYS_SEND = - 3"
definition SYS_NBSEND :: isize where "SYS_NBSEND = - 4"
definition SYS_RECV :: isize where "SYS_RECV = - 5"
definition SYS_REPLY :: isize where "SYS_REPLY = - 6"
definition SYS_YIELD :: isize where "SYS_YIELD = - 7"
definition SYS_NBRECV :: isize where "SYS_NBRECV = - 8"
definition SYS_DEBUG_PUT_CHAR :: isize where "SYS_DEBUG_PUT_CHAR = - 9"
definition SYS_DEBUG_DUMP_SCHEDULER :: isize where "SYS_DEBUG_DUMP_SCHEDULER = - 10"
definition SYS_DEBUG_HALT :: isize where "SYS_DEBUG_HALT = - 11"
definition SYS_SIGNAL :: isize where "SYS_SIGNAL = - 12"
definition SYS_SET_TLS_BASE :: isize where "SYS_SET_TLS_BASE = - 29"

section \<open>The syscall instruction\<close>

text \<open>\<open>load\<close> puts the \<^verbatim>\<open>in\<close> operands in their registers.\<close>

definition syscall_insn :: "'k kernel \<Rightarrow> (cpu_regs \<Rightarrow> cpu_regs) \<Rightarrow> 'k machine \<Rightarrow> 'k machine" where
  "syscall_insn kern load m =
     (let (c, b, k) = kern (load (cpu m)) (ipc_buf m) (world m)
      in m\<lparr> cpu := c, ipc_buf := b, world := k \<rparr>)"

type_synonym sys_out = "usize \<times> usize \<times> usize \<times> usize \<times> usize \<times> usize \<times> usize \<times> usize \<times> usize"

definition seL4_syscall ::
  "'k kernel \<Rightarrow> isize \<Rightarrow> usize \<Rightarrow> usize \<Rightarrow> usize \<Rightarrow> usize \<Rightarrow> usize \<Rightarrow> usize \<Rightarrow> usize \<Rightarrow> usize \<Rightarrow> 'k machine \<Rightarrow> sys_out \<times> 'k machine" where
  "seL4_syscall kern sys arg0 arg1 arg2 arg3 arg4 arg5 arg6 arg7 m =
     (let m' = syscall_insn kern
                 (\<lambda>c. c\<lparr> c_rdx := sys, c_rdi := arg0, c_rsi := arg1, c_r10 := arg2, c_r8 := arg3,
                         c_r9 := arg4, c_r12 := arg5, c_r13 := arg6, c_r15 := arg7 \<rparr>) m;
          c = cpu m'
      in ((0, c_rsi c, c_rdi c, c_r10 c, c_r8 c, c_r9 c, c_r15 c, 0, 0), m'))"

text \<open>A raw write of \<^verbatim>\<open>msg[i]\<close> or \<^verbatim>\<open>caps_or_badges[i]\<close> through the buffer address.\<close>

definition poke_msg :: "nat \<Rightarrow> usize \<Rightarrow> ipc_buffer \<Rightarrow> ipc_buffer" where
  "poke_msg i v b = b\<lparr> msg := (msg b)[i := v] \<rparr>"

definition poke_cap :: "nat \<Rightarrow> usize \<Rightarrow> ipc_buffer \<Rightarrow> ipc_buffer" where
  "poke_cap i v b = b\<lparr> caps_or_badges := (caps_or_badges b)[i := v] \<rparr>"

definition seL4_syscall_with_buf ::
  "'k kernel \<Rightarrow> isize \<Rightarrow> usize \<Rightarrow> usize \<Rightarrow> usize \<Rightarrow> usize \<Rightarrow> usize \<Rightarrow> usize \<Rightarrow> usize \<Rightarrow> usize \<Rightarrow>
   usize \<Rightarrow> usize \<Rightarrow> usize \<Rightarrow> usize \<Rightarrow> usize \<Rightarrow> usize \<Rightarrow> 'k machine \<Rightarrow> (sys_out \<times> 'k machine) option" where
  "seL4_syscall_with_buf kern sys arg0 arg1 arg2 arg3 arg4 arg5 arg6 arg7 mr4 mr5 mr6 mr7 mr8 mr9 m =
     (if ipc_set m then
        let b = poke_msg 9 mr9 (poke_msg 8 mr8 (poke_msg 7 mr7 (poke_msg 6 mr6 (poke_msg 5 mr5
                  (poke_msg 4 mr4 (ipc_buf m))))))
        in Some (seL4_syscall kern sys arg0 arg1 arg2 arg3 arg4 arg5 arg6 arg7 (m\<lparr> ipc_buf := b \<rparr>))
      else None)"

definition seL4_syscall_with_caps ::
  "'k kernel \<Rightarrow> isize \<Rightarrow> usize \<Rightarrow> usize \<Rightarrow> usize \<Rightarrow> usize \<Rightarrow> usize \<Rightarrow> usize \<Rightarrow> usize \<Rightarrow> usize \<Rightarrow>
   usize \<Rightarrow> usize \<Rightarrow> usize \<Rightarrow> usize \<Rightarrow> usize \<Rightarrow> usize \<Rightarrow> nat \<Rightarrow> usize \<Rightarrow> usize \<Rightarrow> usize \<Rightarrow> 'k machine \<Rightarrow>
   (sys_out \<times> 'k machine) option" where
  "seL4_syscall_with_caps kern sys arg0 arg1 arg2 arg3 arg4 arg5 arg6 arg7 mr4 mr5 mr6 mr7 mr8 mr9
     num_caps cap0 cap1 cap2 m =
     (if ipc_set m then
        let b0 = ipc_buf m;
            b1 = (if num_caps \<ge> 1 then poke_cap 0 cap0 b0 else b0);
            b2 = (if num_caps \<ge> 2 then poke_cap 1 cap1 b1 else b1);
            b3 = (if num_caps \<ge> 3 then poke_cap 2 cap2 b2 else b2);
            b = poke_msg 9 mr9 (poke_msg 8 mr8 (poke_msg 7 mr7 (poke_msg 6 mr6 (poke_msg 5 mr5
                  (poke_msg 4 mr4 b3)))))
        in Some (seL4_syscall kern sys arg0 arg1 arg2 arg3 arg4 arg5 arg6 arg7 (m\<lparr> ipc_buf := b \<rparr>))
      else None)"

definition sys_null :: "'k kernel \<Rightarrow> isize \<Rightarrow> 'k machine \<Rightarrow> 'k machine" where
  "sys_null kern sys m = syscall_insn kern (\<lambda>c. c\<lparr> c_rdx := sys \<rparr>) m"

definition sys_send1 :: "'k kernel \<Rightarrow> isize \<Rightarrow> usize \<Rightarrow> 'k machine \<Rightarrow> (usize \<times> usize) \<times> 'k machine" where
  "sys_send1 kern sys a0 m =
     (let m' = syscall_insn kern (\<lambda>c. c\<lparr> c_rdx := sys, c_rdi := a0 \<rparr>) m
      in ((c_rax (cpu m'), c_rdi (cpu m')), m'))"

definition sys_send2 ::
  "'k kernel \<Rightarrow> isize \<Rightarrow> usize \<Rightarrow> usize \<Rightarrow> 'k machine \<Rightarrow> (usize \<times> usize \<times> usize) \<times> 'k machine" where
  "sys_send2 kern sys a0 a1 m =
     (let m' = syscall_insn kern (\<lambda>c. c\<lparr> c_rdx := sys, c_rdi := a0, c_rsi := a1 \<rparr>) m
      in ((c_rax (cpu m'), c_rdi (cpu m'), c_rsi (cpu m')), m'))"

definition sys_send3 ::
  "'k kernel \<Rightarrow> isize \<Rightarrow> usize \<Rightarrow> usize \<Rightarrow> usize \<Rightarrow> 'k machine \<Rightarrow> (usize \<times> usize \<times> usize \<times> usize) \<times> 'k machine" where
  "sys_send3 kern sys a0 a1 a2 m =
     (let m' = syscall_insn kern (\<lambda>c. c\<lparr> c_rdx := sys, c_rdi := a0, c_rsi := a1, c_r10 := a2 \<rparr>) m;
          c = cpu m'
      in ((c_rax c, c_rdi c, c_rsi c, c_r10 c), m'))"

definition sys_send4 ::
  "'k kernel \<Rightarrow> isize \<Rightarrow> usize \<Rightarrow> usize \<Rightarrow> usize \<Rightarrow> usize \<Rightarrow> 'k machine \<Rightarrow>
   (usize \<times> usize \<times> usize \<times> usize \<times> usize) \<times> 'k machine" where
  "sys_send4 kern sys a0 a1 a2 a3 m =
     (let m' = syscall_insn kern
                 (\<lambda>c. c\<lparr> c_rdx := sys, c_rdi := a0, c_rsi := a1, c_r10 := a2, c_r8 := a3 \<rparr>) m;
          c = cpu m'
      in ((c_rax c, c_rdi c, c_rsi c, c_r10 c, c_r8 c), m'))"

definition sys_send5 ::
  "'k kernel \<Rightarrow> isize \<Rightarrow> usize \<Rightarrow> usize \<Rightarrow> usize \<Rightarrow> usize \<Rightarrow> usize \<Rightarrow> 'k machine \<Rightarrow>
   (usize \<times> usize \<times> usize \<times> usize \<times> usize \<times> usize) \<times> 'k machine" where
  "sys_send5 kern sys a0 a1 a2 a3 a4 m =
     (let m' = syscall_insn kern
                 (\<lambda>c. c\<lparr> c_rdx := sys, c_rdi := a0, c_rsi := a1, c_r10 := a2, c_r8 := a3, c_r9 := a4 \<rparr>) m;
          c = cpu m'
      in ((c_rax c, c_rdi c, c_rsi c, c_r10 c, c_r8 c, c_r9 c), m'))"

definition sys_send6 ::
  "'k kernel \<Rightarrow> isize \<Rightarrow> usize \<Rightarrow> usize \<Rightarrow> usize \<Rightarrow> usize \<Rightarrow> usize \<Rightarrow> usize \<Rightarrow> 'k machine \<Rightarrow>
   (usize \<times> usize \<times> usize \<times> usize \<times> usize \<times> usize \<times> usize) \<times> 'k machine" where
  "sys_send6 kern sys a0 a1 a2 a3 a4 a5 m =
     (let m' = syscall_insn kern
                 (\<lambda>c. c\<lparr> c_rdx := sys, c_rdi := a0, c_rsi := a1, c_r10 := a2, c_r8 := a3, c_r9 := a4,
                         c_r12 := a5 \<rparr>) m;
          c = cpu m'
      in ((c_rax c, c_rdi c, c_rsi c, c_r10 c, c_r8 c, c_r9 c, c_r12 c), m'))"

section \<open>IPC system calls\<close>

definition seL4_Send :: "'k kernel \<Rightarrow> usize \<Rightarrow> usize \<Rightarrow> 'k machine \<Rightarrow> (usize \<times> usize) \<times> 'k machine" where
  "seL4_Send kern dest info m =
     (let ((_, tag, badge), m') = sys_send2 kern SYS_SEND dest info m in ((tag, badge), m'))"

definition seL4_NBSend :: "'k kernel \<Rightarrow> usize \<Rightarrow> usize \<Rightarrow> 'k machine \<Rightarrow> (usize \<times> usize) \<times> 'k machine" where
  "seL4_NBSend kern dest info m =
     (let ((_, tag, badge), m') = sys_send2 kern SYS_NBSEND dest info m in ((tag, badge), m'))"

definition seL4_Call :: "'k kernel \<Rightarrow> usize \<Rightarrow> usize \<Rightarrow> 'k machine \<Rightarrow> (usize \<times> usize) \<times> 'k machine" where
  "seL4_Call kern dest info m =
     (let ((_, tag, _), m') = sys_send2 kern SYS_CALL dest info m in ((drop_bit 12 tag, tag), m'))"

definition seL4_Reply :: "'k kernel \<Rightarrow> usize \<Rightarrow> 'k machine \<Rightarrow> 'k machine" where
  "seL4_Reply kern info m = snd (sys_send1 kern SYS_REPLY info m)"

definition seL4_Recv :: "'k kernel \<Rightarrow> usize \<Rightarrow> 'k machine \<Rightarrow> ((usize \<times> usize) \<times> 'k machine) option" where
  "seL4_Recv kern src m =
     (let m' = syscall_insn kern (\<lambda>c. c\<lparr> c_rdx := SYS_RECV, c_rdi := src, c_rsi := 0 \<rparr>) m;
          c = cpu m'
      in do {
        (_, m'') \<leftarrow> with_ipc_buffer
          (\<lambda>ib. ((), write_mr (write_mr (write_mr (write_mr ib 0 (c_r10 c)) 1 (c_r8 c)) 2 (c_r9 c)) 3 (c_r15 c))) m';
        Some ((c_rsi c, c_rdi c), m'')
      })"

definition seL4_NBRecv :: "'k kernel \<Rightarrow> usize \<Rightarrow> 'k machine \<Rightarrow> (usize \<times> usize) \<times> 'k machine" where
  "seL4_NBRecv kern src m =
     (let ((tag, badge, _), m') = sys_send2 kern SYS_NBRECV src 0 m in ((tag, badge), m'))"

definition seL4_ReplyRecv ::
  "'k kernel \<Rightarrow> usize \<Rightarrow> usize \<Rightarrow> usize \<Rightarrow> 'k machine \<Rightarrow> (usize \<times> usize) \<times> 'k machine" where
  "seL4_ReplyRecv kern dest info src m =
     (let m' = syscall_insn kern
                 (\<lambda>c. c\<lparr> c_rdx := SYS_REPLY_RECV, c_rdi := dest, c_rsi := info, c_r10 := src \<rparr>) m
      in ((c_rdi (cpu m'), c_rsi (cpu m')), m'))"

definition seL4_Yield :: "'k kernel \<Rightarrow> 'k machine \<Rightarrow> 'k machine" where
  "seL4_Yield kern m = sys_null kern SYS_YIELD m"

definition seL4_Signal :: "'k kernel \<Rightarrow> usize \<Rightarrow> 'k machine \<Rightarrow> 'k machine" where
  "seL4_Signal kern dest m = snd (sys_send1 kern SYS_SIGNAL dest m)"

definition seL4_Wait :: "'k kernel \<Rightarrow> usize \<Rightarrow> 'k machine \<Rightarrow> usize \<times> 'k machine" where
  "seL4_Wait kern src m = (let ((badge, _), m') = sys_send1 kern SYS_RECV src m in (badge, m'))"

definition seL4_DebugPutChar :: "'k kernel \<Rightarrow> u8 \<Rightarrow> 'k machine \<Rightarrow> 'k machine" where
  "seL4_DebugPutChar kern c m =
     syscall_insn kern (\<lambda>r. r\<lparr> c_rdx := SYS_DEBUG_PUT_CHAR, c_rdi := ucast c \<rparr>) m"

definition seL4_DebugPutString :: "'k kernel \<Rightarrow> bytes \<Rightarrow> 'k machine \<Rightarrow> 'k machine" where
  "seL4_DebugPutString kern s m = fold (seL4_DebugPutChar kern) s m"

definition seL4_DebugDumpScheduler :: "'k kernel \<Rightarrow> 'k machine \<Rightarrow> 'k machine" where
  "seL4_DebugDumpScheduler kern m = sys_null kern SYS_DEBUG_DUMP_SCHEDULER m"

definition seL4_DebugHalt :: "'k kernel \<Rightarrow> 'k machine \<Rightarrow> 'k machine" where
  "seL4_DebugHalt kern m = sys_null kern SYS_DEBUG_HALT m"

definition seL4_SetTLSBase :: "'k kernel \<Rightarrow> usize \<Rightarrow> 'k machine \<Rightarrow> (usize \<times> usize) \<times> 'k machine" where
  "seL4_SetTLSBase kern addr m =
     (let ((status, badge, _), m') = sys_send2 kern SYS_SET_TLS_BASE addr 0 m in ((status, badge), m'))"

section \<open>Capability invocations\<close>

text \<open>\<^verbatim>\<open>if total_mrs > i { mrs[i] } else { 0 }\<close>\<close>

definition mr_or_0 :: "usize list \<Rightarrow> nat \<Rightarrow> usize" where
  "mr_or_0 mrs i = (if length mrs > i then mrs ! i else 0)"

definition cap_invoke :: "'k kernel \<Rightarrow> usize \<Rightarrow> u32 \<Rightarrow> usize list \<Rightarrow> 'k machine \<Rightarrow> (usize \<times> 'k machine) option" where
  "cap_invoke kern dest label mrs m =
     (let total_mrs = length mrs;
          info = push_bit 12 (ucast label) OR of_nat total_mrs;
          b = fold (\<lambda>i. poke_msg i (mrs ! i)) [10..<min total_mrs 120] (ipc_buf m)
      in if ipc_set m then do {
        ((_, tag, _), m') \<leftarrow> seL4_syscall_with_buf kern SYS_CALL dest info
          (mr_or_0 mrs 0) (mr_or_0 mrs 1) (mr_or_0 mrs 2) 0 0 (mr_or_0 mrs 3)
          (mr_or_0 mrs 4) (mr_or_0 mrs 5) (mr_or_0 mrs 6) (mr_or_0 mrs 7) (mr_or_0 mrs 8) (mr_or_0 mrs 9)
          (m\<lparr> ipc_buf := b \<rparr>);
        Some (drop_bit 12 tag, m')
      } else None)"

definition cap_invoke_with_extra ::
  "'k kernel \<Rightarrow> usize \<Rightarrow> u32 \<Rightarrow> usize list \<Rightarrow> usize list \<Rightarrow> 'k machine \<Rightarrow> (usize \<times> 'k machine) option" where
  "cap_invoke_with_extra kern dest label mrs extra_caps m =
     (let info = push_bit 12 (ucast label) OR push_bit 7 (of_nat (length extra_caps)) OR of_nat (length mrs)
      in do {
        ((_, tag, _), m') \<leftarrow> seL4_syscall_with_caps kern SYS_CALL dest info
          (mr_or_0 mrs 0) (mr_or_0 mrs 1) (mr_or_0 mrs 2) 0 0 (mr_or_0 mrs 3)
          (mr_or_0 mrs 4) (mr_or_0 mrs 5) (mr_or_0 mrs 6) (mr_or_0 mrs 7) (mr_or_0 mrs 8) (mr_or_0 mrs 9)
          (length extra_caps) (mr_or_0 extra_caps 0) (mr_or_0 extra_caps 1) (mr_or_0 extra_caps 2) m;
        Some (drop_bit 12 tag, m')
      })"

section \<open>TCB operations\<close>

definition seL4_TCB_Configure :: "'k kernel \<Rightarrow> usize \<Rightarrow> usize \<Rightarrow> usize \<Rightarrow> usize \<Rightarrow> usize \<Rightarrow> usize \<Rightarrow> usize \<Rightarrow> 'k machine \<Rightarrow> (usize \<times> 'k machine) option" where
  "seL4_TCB_Configure kern tcb fault_ep cspace_root cspace_root_data vspace_root ipc_buffer_addr ipc_buffer_cap =
     cap_invoke_with_extra kern tcb 5 [fault_ep, cspace_root_data, 0, ipc_buffer_addr]
       [cspace_root, vspace_root, ipc_buffer_cap]"

text \<open>
  \<^verbatim>\<open>seL4_TCB_ReadRegisters\<close>: the frame is an in/out slice; its first four registers come from the CPU,
  the others from the IPC buffer. The closing loop reads \<^verbatim>\<open>msg[4..n]\<close> inside \<^verbatim>\<open>with_ipc_buffer\<close>.
\<close>

definition seL4_TCB_ReadRegisters ::
  "'k kernel \<Rightarrow> usize \<Rightarrow> bool \<Rightarrow> u8 \<Rightarrow> u8 \<Rightarrow> usize list \<Rightarrow> 'k machine \<Rightarrow> ((usize \<times> usize list) \<times> 'k machine) option" where
  "seL4_TCB_ReadRegisters kern tcb suspend arch_flags count reg_frame m =
     (let flags = of_bool suspend OR push_bit 8 (ucast arch_flags);
          n = min (length reg_frame) (unat count);
          info = push_bit 12 2 OR 2
      in do {
        ((_, tag, _, mr0, mr1, mr2, mr3, _, _), m') \<leftarrow>
          seL4_syscall_with_buf kern SYS_CALL tcb info flags (of_nat n) 0 0 0 0 0 0 0 0 0 0 m;
        let frame0 = (if n > 0 then reg_frame[0 := mr0] else reg_frame);
        let frame1 = (if n > 1 then frame0[1 := mr1] else frame0);
        let frame2 = (if n > 2 then frame1[2 := mr2] else frame1);
        let frame3 = (if n > 3 then frame2[3 := mr3] else frame2);
        (frame, m'') \<leftarrow> with_ipc_buffer
          (\<lambda>ib. (fold (\<lambda>i f. f[i := read_mr ib (of_nat i)]) [4..<n] frame3, ib)) m';
        Some ((drop_bit 12 tag, frame), m'')
      })"

text \<open>
  \<^verbatim>\<open>seL4_TCB_WriteRegisters\<close> copies the frame into a 22-word array, so more than twenty registers
  panic.
\<close>

definition seL4_TCB_WriteRegisters ::
  "'k kernel \<Rightarrow> usize \<Rightarrow> bool \<Rightarrow> u8 \<Rightarrow> u8 \<Rightarrow> usize list \<Rightarrow> 'k machine \<Rightarrow> (usize \<times> 'k machine) option" where
  "seL4_TCB_WriteRegisters kern tcb resume arch_flags count reg_frame m =
     (let flags = of_bool resume OR push_bit 8 (ucast arch_flags);
          n = min (length reg_frame) (unat count)
      in if 2 + n > 22 then None
         else cap_invoke kern tcb 3 (flags # of_nat n # take n reg_frame) m)"

definition seL4_TCB_Suspend :: "'k kernel \<Rightarrow> usize \<Rightarrow> 'k machine \<Rightarrow> (usize \<times> 'k machine) option" where
  "seL4_TCB_Suspend kern tcb =
     cap_invoke kern tcb 11 []"

definition seL4_TCB_Resume :: "'k kernel \<Rightarrow> usize \<Rightarrow> 'k machine \<Rightarrow> (usize \<times> 'k machine) option" where
  "seL4_TCB_Resume kern tcb =
     cap_invoke kern tcb 12 []"

definition seL4_TCB_SetSchedParams :: "'k kernel \<Rightarrow> usize \<Rightarrow> usize \<Rightarrow> u8 \<Rightarrow> u8 \<Rightarrow> 'k machine \<Rightarrow> (usize \<times> 'k machine) option" where
  "seL4_TCB_SetSchedParams kern tcb authority mcp priority =
     cap_invoke_with_extra kern tcb 8 [ucast mcp, ucast priority] [authority]"

definition seL4_TCB_BindNotification :: "'k kernel \<Rightarrow> usize \<Rightarrow> usize \<Rightarrow> 'k machine \<Rightarrow> (usize \<times> 'k machine) option" where
  "seL4_TCB_BindNotification kern tcb ntfn =
     cap_invoke_with_extra kern tcb 13 [] [ntfn]"

definition seL4_TCB_UnbindNotification :: "'k kernel \<Rightarrow> usize \<Rightarrow> 'k machine \<Rightarrow> (usize \<times> 'k machine) option" where
  "seL4_TCB_UnbindNotification kern tcb =
     cap_invoke kern tcb 14 []"

definition seL4_TCB_SetTLSBase :: "'k kernel \<Rightarrow> usize \<Rightarrow> usize \<Rightarrow> 'k machine \<Rightarrow> (usize \<times> 'k machine) option" where
  "seL4_TCB_SetTLSBase kern tcb tls_base =
     cap_invoke kern tcb 15 [tls_base]"

definition seL4_TCB_SetFlags :: "'k kernel \<Rightarrow> usize \<Rightarrow> usize \<Rightarrow> usize \<Rightarrow> 'k machine \<Rightarrow> (usize \<times> 'k machine) option" where
  "seL4_TCB_SetFlags kern tcb clear set_mask =
     cap_invoke kern tcb 16 [clear, set_mask]"

section \<open>CNode, untyped and paging operations\<close>

definition seL4_CNode_Copy :: "'k kernel \<Rightarrow> usize \<Rightarrow> usize \<Rightarrow> u8 \<Rightarrow> usize \<Rightarrow> usize \<Rightarrow> u8 \<Rightarrow> usize \<Rightarrow> 'k machine \<Rightarrow> (usize \<times> 'k machine) option" where
  "seL4_CNode_Copy kern cnode dest_index dest_depth src_root src_index src_depth rights =
     cap_invoke_with_extra kern cnode 20
       [dest_index, ucast dest_depth, src_index, ucast src_depth, rights] [src_root]"

definition seL4_CNode_Mint :: "'k kernel \<Rightarrow> usize \<Rightarrow> usize \<Rightarrow> u8 \<Rightarrow> usize \<Rightarrow> usize \<Rightarrow> u8 \<Rightarrow> usize \<Rightarrow> usize \<Rightarrow> 'k machine \<Rightarrow> (usize \<times> 'k machine) option" where
  "seL4_CNode_Mint kern cnode dest_index dest_depth src_root src_index src_depth rights badge =
     cap_invoke_with_extra kern cnode 21
       [dest_index, ucast dest_depth, src_index, ucast src_depth, rights, badge] [src_root]"

definition seL4_CNode_Delete :: "'k kernel \<Rightarrow> usize \<Rightarrow> usize \<Rightarrow> u8 \<Rightarrow> 'k machine \<Rightarrow> (usize \<times> 'k machine) option" where
  "seL4_CNode_Delete kern cnode ind depth =
     cap_invoke kern cnode 18 [ind, ucast depth]"

definition seL4_CNode_Revoke :: "'k kernel \<Rightarrow> usize \<Rightarrow> usize \<Rightarrow> u8 \<Rightarrow> 'k machine \<Rightarrow> (usize \<times> 'k machine) option" where
  "seL4_CNode_Revoke kern cnode ind depth =
     cap_invoke kern cnode 17 [ind, ucast depth]"

definition seL4_Untyped_Retype :: "'k kernel \<Rightarrow> usize \<Rightarrow> usize \<Rightarrow> usize \<Rightarrow> usize \<Rightarrow> usize \<Rightarrow> usize \<Rightarrow> usize \<Rightarrow> usize \<Rightarrow> 'k machine \<Rightarrow> (usize \<times> 'k machine) option" where
  "seL4_Untyped_Retype kern untyped obj_type obj_size_bits root_cnode node_index node_depth node_offset num_objects =
     cap_invoke_with_extra kern untyped 1
       [obj_type, obj_size_bits, node_index, node_depth, node_offset, num_objects] [root_cnode]"

definition seL4_Frame_Map :: "'k kernel \<Rightarrow> usize \<Rightarrow> usize \<Rightarrow> usize \<Rightarrow> usize \<Rightarrow> usize \<Rightarrow> 'k machine \<Rightarrow> (usize \<times> 'k machine) option" where
  "seL4_Frame_Map kern frame vspace vaddr rights attr =
     cap_invoke_with_extra kern frame 41 [vaddr, rights, attr] [vspace]"

definition seL4_Frame_Unmap :: "'k kernel \<Rightarrow> usize \<Rightarrow> 'k machine \<Rightarrow> (usize \<times> 'k machine) option" where
  "seL4_Frame_Unmap kern frame =
     cap_invoke kern frame 42 []"

definition seL4_PageTable_Map :: "'k kernel \<Rightarrow> usize \<Rightarrow> usize \<Rightarrow> usize \<Rightarrow> usize \<Rightarrow> 'k machine \<Rightarrow> (usize \<times> 'k machine) option" where
  "seL4_PageTable_Map kern pt vspace vaddr attr =
     cap_invoke_with_extra kern pt 37 [vaddr, attr] [vspace]"

definition seL4_PageTable_Unmap :: "'k kernel \<Rightarrow> usize \<Rightarrow> 'k machine \<Rightarrow> (usize \<times> 'k machine) option" where
  "seL4_PageTable_Unmap kern pt =
     cap_invoke kern pt 38 []"

definition seL4_PageDirectory_Map :: "'k kernel \<Rightarrow> usize \<Rightarrow> usize \<Rightarrow> usize \<Rightarrow> usize \<Rightarrow> 'k machine \<Rightarrow> (usize \<times> 'k machine) option" where
  "seL4_PageDirectory_Map kern pd vspace vaddr attr =
     cap_invoke_with_extra kern pd 35 [vaddr, attr] [vspace]"

definition seL4_PageDirectory_Unmap :: "'k kernel \<Rightarrow> usize \<Rightarrow> 'k machine \<Rightarrow> (usize \<times> 'k machine) option" where
  "seL4_PageDirectory_Unmap kern pd =
     cap_invoke kern pd 36 []"

definition seL4_PDPT_Map :: "'k kernel \<Rightarrow> usize \<Rightarrow> usize \<Rightarrow> usize \<Rightarrow> usize \<Rightarrow> 'k machine \<Rightarrow> (usize \<times> 'k machine) option" where
  "seL4_PDPT_Map kern pdpt vspace vaddr attr =
     cap_invoke_with_extra kern pdpt 33 [vaddr, attr] [vspace]"

definition seL4_PDPT_Unmap :: "'k kernel \<Rightarrow> usize \<Rightarrow> 'k machine \<Rightarrow> (usize \<times> 'k machine) option" where
  "seL4_PDPT_Unmap kern pdpt =
     cap_invoke kern pdpt 34 []"

definition seL4_ASIDPool_Assign :: "'k kernel \<Rightarrow> usize \<Rightarrow> usize \<Rightarrow> 'k machine \<Rightarrow> (usize \<times> 'k machine) option" where
  "seL4_ASIDPool_Assign kern asid_pool vspace =
     cap_invoke kern asid_pool 46 [vspace]"

definition seL4_ASIDControl_MakePool :: "'k kernel \<Rightarrow> usize \<Rightarrow> usize \<Rightarrow> usize \<Rightarrow> usize \<Rightarrow> usize \<Rightarrow> 'k machine \<Rightarrow> (usize \<times> 'k machine) option" where
  "seL4_ASIDControl_MakePool kern asid_control untyped root_cnode ind depth =
     cap_invoke_with_extra kern asid_control 45 [ind, depth] [untyped, root_cnode]"

section \<open>Interrupts and I/O ports\<close>

definition seL4_IRQControl_Get :: "'k kernel \<Rightarrow> usize \<Rightarrow> usize \<Rightarrow> usize \<Rightarrow> usize \<Rightarrow> usize \<Rightarrow> 'k machine \<Rightarrow> (usize \<times> 'k machine) option" where
  "seL4_IRQControl_Get kern irq_control irq root_cnode ind depth =
     cap_invoke_with_extra kern irq_control 26 [irq, ind, depth] [root_cnode]"

definition seL4_IRQHandler_SetNotification :: "'k kernel \<Rightarrow> usize \<Rightarrow> usize \<Rightarrow> 'k machine \<Rightarrow> (usize \<times> 'k machine) option" where
  "seL4_IRQHandler_SetNotification kern irq_handler notification =
     cap_invoke kern irq_handler 28 [notification]"

definition seL4_IRQHandler_Ack :: "'k kernel \<Rightarrow> usize \<Rightarrow> 'k machine \<Rightarrow> (usize \<times> 'k machine) option" where
  "seL4_IRQHandler_Ack kern irq_handler =
     cap_invoke kern irq_handler 27 []"

definition seL4_X86_IOPortControl_Issue :: "'k kernel \<Rightarrow> usize \<Rightarrow> u16 \<Rightarrow> u16 \<Rightarrow> usize \<Rightarrow> usize \<Rightarrow> u8 \<Rightarrow> 'k machine \<Rightarrow> (usize \<times> 'k machine) option" where
  "seL4_X86_IOPortControl_Issue kern io_port_control first_port last_port dest_cnode dest_index dest_depth =
     cap_invoke_with_extra kern io_port_control 47
       [ucast first_port, ucast last_port, dest_index, ucast dest_depth] [dest_cnode]"

definition seL4_X86_IOPort_Out8 :: "'k kernel \<Rightarrow> usize \<Rightarrow> u16 \<Rightarrow> u8 \<Rightarrow> 'k machine \<Rightarrow> (usize \<times> 'k machine) option" where
  "seL4_X86_IOPort_Out8 kern io_port_cap port dat =
     cap_invoke kern io_port_cap 51 [ucast port, ucast dat]"

definition seL4_X86_IOPort_Out16 :: "'k kernel \<Rightarrow> usize \<Rightarrow> u16 \<Rightarrow> u16 \<Rightarrow> 'k machine \<Rightarrow> (usize \<times> 'k machine) option" where
  "seL4_X86_IOPort_Out16 kern io_port_cap port dat =
     cap_invoke kern io_port_cap 52 [ucast port, ucast dat]"

definition seL4_X86_IOPort_Out32 :: "'k kernel \<Rightarrow> usize \<Rightarrow> u16 \<Rightarrow> u32 \<Rightarrow> 'k machine \<Rightarrow> (usize \<times> 'k machine) option" where
  "seL4_X86_IOPort_Out32 kern io_port_cap port dat =
     cap_invoke kern io_port_cap 53 [ucast port, ucast dat]"

definition seL4_X86_IOPort_In8 :: "'k kernel \<Rightarrow> usize \<Rightarrow> u16 \<Rightarrow> 'k machine \<Rightarrow> ((usize \<times> u8) \<times> 'k machine) option" where
  "seL4_X86_IOPort_In8 kern io_port_cap port m =
     do {
       ((_, tag, _, mr0, _), m') \<leftarrow>
         seL4_syscall_with_buf kern SYS_CALL io_port_cap (push_bit 12 48 OR 1)
           (ucast port) 0 0 0 0 0 0 0 0 0 0 0 m;
       Some ((drop_bit 12 tag, ucast (mr0 AND 0xFF)), m')
     }"

section \<open>Message delivery\<close>

text \<open>
  What the kernel reads as message register \<open>i\<close> (\<^verbatim>\<open>getSyscallArg\<close>, as the comments of
  \<^verbatim>\<open>lib.rs\<close> describe it): the four CPU registers first, then \<^verbatim>\<open>msg[i]\<close> of the buffer.
\<close>

definition get_syscall_arg :: "cpu_regs \<Rightarrow> ipc_buffer \<Rightarrow> nat \<Rightarrow> usize" where
  "get_syscall_arg c b i =
     (if i = 0 then c_r10 c else if i = 1 then c_r8 c else if i = 2 then c_r9 c
      else if i = 3 then c_r15 c else msg b ! i)"

text \<open>The state after the kernel has been entered with registers \<open>c\<close> and buffer \<open>b\<close>.\<close>

definition enter_kernel :: "'k kernel \<Rightarrow> cpu_regs \<Rightarrow> ipc_buffer \<Rightarrow> 'k machine \<Rightarrow> 'k machine" where
  "enter_kernel kern c b m =
     (let (c', b', k') = kern c b (world m) in m\<lparr> cpu := c', ipc_buf := b', world := k' \<rparr>)"

lemma msg_poke_msg [simp]: "msg (poke_msg i v b) = (msg b)[i := v]"
  by (simp add: poke_msg_def)

lemma msg_poke_cap [simp]: "msg (poke_cap i v b) = msg b"
  by (simp add: poke_cap_def)

lemma caps_poke_msg [simp]: "caps_or_badges (poke_msg i v b) = caps_or_badges b"
  by (simp add: poke_msg_def)

lemma caps_poke_cap [simp]: "caps_or_badges (poke_cap i v b) = (caps_or_badges b)[i := v]"
  by (simp add: poke_cap_def)

lemma fold_poke_msg:
  "msg (fold (\<lambda>i. poke_msg i (f i)) is b) = fold (\<lambda>i xs. xs[i := f i]) is (msg b)"
  by (induction "is" arbitrary: b) simp_all

lemma length_fold_update: "length (fold (\<lambda>i xs. xs[i := f i]) is xs) = length xs"
  by (induction "is" arbitrary: xs) simp_all

lemma nth_fold_update:
  "distinct is \<Longrightarrow> k < length xs \<Longrightarrow>
   fold (\<lambda>i xs. xs[i := f i]) is xs ! k = (if k \<in> set is then f k else xs ! k)"
  by (induction "is" arbitrary: xs) (auto simp: nth_list_update)

lemma seL4_syscall_enter:
  "seL4_syscall kern sys a0 a1 a2 a3 a4 a5 a6 a7 m =
   (let c = (cpu m)\<lparr> c_rdx := sys, c_rdi := a0, c_rsi := a1, c_r10 := a2, c_r8 := a3, c_r9 := a4,
                     c_r12 := a5, c_r13 := a6, c_r15 := a7 \<rparr>;
        m' = enter_kernel kern c (ipc_buf m) m
    in ((0, c_rsi (cpu m'), c_rdi (cpu m'), c_r10 (cpu m'), c_r8 (cpu m'), c_r9 (cpu m'), c_r15 (cpu m'), 0, 0), m'))"
  by (simp add: seL4_syscall_def syscall_insn_def enter_kernel_def Let_def)

lemma enter_kernel_buf [simp]: "enter_kernel kern c b (m\<lparr> ipc_buf := b' \<rparr>) = enter_kernel kern c b m"
  by (simp add: enter_kernel_def split: prod.splits)

lemma mr_or_0_nth: "i < length mrs \<Longrightarrow> mr_or_0 mrs i = mrs ! i"
  by (simp add: mr_or_0_def)

text \<open>The buffer of \<open>cap_invoke\<close> when the kernel is entered.\<close>

lemma marshalled_msg:
  assumes "length xs = 120" and "i < length mrs" and "length mrs \<le> 120" and "4 \<le> i"
  shows "(fold (\<lambda>i xs. xs[i := mrs ! i]) [10..<length mrs] xs)[4 := mr_or_0 mrs 4, 5 := mr_or_0 mrs 5,
      6 := mr_or_0 mrs 6, 7 := mr_or_0 mrs 7, 8 := mr_or_0 mrs 8, 9 := mr_or_0 mrs 9] ! i = mrs ! i"
  using assms by (auto simp: nth_list_update length_fold_update nth_fold_update mr_or_0_def)

text \<open>
  \<^verbatim>\<open>cap_invoke\<close> delivers its message. With the buffer set and at most 120 words, the kernel is
  entered once, with \<^verbatim>\<open>SYS_CALL\<close>, the destination, a tag holding label and length, and every
  message word where \<^verbatim>\<open>getSyscallArg\<close> looks for it, whatever the registers and the buffer held
  before; the result is the label of the reply tag.
\<close>

lemma cap_invoke_delivers:
  assumes "ipc_set m" and "ipc_buffer_ok (ipc_buf m)" and "length mrs \<le> 120"
  shows "\<exists>c b. cap_invoke kern dest label mrs m =
      Some (drop_bit 12 (c_rsi (cpu (enter_kernel kern c b m))), enter_kernel kern c b m) \<and>
    c_rdx c = SYS_CALL \<and> c_rdi c = dest \<and>
    c_rsi c = push_bit 12 (ucast label) OR of_nat (length mrs) \<and>
    (\<forall>i < length mrs. get_syscall_arg c b i = mrs ! i) \<and> caps_or_badges b = caps_or_badges (ipc_buf m)"
proof -
  let ?b = "poke_msg 9 (mr_or_0 mrs 9) (poke_msg 8 (mr_or_0 mrs 8) (poke_msg 7 (mr_or_0 mrs 7)
    (poke_msg 6 (mr_or_0 mrs 6) (poke_msg 5 (mr_or_0 mrs 5) (poke_msg 4 (mr_or_0 mrs 4)
    (fold (\<lambda>i. poke_msg i (mrs ! i)) [10..<length mrs] (ipc_buf m)))))))"
  let ?c = "(cpu m)\<lparr> c_rdx := SYS_CALL, c_rdi := dest, c_rsi := push_bit 12 (ucast label) OR of_nat (length mrs),
    c_r10 := mr_or_0 mrs 0, c_r8 := mr_or_0 mrs 1, c_r9 := mr_or_0 mrs 2, c_r12 := 0, c_r13 := 0, c_r15 := mr_or_0 mrs 3 \<rparr>"
  have "cap_invoke kern dest label mrs m =
      Some (drop_bit 12 (c_rsi (cpu (enter_kernel kern ?c ?b m))), enter_kernel kern ?c ?b m)"
    using assms by (simp add: cap_invoke_def seL4_syscall_with_buf_def seL4_syscall_enter Let_def min_def)
  moreover have "get_syscall_arg ?c ?b i = mrs ! i" if "i < length mrs" for i
    using assms that marshalled_msg [of "msg (ipc_buf m)" i mrs]
    by (auto simp: get_syscall_arg_def mr_or_0_nth fold_poke_msg ipc_buffer_ok_def)
  moreover have "caps_or_badges (fold (\<lambda>i. poke_msg i (mrs ! i)) is b) = caps_or_badges b" for "is" b
    by (induction "is" arbitrary: b) simp_all
  ultimately show ?thesis by (intro exI [of _ ?c] exI [of _ ?b]) simp
qed

definition zero_regs :: cpu_regs where
  "zero_regs = \<lparr> c_rax = 0, c_rdx = 0, c_rdi = 0, c_rsi = 0, c_r10 = 0, c_r8 = 0, c_r9 = 0, c_r12 = 0,
                 c_r13 = 0, c_r15 = 0 \<rparr>"

text \<open>A machine with its buffer set and a kernel that returns what it is given.\<close>

definition sample_machine :: "unit machine" where
  "sample_machine = \<lparr> ipc_set = True, ipc_buf = ipc_buffer_new, cpu = zero_regs, world = () \<rparr>"

definition echo_kernel :: "unit kernel" where
  "echo_kernel c b k = (c, b, k)"

lemma sample_machine_ok [simp]: "ipc_set sample_machine" "ipc_buffer_ok (ipc_buf sample_machine)"
  by (simp_all add: sample_machine_def)

text \<open>
  C27. \<^verbatim>\<open>cap_invoke_with_extra\<close> delivers at most ten message words and at most three extra
  capabilities: the kernel finds each word where \<^verbatim>\<open>getSyscallArg\<close> looks for it and each
  capability in \<^verbatim>\<open>caps_or_badges\<close>, and the tag counts both.
\<close>

theorem cap_invoke_with_extra_delivers:
  assumes "ipc_set m" and "ipc_buffer_ok (ipc_buf m)" and "length mrs \<le> 10" and "length caps \<le> 3"
  shows "\<exists>c b. cap_invoke_with_extra kern dest label mrs caps m =
      Some (drop_bit 12 (c_rsi (cpu (enter_kernel kern c b m))), enter_kernel kern c b m) \<and>
    c_rdx c = SYS_CALL \<and> c_rdi c = dest \<and>
    c_rsi c = push_bit 12 (ucast label) OR push_bit 7 (of_nat (length caps)) OR of_nat (length mrs) \<and>
    (\<forall>i < length mrs. get_syscall_arg c b i = mrs ! i) \<and>
    (\<forall>i < length caps. caps_or_badges b ! i = caps ! i)"
proof -
  let ?b1 = "if length caps \<ge> 1 then poke_cap 0 (mr_or_0 caps 0) (ipc_buf m) else ipc_buf m"
  let ?b2 = "if length caps \<ge> 2 then poke_cap 1 (mr_or_0 caps 1) ?b1 else ?b1"
  let ?b3 = "if length caps \<ge> 3 then poke_cap 2 (mr_or_0 caps 2) ?b2 else ?b2"
  let ?b = "poke_msg 9 (mr_or_0 mrs 9) (poke_msg 8 (mr_or_0 mrs 8) (poke_msg 7 (mr_or_0 mrs 7)
    (poke_msg 6 (mr_or_0 mrs 6) (poke_msg 5 (mr_or_0 mrs 5) (poke_msg 4 (mr_or_0 mrs 4) ?b3)))))"
  let ?c = "(cpu m)\<lparr> c_rdx := SYS_CALL, c_rdi := dest,
    c_rsi := push_bit 12 (ucast label) OR push_bit 7 (of_nat (length caps)) OR of_nat (length mrs),
    c_r10 := mr_or_0 mrs 0, c_r8 := mr_or_0 mrs 1, c_r9 := mr_or_0 mrs 2, c_r12 := 0, c_r13 := 0, c_r15 := mr_or_0 mrs 3 \<rparr>"
  have "cap_invoke_with_extra kern dest label mrs caps m =
      Some (drop_bit 12 (c_rsi (cpu (enter_kernel kern ?c ?b m))), enter_kernel kern ?c ?b m)"
    using assms unfolding cap_invoke_with_extra_def seL4_syscall_with_caps_def seL4_syscall_enter Let_def
    by simp
  moreover have "get_syscall_arg ?c ?b i = mrs ! i" if "i < length mrs" for i
    using assms that marshalled_msg [of "msg (ipc_buf m)" i mrs]
    by (auto simp: get_syscall_arg_def mr_or_0_nth ipc_buffer_ok_def)
  moreover have "caps_or_badges ?b ! i = caps ! i" if "i < length caps" for i
  proof -
    from that assms(4) consider "i = 0" | "i = 1" | "i = 2" by linarith
    then show ?thesis using that assms by cases (auto simp: ipc_buffer_ok_def mr_or_0_nth Suc_le_eq)
  qed
  ultimately show ?thesis by (intro exI [of _ ?c] exI [of _ ?b]) simp
qed

theorem cap_invoke_with_extra_delivers_witness:
  "\<exists>c b. cap_invoke_with_extra echo_kernel 7 1 [8, 12, 0, 0, 30, 1] [2] sample_machine =
      Some (drop_bit 12 (c_rsi (cpu (enter_kernel echo_kernel c b sample_machine))),
            enter_kernel echo_kernel c b sample_machine) \<and>
    get_syscall_arg c b 5 = 1 \<and> caps_or_badges b ! 0 = 2"
proof -
  from cap_invoke_with_extra_delivers [of sample_machine "[8, 12, 0, 0, 30, 1]" "[2]" echo_kernel 7 1]
  obtain c b where "cap_invoke_with_extra echo_kernel 7 1 [8, 12, 0, 0, 30, 1] [2] sample_machine =
      Some (drop_bit 12 (c_rsi (cpu (enter_kernel echo_kernel c b sample_machine))),
            enter_kernel echo_kernel c b sample_machine)"
    and "\<forall>i < 6. get_syscall_arg c b i = [8, 12, 0, 0, 30, 1] ! i"
    and "\<forall>i < Suc 0. caps_or_badges b ! i = [2] ! i" by auto
  then show ?thesis by (intro exI [of _ c] exI [of _ b]) simp
qed

text \<open>
  \<^verbatim>\<open>seL4_TCB_WriteRegisters\<close> delivers a register frame of at most twenty words: the kernel is
  entered with the flags and the count in message registers 0 and 1 and the frame, in order, in
  message registers 2 and up, whatever the registers and the buffer held before.
\<close>

lemma write_registers_delivers:
  assumes "ipc_set m" and "ipc_buffer_ok (ipc_buf m)" and "length frame = unat count" and "unat count \<le> 20"
  shows "\<exists>c b. seL4_TCB_WriteRegisters kern tcb resume fl count frame m =
      Some (drop_bit 12 (c_rsi (cpu (enter_kernel kern c b m))), enter_kernel kern c b m) \<and>
    c_rdi c = tcb \<and> get_syscall_arg c b 0 = of_bool resume OR push_bit 8 (ucast fl) \<and>
    get_syscall_arg c b 1 = ucast count \<and>
    (\<forall>i < length frame. get_syscall_arg c b (2 + i) = frame ! i)"
proof -
  let ?mrs = "(of_bool resume OR push_bit 8 (ucast fl)) # ucast count # frame"
  have "length ?mrs \<le> 120" using assms(3,4) by simp
  from cap_invoke_delivers [OF assms(1,2) this, of kern tcb 3]
  obtain c b where *: "cap_invoke kern tcb 3 ?mrs m =
      Some (drop_bit 12 (c_rsi (cpu (enter_kernel kern c b m))), enter_kernel kern c b m)"
    and "c_rdi c = tcb" and args: "\<And>i. i < length ?mrs \<Longrightarrow> get_syscall_arg c b i = ?mrs ! i" by blast
  moreover have "seL4_TCB_WriteRegisters kern tcb resume fl count frame m = cap_invoke kern tcb 3 ?mrs m"
    using assms(3,4) by (simp add: seL4_TCB_WriteRegisters_def Let_def)
  moreover have "get_syscall_arg c b (2 + i) = frame ! i" if "i < length frame" for i
    using args [of "2 + i"] that by simp
  ultimately show ?thesis using args [of 0] args [of 1] by (intro exI [of _ c] exI [of _ b]) simp
qed

section \<open>Typed machines\<close>

text \<open>
  A machine is well typed when the IPC buffer is installed, its arrays have the lengths of their types, and the world
  has the property \<open>P\<close> the caller needs. The kernel writes inside the arrays and keeps \<open>P\<close>.
\<close>

definition machine_typed :: "('k \<Rightarrow> bool) \<Rightarrow> 'k machine \<Rightarrow> bool" where
  "machine_typed P m \<longleftrightarrow> ipc_set m \<and> ipc_buffer_ok (ipc_buf m) \<and> P (world m)"

definition kernel_typed :: "('k \<Rightarrow> bool) \<Rightarrow> 'k kernel \<Rightarrow> bool" where
  "kernel_typed P kern \<longleftrightarrow>
     (\<forall>c b k. ipc_buffer_ok b \<longrightarrow> P k \<longrightarrow> ipc_buffer_ok (fst (snd (kern c b k))) \<and> P (snd (snd (kern c b k))))"

named_theorems typed_intros \<open>operations that keep a machine well typed\<close>

lemma syscall_insn_typed [typed_intros]: "kernel_typed P kern \<Longrightarrow> machine_typed P m \<Longrightarrow> machine_typed P (syscall_insn kern f m)"
  by (auto simp: machine_typed_def kernel_typed_def syscall_insn_def split_beta)

lemma putchar_typed [typed_intros]: "kernel_typed P kern \<Longrightarrow> machine_typed P m \<Longrightarrow> machine_typed P (seL4_DebugPutChar kern c m)"
  unfolding seL4_DebugPutChar_def by (rule syscall_insn_typed)

lemma putchars_typed [typed_intros]: "kernel_typed P kern \<Longrightarrow> machine_typed P m \<Longrightarrow> machine_typed P (fold (seL4_DebugPutChar kern) cs m)"
  by (induction cs arbitrary: m) (simp_all add: putchar_typed)

lemma putstring_typed [typed_intros]: "kernel_typed P kern \<Longrightarrow> machine_typed P m \<Longrightarrow> machine_typed P (seL4_DebugPutString kern s m)"
  unfolding seL4_DebugPutString_def by (rule putchars_typed)

lemma sys_null_typed [typed_intros]: "kernel_typed P kern \<Longrightarrow> machine_typed P m \<Longrightarrow> machine_typed P (sys_null kern n m)"
  unfolding sys_null_def by (rule syscall_insn_typed)

lemma write_mr_typed [typed_intros]: "machine_typed P m \<Longrightarrow> machine_typed P (m\<lparr> ipc_buf := write_mr (ipc_buf m) i v \<rparr>)"
  by (simp add: machine_typed_def)

end
