(* ===== verification/Boot_Info.thy ===== *)
theory Boot_Info
  imports Sel4_Types
begin

text \<open>
  The boot information handed to the root task (\<^verbatim>\<open>crates/sel4-sys/src/bootinfo.rs\<close>): slot regions,
  untyped descriptors, and the first-fit search for a usable untyped capability.
\<close>

record slot_region =
  sr_start :: usize
  sr_end :: usize

definition sr_count :: "slot_region \<Rightarrow> usize" where
  "sr_count r = (if sr_end r > sr_start r then sr_end r - sr_start r else 0)"

record untyped_desc =
  ud_paddr :: u64
  ud_size_bits :: u8
  ud_is_device :: u8

definition MAX_UNTYPED_CAPS :: nat where "MAX_UNTYPED_CAPS = 230"

record boot_info =
  bi_extra_len :: usize
  bi_node_id :: usize
  bi_num_nodes :: usize
  bi_num_iopt_levels :: usize
  bi_ipc_buffer :: usize
  bi_empty :: slot_region
  bi_shared_frames :: slot_region
  bi_user_image_frames :: slot_region
  bi_user_image_paging :: slot_region
  bi_io_space_caps :: slot_region
  bi_extra_bi_pages :: slot_region
  bi_init_thread_cnode_size_bits :: usize
  bi_init_thread_domain :: usize
  bi_untyped :: slot_region
  bi_untyped_list :: "untyped_desc list"

text \<open>The array type \<^verbatim>\<open>[UntypedDesc; 230]\<close>.\<close>

definition boot_info_ok :: "boot_info \<Rightarrow> bool" where
  "boot_info_ok bi \<longleftrightarrow> length (bi_untyped_list bi) = MAX_UNTYPED_CAPS"

definition untyped_start :: "boot_info \<Rightarrow> usize" where
  "untyped_start bi = sr_start (bi_untyped bi)"

definition untyped_count :: "boot_info \<Rightarrow> usize" where
  "untyped_count bi = sr_count (bi_untyped bi)"

definition cnode_size_bits :: "boot_info \<Rightarrow> usize" where
  "cnode_size_bits bi = bi_init_thread_cnode_size_bits bi"

definition ipc_buffer_ptr :: "boot_info \<Rightarrow> usize" where
  "ipc_buffer_ptr bi = bi_ipc_buffer bi"

definition node_id :: "boot_info \<Rightarrow> usize" where
  "node_id bi = bi_node_id bi"

definition empty_slots :: "boot_info \<Rightarrow> slot_region" where
  "empty_slots bi = bi_empty bi"

text \<open>Array indexing panics past the 230 descriptors.\<close>

definition get_untyped_desc :: "boot_info \<Rightarrow> nat \<Rightarrow> untyped_desc option" where
  "get_untyped_desc bi i = index (bi_untyped_list bi) i"

text \<open>
  The loop \<^verbatim>\<open>for i in 0..count\<close> over the remaining indices; the outer option is a panic, the inner
  one the search result.
\<close>

fun find_free_untyped_loop :: "boot_info \<Rightarrow> usize \<Rightarrow> u8 \<Rightarrow> nat list \<Rightarrow> (usize \<times> u8) option option" where
  "find_free_untyped_loop bi start min_size_bits [] = Some None"
| "find_free_untyped_loop bi start min_size_bits (i # is) =
     do {
       desc \<leftarrow> get_untyped_desc bi i;
       if ud_is_device desc = 0 \<and> ud_size_bits desc \<ge> min_size_bits
       then Some (Some (start + of_nat i, ud_size_bits desc))
       else find_free_untyped_loop bi start min_size_bits is
     }"

definition find_free_untyped :: "boot_info \<Rightarrow> u8 \<Rightarrow> (usize \<times> u8) option option" where
  "find_free_untyped bi min_size_bits =
     find_free_untyped_loop bi (untyped_start bi) min_size_bits [0..<unat (untyped_count bi)]"

text \<open>\<^verbatim>\<open>UntypedIter\<close>: a cursor over the descriptor array.\<close>

record untyped_iter =
  ui_list :: "untyped_desc list"
  ui_count :: nat
  ui_index :: nat

definition untyped_iter_next :: "untyped_iter \<Rightarrow> untyped_desc option \<times> untyped_iter" where
  "untyped_iter_next it =
     (if ui_index it \<ge> ui_count it then (None, it)
      else (Some (ui_list it ! ui_index it), it\<lparr> ui_index := ui_index it + 1 \<rparr>))"

definition untyped_iter_size_hint :: "untyped_iter \<Rightarrow> nat" where
  "untyped_iter_size_hint it = ui_count it - ui_index it"

text \<open>\<^verbatim>\<open>DeviceIter\<close> and \<^verbatim>\<open>IoApicIter\<close>.\<close>

record device_desc =
  dd_paddr :: u64
  dd_size :: u32

record device_iter =
  di_list :: "device_desc list"
  di_count :: nat
  di_index :: nat

definition device_iter_next :: "device_iter \<Rightarrow> device_desc option \<times> device_iter" where
  "device_iter_next it =
     (if di_index it \<ge> di_count it then (None, it)
      else (Some (di_list it ! di_index it), it\<lparr> di_index := di_index it + 1 \<rparr>))"

record io_apic_desc =
  ia_id :: u32
  ia_paddr :: u32
  ia_gsi_base :: u32

record io_apic_iter =
  ii_list :: "io_apic_desc list"
  ii_count :: nat
  ii_index :: nat

definition io_apic_iter_next :: "io_apic_iter \<Rightarrow> io_apic_desc option \<times> io_apic_iter" where
  "io_apic_iter_next it =
     (if ii_index it \<ge> ii_count it then (None, it)
      else (Some (ii_list it ! ii_index it), it\<lparr> ii_index := ii_index it + 1 \<rparr>))"

section \<open>Iterators\<close>

text \<open>
  What a caller of \<^verbatim>\<open>Iterator::next\<close> gets from \<open>n\<close> calls. The locale is the contract of a cursor over an array; the
  three iterators are its interpretations.
\<close>

primrec iter_take :: "('it \<Rightarrow> 'd option \<times> 'it) \<Rightarrow> nat \<Rightarrow> 'it \<Rightarrow> 'd list \<times> 'it" where
  "iter_take nx 0 it = ([], it)"
| "iter_take nx (Suc n) it =
     (case nx it of
        (None, it') \<Rightarrow> ([], it')
      | (Some d, it') \<Rightarrow> let (ds, it'') = iter_take nx n it' in (d # ds, it''))"

locale descriptor_iter =
  fixes nx :: "'it \<Rightarrow> 'd option \<times> 'it" and items :: "'it \<Rightarrow> 'd list" and cnt :: "'it \<Rightarrow> nat" and ind :: "'it \<Rightarrow> nat"
  assumes next_end: "cnt it \<le> ind it \<Longrightarrow> nx it = (None, it)"
    and next_item: "ind it < cnt it \<Longrightarrow>
      \<exists>it'. nx it = (Some (items it ! ind it), it') \<and> items it' = items it \<and> cnt it' = cnt it \<and> ind it' = Suc (ind it)"
begin

lemma iter_take_exact:
  assumes "cnt it \<le> length (items it)"
  shows "fst (iter_take nx n it) = take n (drop (ind it) (take (cnt it) (items it)))"
  using assms
proof (induction n arbitrary: it)
  case (Suc n)
  show ?case
  proof (cases "ind it < cnt it")
    case True
    from next_item [OF this] obtain it' where it':
      "nx it = (Some (items it ! ind it), it')" "items it' = items it" "cnt it' = cnt it" "ind it' = Suc (ind it)" by blast
    from True Suc.prems have "drop (ind it) (take (cnt it) (items it)) = items it ! ind it # drop (Suc (ind it)) (take (cnt it) (items it))"
      by (simp add: Cons_nth_drop_Suc [symmetric])
    moreover have "fst (iter_take nx n it') = take n (drop (Suc (ind it)) (take (cnt it) (items it)))"
      using Suc.IH [of it'] Suc.prems it' by simp
    ultimately show ?thesis using it'(1) by (simp add: split_beta)
  qed (simp add: next_end)
qed simp

end

interpretation untyped_descs: descriptor_iter untyped_iter_next ui_list ui_count ui_index
  by unfold_locales (simp_all add: untyped_iter_next_def)

interpretation device_descs: descriptor_iter device_iter_next di_list di_count di_index
  by unfold_locales (simp_all add: device_iter_next_def)

interpretation io_apic_descs: descriptor_iter io_apic_iter_next ii_list ii_count ii_index
  by unfold_locales (simp_all add: io_apic_iter_next_def)

text \<open>From its start each iterator returns the descriptors in order, each once.\<close>

lemma boot_iterators_enumerate:
  "c \<le> length us \<Longrightarrow> c \<le> n \<Longrightarrow> fst (iter_take untyped_iter_next n \<lparr> ui_list = us, ui_count = c, ui_index = 0 \<rparr>) = take c us"
  "c \<le> length ds \<Longrightarrow> c \<le> n \<Longrightarrow> fst (iter_take device_iter_next n \<lparr> di_list = ds, di_count = c, di_index = 0 \<rparr>) = take c ds"
  "c \<le> length as \<Longrightarrow> c \<le> n \<Longrightarrow> fst (iter_take io_apic_iter_next n \<lparr> ii_list = as, ii_count = c, ii_index = 0 \<rparr>) = take c as"
  by (simp_all add: untyped_descs.iter_take_exact device_descs.iter_take_exact io_apic_descs.iter_take_exact min_def)

section \<open>Lemmas\<close>

definition usable :: "u8 \<Rightarrow> untyped_desc \<Rightarrow> bool" where
  "usable min_size_bits d \<longleftrightarrow> ud_is_device d = 0 \<and> min_size_bits \<le> ud_size_bits d"

lemma find_loop_find:
  assumes "\<forall>i \<in> set is. i < length (bi_untyped_list bi)"
  shows "find_free_untyped_loop bi start m is =
    Some (map_option (\<lambda>i. (start + of_nat i, ud_size_bits (bi_untyped_list bi ! i)))
      (List.find (\<lambda>i. usable m (bi_untyped_list bi ! i)) is))"
  using assms
  by (induction "is") (auto simp: get_untyped_desc_def index_def usable_def)

lemma find_loop_panics:
  assumes "\<forall>i < length (bi_untyped_list bi). \<not> usable m (bi_untyped_list bi ! i)"
    and "\<exists>i \<in> set is. length (bi_untyped_list bi) \<le> i"
  shows "find_free_untyped_loop bi start m is = None"
  using assms(2)
proof (induction "is")
  case (Cons i "is")
  show ?case
  proof (cases "i < length (bi_untyped_list bi)")
    case True
    with assms(1) Cons show ?thesis
      by (auto simp: get_untyped_desc_def index_def usable_def)
  next
    case False
    then show ?thesis by (simp add: get_untyped_desc_def index_def)
  qed
qed simp

lemma find_upt_Some_iff:
  "List.find P [0..<n] = Some i \<longleftrightarrow> i < n \<and> P i \<and> (\<forall>j < i. \<not> P j)"
  by (auto simp: find_Some_iff)

text \<open>
  \<^verbatim>\<open>find_free_untyped\<close> is first fit: when the region holds at most 230 descriptors it does not
  panic, it finds a capability exactly when some descriptor of the region is ordinary memory of at
  least the requested size, and then returns the slot and the size of the first such descriptor.
\<close>

lemma find_free_untyped_first_fit:
  assumes "boot_info_ok bi" and "unat (untyped_count bi) \<le> MAX_UNTYPED_CAPS"
  shows "\<exists>r. find_free_untyped bi m = Some r \<and>
    (r = None \<longleftrightarrow> (\<forall>i < unat (untyped_count bi). \<not> usable m (bi_untyped_list bi ! i))) \<and>
    (\<forall>slot sz. r = Some (slot, sz) \<longrightarrow>
       (\<exists>i < unat (untyped_count bi). slot = untyped_start bi + of_nat i \<and>
          sz = ud_size_bits (bi_untyped_list bi ! i) \<and> usable m (bi_untyped_list bi ! i) \<and>
          (\<forall>j < i. \<not> usable m (bi_untyped_list bi ! j))))"
proof -
  let ?n = "unat (untyped_count bi)" and ?u = "\<lambda>i. usable m (bi_untyped_list bi ! i)"
  have "find_free_untyped bi m =
    Some (map_option (\<lambda>i. (untyped_start bi + of_nat i, ud_size_bits (bi_untyped_list bi ! i)))
      (List.find ?u [0..<?n]))"
    unfolding find_free_untyped_def
    by (rule find_loop_find) (use assms in \<open>auto simp: boot_info_ok_def\<close>)
  moreover have "List.find ?u [0..<?n] = None \<longleftrightarrow> (\<forall>i < ?n. \<not> ?u i)"
    by (auto simp: find_None_iff)
  ultimately show ?thesis
    by (auto simp: find_upt_Some_iff)
qed

definition sample_boot_info :: boot_info where
  "sample_boot_info =
     \<lparr> bi_extra_len = 0, bi_node_id = 0, bi_num_nodes = 1, bi_num_iopt_levels = 0, bi_ipc_buffer = 0x500000,
       bi_empty = \<lparr> sr_start = 100, sr_end = 4096 \<rparr>, bi_shared_frames = \<lparr> sr_start = 0, sr_end = 0 \<rparr>,
       bi_user_image_frames = \<lparr> sr_start = 0, sr_end = 0 \<rparr>, bi_user_image_paging = \<lparr> sr_start = 0, sr_end = 0 \<rparr>,
       bi_io_space_caps = \<lparr> sr_start = 0, sr_end = 0 \<rparr>, bi_extra_bi_pages = \<lparr> sr_start = 0, sr_end = 0 \<rparr>,
       bi_init_thread_cnode_size_bits = 12, bi_init_thread_domain = 0,
       bi_untyped = \<lparr> sr_start = 40, sr_end = 42 \<rparr>,
       bi_untyped_list = \<lparr> ud_paddr = 0, ud_size_bits = 30, ud_is_device = 1 \<rparr>
         # replicate 229 \<lparr> ud_paddr = 0x100000, ud_size_bits = 24, ud_is_device = 0 \<rparr> \<rparr>"

end
