(* ===== verification/Slots.thy ===== *)
theory Slots
  imports Sel4_Syscalls Boot_Info
begin

text \<open>
  Capability slots and heaps. The two slot managers (\<^verbatim>\<open>crates/common/src/slot.rs\<close>, with recycling
  and an edge handler, and \<^verbatim>\<open>root-task/src/slot.rs\<close>), the recycling pool of
  \<^verbatim>\<open>lcl/src/utils/obj.rs\<close>, the object allocator of \<^verbatim>\<open>crates/common/src/obj_allocator.rs\<close>, and the
  bump allocators of the five images. The locale \<open>slot_allocator\<close> is what their callers rely on:
  an allocation takes one element out of the set of free slots. It is interpreted on each of the
  three slot sources.
\<close>

section \<open>The slot manager of the common crate\<close>

record slot_manager =
  sm_next :: usize
  sm_end :: usize
  sm_recycled :: "usize list"

definition slot_manager_empty :: slot_manager where
  "slot_manager_empty = \<lparr> sm_next = 0, sm_end = 0, sm_recycled = [] \<rparr>"

definition init_empty_slots :: "usize \<Rightarrow> usize \<Rightarrow> slot_manager \<Rightarrow> slot_manager" where
  "init_empty_slots range_start range_end sm = sm\<lparr> sm_next := range_start, sm_end := range_end \<rparr>"

definition sm_available :: "slot_manager \<Rightarrow> usize" where
  "sm_available sm =
     of_nat (length (sm_recycled sm)) + (if sm_end sm > sm_next sm then sm_end sm - sm_next sm else 0)"

text \<open>\<^verbatim>\<open>Vec::pop\<close> takes the last element; an empty manager panics.\<close>

definition sm_alloc_slot :: "slot_manager \<Rightarrow> (usize \<times> slot_manager) option" where
  "sm_alloc_slot sm =
     (if sm_recycled sm \<noteq> []
      then Some (last (sm_recycled sm), sm\<lparr> sm_recycled := butlast (sm_recycled sm) \<rparr>)
      else if sm_next sm < sm_end sm
      then Some (sm_next sm, sm\<lparr> sm_next := sm_next sm + 1 \<rparr>)
      else None)"

definition sm_recycle_slot :: "usize \<Rightarrow> slot_manager \<Rightarrow> slot_manager" where
  "sm_recycle_slot slot sm = sm\<lparr> sm_recycled := sm_recycled sm @ [slot] \<rparr>"

definition next_range_start :: "slot_manager \<Rightarrow> usize" where
  "next_range_start sm = sm_end sm"

definition sm_extend :: "usize \<Rightarrow> slot_manager \<Rightarrow> slot_manager" where
  "sm_extend count sm = sm\<lparr> sm_end := sm_end sm + count \<rparr>"

text \<open>
  The globals \<^verbatim>\<open>SLOT_MANAGER\<close> and \<^verbatim>\<open>SLOT_EDGE_HANDLER\<close>; the handler is any function of the range
  start acting on the rest of the state.
\<close>

record 'w slot_globals =
  SLOT_MANAGER :: slot_manager
  SLOT_EDGE_HANDLER :: "(usize \<Rightarrow> 'w \<Rightarrow> 'w) option"
  slot_env :: 'w

definition slot_init :: "usize \<Rightarrow> usize \<Rightarrow> 'w slot_globals \<Rightarrow> 'w slot_globals" where
  "slot_init range_start range_end g =
     g\<lparr> SLOT_MANAGER := init_empty_slots range_start range_end (SLOT_MANAGER g) \<rparr>"

definition init_slot_edge_handler :: "(usize \<Rightarrow> 'w \<Rightarrow> 'w) \<Rightarrow> 'w slot_globals \<Rightarrow> 'w slot_globals" where
  "init_slot_edge_handler handler g = g\<lparr> SLOT_EDGE_HANDLER := Some handler \<rparr>"

definition alloc_slot :: "'w slot_globals \<Rightarrow> (usize \<times> 'w slot_globals) option" where
  "alloc_slot g =
     (let g1 =
        (if sm_available (SLOT_MANAGER g) = 0 then
           let g0 = (case SLOT_EDGE_HANDLER g of
                       Some handler \<Rightarrow> g\<lparr> slot_env := handler (next_range_start (SLOT_MANAGER g)) (slot_env g) \<rparr>
                     | None \<Rightarrow> g)
           in g0\<lparr> SLOT_MANAGER := sm_extend 0x1000 (SLOT_MANAGER g0) \<rparr>
         else g)
      in do {
        (slot, sm) \<leftarrow> sm_alloc_slot (SLOT_MANAGER g1);
        Some (slot, g1\<lparr> SLOT_MANAGER := sm \<rparr>)
      })"

definition recycle_slot :: "usize \<Rightarrow> 'w slot_globals \<Rightarrow> 'w slot_globals" where
  "recycle_slot slot g = g\<lparr> SLOT_MANAGER := sm_recycle_slot slot (SLOT_MANAGER g) \<rparr>"

section \<open>The slot manager of the root task\<close>

record root_slot_manager =
  rsm_next :: usize
  rsm_end :: usize

definition root_slot_manager_new :: "usize \<Rightarrow> usize \<Rightarrow> root_slot_manager" where
  "root_slot_manager_new range_start range_end = \<lparr> rsm_next = range_start, rsm_end = range_end \<rparr>"

definition rsm_alloc :: "root_slot_manager \<Rightarrow> (usize option) \<times> root_slot_manager" where
  "rsm_alloc sm =
     (if rsm_next sm \<ge> rsm_end sm then (None, sm)
      else (Some (rsm_next sm), sm\<lparr> rsm_next := rsm_next sm + 1 \<rparr>))"

text \<open>
  \<^verbatim>\<open>SimpleMutex\<close>: \<^verbatim>\<open>lock\<close> spins while the flag it replaces was set, and the root task has one thread, so a second
  \<^verbatim>\<open>lock\<close> never returns (\<open>None\<close>). Dropping the guard clears the flag.
\<close>

record 'a simple_mutex =
  mu_locked :: bool
  mu_data :: 'a

definition mutex_new :: "'a \<Rightarrow> 'a simple_mutex" where
  "mutex_new d = \<lparr> mu_locked = False, mu_data = d \<rparr>"

partial_function (option) mutex_lock :: "'a simple_mutex \<Rightarrow> 'a simple_mutex option" where
  "mutex_lock mu = (if mu_locked mu then mutex_lock (mu\<lparr> mu_locked := True \<rparr>) else Some (mu\<lparr> mu_locked := True \<rparr>))"

definition mutex_drop :: "'a simple_mutex \<Rightarrow> 'a simple_mutex" where
  "mutex_drop mu = mu\<lparr> mu_locked := False \<rparr>"

lemma mutex_lock_free: "\<not> mu_locked mu \<Longrightarrow> mutex_lock mu = Some (mu\<lparr> mu_locked := True \<rparr>)"
  by (simp add: mutex_lock.simps)

lemma mutex_lock_held: "mu_locked mu \<Longrightarrow> mutex_lock mu = None"
proof -
  have "\<not> mu_locked mu" if "mutex_lock mu = Some mu'" for mu mu' :: "'a simple_mutex"
    by (rule mutex_lock.raw_induct [OF _ that, where P = "\<lambda>mu _. \<not> mu_locked mu"]) (fastforce split: if_splits)
  then show "mu_locked mu \<Longrightarrow> mutex_lock mu = None" by (cases "mutex_lock mu") auto
qed

definition rsm_available :: "root_slot_manager \<Rightarrow> usize" where
  "rsm_available sm = rsm_end sm - rsm_next sm"

definition ROOT_SLOT_MANAGER :: root_slot_manager where
  "ROOT_SLOT_MANAGER = root_slot_manager_new 256 0x1000"

section \<open>The recycling pool of the compatibility layer\<close>

record obj_pool =
  op_recycled :: "usize list"

definition obj_pool_new :: obj_pool where
  "obj_pool_new = \<lparr> op_recycled = [] \<rparr>"

definition op_alloc :: "obj_pool \<Rightarrow> (usize option) \<times> obj_pool" where
  "op_alloc p =
     (if op_recycled p = [] then (None, p)
      else (Some (last (op_recycled p)), p\<lparr> op_recycled := butlast (op_recycled p) \<rparr>))"

definition extend_slot :: "usize \<Rightarrow> obj_pool \<Rightarrow> obj_pool" where
  "extend_slot slot p = p\<lparr> op_recycled := op_recycled p @ [slot] \<rparr>"

section \<open>The object allocator\<close>

record object_allocator =
  oa_recycled :: "usize list"
  oa_untyped_list :: "(usize \<times> u8) list"

definition object_allocator_new :: object_allocator where
  "object_allocator_new = \<lparr> oa_recycled = [], oa_untyped_list = [] \<rparr>"

definition add_untyped :: "usize \<Rightarrow> u8 \<Rightarrow> object_allocator \<Rightarrow> object_allocator" where
  "add_untyped slot sz oa = oa\<lparr> oa_untyped_list := oa_untyped_list oa @ [(slot, sz)] \<rparr>"

definition oa_recycle :: "usize \<Rightarrow> object_allocator \<Rightarrow> object_allocator" where
  "oa_recycle slot oa = oa\<lparr> oa_recycled := oa_recycled oa @ [slot] \<rparr>"

text \<open>
  The common body of \<^verbatim>\<open>alloc_page\<close>, \<^verbatim>\<open>alloc_page_table\<close> and \<^verbatim>\<open>alloc_notification\<close>, which differ in
  the object type only. The slot is taken before the untyped is looked for.
\<close>

definition alloc_object ::
  "'k kernel \<Rightarrow> object_type \<Rightarrow> boot_info \<Rightarrow> 'w slot_globals \<Rightarrow> 'k machine \<Rightarrow>
   ((usize option) \<times> 'w slot_globals \<times> 'k machine) option" where
  "alloc_object kern ty bi g m =
     do {
       (slot, g') \<leftarrow> alloc_slot g;
       found \<leftarrow> find_free_untyped bi 12;
       (case found of
          None \<Rightarrow> Some (None, g', m)
        | Some (untyped_slot, _) \<Rightarrow>
            do {
              (err, m') \<leftarrow> seL4_Untyped_Retype kern untyped_slot (object_type_word ty) (size_bits ty)
                             init_CNODE init_CNODE 64 slot 1 m;
              Some (if err = 0 then Some slot else None, g', m')
            })
     }"

definition oa_alloc_page ::
  "'k kernel \<Rightarrow> boot_info \<Rightarrow> 'w slot_globals \<Rightarrow> 'k machine \<Rightarrow> ((usize option) \<times> 'w slot_globals \<times> 'k machine) option" where
  "oa_alloc_page kern bi g m = alloc_object kern Frame4K bi g m"

definition oa_alloc_page_table ::
  "'k kernel \<Rightarrow> boot_info \<Rightarrow> 'w slot_globals \<Rightarrow> 'k machine \<Rightarrow> ((usize option) \<times> 'w slot_globals \<times> 'k machine) option" where
  "oa_alloc_page_table kern bi g m = alloc_object kern PageTable bi g m"

definition oa_alloc_notification ::
  "'k kernel \<Rightarrow> boot_info \<Rightarrow> 'w slot_globals \<Rightarrow> 'k machine \<Rightarrow> ((usize option) \<times> 'w slot_globals \<times> 'k machine) option" where
  "oa_alloc_notification kern bi g m = alloc_object kern Notification bi g m"

section \<open>Page mapping helpers\<close>

definition map_page_self :: "'k kernel \<Rightarrow> usize \<Rightarrow> usize \<Rightarrow> usize \<Rightarrow> 'k machine \<Rightarrow> (bool \<times> 'k machine) option" where
  "map_page_self kern page_slot vaddr vspace m =
     do {
       (err, m') \<leftarrow> seL4_Frame_Map kern page_slot vspace (page_floor vaddr) (cr_bits CapRights_ALL) 0 m;
       Some (err = 0, m')
     }"

definition unmap_page :: "'k kernel \<Rightarrow> usize \<Rightarrow> 'k machine \<Rightarrow> (bool \<times> 'k machine) option" where
  "unmap_page kern page_slot m =
     do { (err, m') \<leftarrow> seL4_Frame_Unmap kern page_slot m; Some (err = 0, m') }"

definition map_page_table :: "'k kernel \<Rightarrow> usize \<Rightarrow> usize \<Rightarrow> usize \<Rightarrow> 'k machine \<Rightarrow> (bool \<times> 'k machine) option" where
  "map_page_table kern pt_slot vaddr vspace m =
     do {
       (err, m') \<leftarrow> seL4_PageTable_Map kern pt_slot vspace (page_floor vaddr) 0 m;
       Some (err = 0, m')
     }"

section \<open>Bump allocators\<close>

text \<open>
  The allocation step the five images share: \<open>pos\<close> is the heap position, \<open>heap_size\<close> the size of
  the static array. The result is the offset of the block (\<open>None\<close> for the null pointer) and the
  new position. \<^verbatim>\<open>dealloc\<close> does nothing.
\<close>

definition bump_alloc :: "usize \<Rightarrow> usize \<Rightarrow> usize \<Rightarrow> usize \<Rightarrow> usize option \<times> usize" where
  "bump_alloc heap_size align sz pos =
     (let aligned = (pos + align - 1) AND NOT (align - 1);
          new_pos = aligned + sz
      in if new_pos > heap_size then (None, pos) else (Some aligned, new_pos))"

definition root_task_alloc :: "usize \<Rightarrow> usize \<Rightarrow> usize \<Rightarrow> usize option \<times> usize" where
  "root_task_alloc = bump_alloc 0x100000"

definition lcl_alloc :: "usize \<Rightarrow> usize \<Rightarrow> usize \<Rightarrow> usize option \<times> usize" where
  "lcl_alloc = bump_alloc (4 * 1024 * 1024)"

definition ext4_srv_alloc :: "usize \<Rightarrow> usize \<Rightarrow> usize \<Rightarrow> usize option \<times> usize" where
  "ext4_srv_alloc = bump_alloc (1024 * 1024)"

definition blk_task_alloc :: "usize \<Rightarrow> usize \<Rightarrow> usize \<Rightarrow> usize option \<times> usize" where
  "blk_task_alloc = bump_alloc (128 * 1024)"

definition lwext4_task_alloc :: "usize \<Rightarrow> usize \<Rightarrow> usize \<Rightarrow> usize option \<times> usize" where
  "lwext4_task_alloc = bump_alloc (128 * 1024)"

section \<open>The slot allocator interface\<close>

text \<open>Allocating \<open>n\<close> slots in a row.\<close>

fun alloc_many :: "('s \<Rightarrow> (usize \<times> 's) option) \<Rightarrow> nat \<Rightarrow> 's \<Rightarrow> (usize list \<times> 's) option" where
  "alloc_many alloc 0 st = Some ([], st)"
| "alloc_many alloc (Suc n) st =
     do {
       (s, st1) \<leftarrow> alloc st;
       (ss, st2) \<leftarrow> alloc_many alloc n st1;
       Some (s # ss, st2)
     }"

locale slot_allocator =
  fixes alloc :: "'s \<Rightarrow> (usize \<times> 's) option"
    and free :: "'s \<Rightarrow> usize set"
    and inv :: "'s \<Rightarrow> bool"
  assumes alloc_Some: "inv st \<Longrightarrow> alloc st = Some (s, st') \<Longrightarrow> s \<in> free st \<and> free st' = free st - {s} \<and> inv st'"
    and alloc_None: "inv st \<Longrightarrow> alloc st = None \<Longrightarrow> free st = {}"
begin

lemma alloc_many_fresh:
  "inv st \<Longrightarrow> alloc_many alloc n st = Some (ss, st') \<Longrightarrow>
   length ss = n \<and> distinct ss \<and> set ss \<subseteq> free st \<and> free st' = free st - set ss \<and> inv st'"
proof (induction n arbitrary: st ss)
  case (Suc n)
  from Suc.prems(2) obtain s st1 ss' where a: "alloc st = Some (s, st1)"
    and m: "alloc_many alloc n st1 = Some (ss', st')" and ss: "ss = s # ss'"
    by (auto simp: bind_eq_Some_conv)
  from alloc_Some [OF Suc.prems(1) a] Suc.IH [OF _ m] ss show ?case by auto
qed simp

lemma alloc_many_succeeds:
  "inv st \<Longrightarrow> finite (free st) \<Longrightarrow> n \<le> card (free st) \<Longrightarrow> \<exists>ss st'. alloc_many alloc n st = Some (ss, st')"
proof (induction n arbitrary: st)
  case (Suc n)
  then have "free st \<noteq> {}" by auto
  with alloc_None Suc.prems(1) obtain s st1 where a: "alloc st = Some (s, st1)" by fastforce
  with alloc_Some [OF Suc.prems(1) a] Suc.prems have "inv st1" "finite (free st1)" "n \<le> card (free st1)"
    by (auto simp: card_Diff_singleton)
  from Suc.IH [OF this] a show ?case by auto
qed simp

end

lemma word_interval_step:
  assumes "n < (e :: usize)"
  shows "{n + 1..<e} = {n..<e} - {n}"
proof -
  have "unat (n + 1) = unat n + 1" using assms by (rule unat_inc)
  then show ?thesis
    by (auto simp: word_le_nat_alt word_less_nat_alt word_unat_eq_iff)
qed

definition sm_free :: "slot_manager \<Rightarrow> usize set" where
  "sm_free sm = set (sm_recycled sm) \<union> {sm_next sm..<sm_end sm}"

definition sm_inv :: "slot_manager \<Rightarrow> bool" where
  "sm_inv sm \<longleftrightarrow> distinct (sm_recycled sm) \<and> set (sm_recycled sm) \<inter> {sm_next sm..<sm_end sm} = {}"

lemma butlast_last_split:
  assumes "xs \<noteq> []" and "distinct xs"
  shows "set (butlast xs) = set xs - {last xs}"
  using assms by (cases xs rule: rev_cases) auto

interpretation common_slots: slot_allocator sm_alloc_slot sm_free sm_inv
proof (unfold_locales, goal_cases)
  case (1 sm s sm')
  show ?case
  proof (cases "sm_recycled sm = []")
    case True
    with 1(2) have "sm_next sm < sm_end sm" "s = sm_next sm" "sm' = sm\<lparr>sm_next := sm_next sm + 1\<rparr>"
      by (auto simp: sm_alloc_slot_def split: if_splits)
    with True show ?thesis by (auto simp: sm_free_def sm_inv_def word_interval_step)
  next
    case False
    with 1 show ?thesis
      using last_in_set [OF False]
      by (auto simp: sm_alloc_slot_def sm_free_def sm_inv_def butlast_last_split distinct_butlast)
  qed
qed (auto simp: sm_alloc_slot_def sm_free_def split: if_splits)

text \<open>The root task's manager and the recycling pool return an option beside the new state.\<close>

definition opt_alloc :: "('s \<Rightarrow> (usize option) \<times> 's) \<Rightarrow> 's \<Rightarrow> (usize \<times> 's) option" where
  "opt_alloc f st = (case f st of (Some s, st') \<Rightarrow> Some (s, st') | (None, _) \<Rightarrow> None)"

interpretation root_slots: slot_allocator "opt_alloc rsm_alloc" "\<lambda>sm. {rsm_next sm..<rsm_end sm}" "\<lambda>_. True"
  by unfold_locales
    (auto simp: opt_alloc_def rsm_alloc_def word_interval_step not_le split: if_splits)

interpretation obj_slots: slot_allocator "opt_alloc op_alloc" "\<lambda>p. set (op_recycled p)" "\<lambda>p. distinct (op_recycled p)"
  by unfold_locales
    (auto simp: opt_alloc_def op_alloc_def butlast_last_split distinct_butlast split: if_splits)

text \<open>
  The root task's slot manager hands out each slot once: any \<open>n\<close> allocations that succeed return
  \<open>n\<close> distinct slots of the free range, and they succeed as long as the range has \<open>n\<close> slots left.
\<close>

lemma root_slots_distinct:
  assumes "n \<le> card {rsm_next sm..<rsm_end sm}"
  shows "\<exists>ss sm'. alloc_many (opt_alloc rsm_alloc) n sm = Some (ss, sm') \<and> length ss = n \<and> distinct ss \<and>
    set ss \<subseteq> {rsm_next sm..<rsm_end sm} \<and> {rsm_next sm'..<rsm_end sm'} = {rsm_next sm..<rsm_end sm} - set ss"
proof -
  have "finite {rsm_next sm..<rsm_end sm}" by simp
  from root_slots.alloc_many_succeeds [OF TrueI this assms] obtain ss sm' where
    "alloc_many (opt_alloc rsm_alloc) n sm = Some (ss, sm')" by auto
  with root_slots.alloc_many_fresh [OF TrueI this] show ?thesis by blast
qed

section \<open>Giving slots back\<close>

text \<open>
  An allocator that also takes slots back: a slot that is not free becomes free. What clients return, in any order,
  restores the set of free slots, and an allocator that has been given a slot does not run out.
\<close>

locale slot_recycler = slot_allocator +
  fixes give :: "usize \<Rightarrow> 'a \<Rightarrow> 'a"
  assumes give_free: "inv st \<Longrightarrow> s \<notin> free st \<Longrightarrow> free (give s st) = insert s (free st) \<and> inv (give s st)"
begin

lemma give_many:
  "inv st \<Longrightarrow> distinct ss \<Longrightarrow> set ss \<inter> free st = {} \<Longrightarrow> free (fold give ss st) = free st \<union> set ss \<and> inv (fold give ss st)"
proof (induction ss arbitrary: st)
  case (Cons s ss)
  with give_free [of st s] have "free (give s st) = insert s (free st)" "inv (give s st)" by auto
  with Cons show ?case by auto
qed simp

lemma alloc_many_give_back:
  assumes "inv st" and "alloc_many alloc n st = Some (ss, st')" and "distinct rs" and "set rs = set ss"
  shows "free (fold give rs st') = free st \<and> inv (fold give rs st')"
proof -
  have ss: "distinct ss" "set ss \<subseteq> free st" "free st' = free st - set ss" "inv st'"
    using alloc_many_fresh [OF assms(1,2)] by auto
  then have "set rs \<inter> free st' = {}" using assms(4) by auto
  from give_many [OF ss(4) assms(3) this] show ?thesis using ss(2,3) assms(4) by auto
qed

lemma alloc_after_give:
  assumes "inv st" and "s \<notin> free st"
  shows "alloc (give s st) \<noteq> None"
proof
  assume "alloc (give s st) = None"
  with alloc_None [of "give s st"] give_free [OF assms] show False by simp
qed

end

interpretation common_recycler: slot_recycler sm_alloc_slot sm_free sm_inv sm_recycle_slot
  by unfold_locales (auto simp: sm_free_def sm_inv_def sm_recycle_slot_def)

interpretation obj_recycler: slot_recycler "opt_alloc op_alloc" "\<lambda>p. set (op_recycled p)" "\<lambda>p. distinct (op_recycled p)" extend_slot
  by unfold_locales (auto simp: extend_slot_def)

text \<open>Both pools of the system: whatever was taken and is given back, in any order, leaves the same slots free.\<close>

lemma slot_pools_restored:
  "sm_inv sm \<Longrightarrow> alloc_many sm_alloc_slot n sm = Some (ss, sm') \<Longrightarrow> distinct rs \<Longrightarrow> set rs = set ss \<Longrightarrow>
     sm_free (fold sm_recycle_slot rs sm') = sm_free sm \<and> sm_inv (fold sm_recycle_slot rs sm')"
  "distinct (op_recycled p) \<Longrightarrow> alloc_many (opt_alloc op_alloc) n p = Some (ss, p') \<Longrightarrow> distinct rs \<Longrightarrow> set rs = set ss \<Longrightarrow>
     set (op_recycled (fold extend_slot rs p')) = set (op_recycled p) \<and> distinct (op_recycled (fold extend_slot rs p'))"
  by (rule common_recycler.alloc_many_give_back; assumption) (rule obj_recycler.alloc_many_give_back; assumption)

section \<open>Allocation and recycling interleaved\<close>

text \<open>
  The reachable states of the common crate's globals, with the set of slots the clients hold: a
  client may allocate at any time and may return a slot it holds.
\<close>

inductive slot_reach :: "usize \<Rightarrow> usize \<Rightarrow> 'w slot_globals \<Rightarrow> usize set \<Rightarrow> bool" for lo hi where
  start: "sm_recycled (SLOT_MANAGER g) = [] \<Longrightarrow> lo \<le> hi \<Longrightarrow> slot_reach lo hi (slot_init lo hi g) {}"
| alloc: "slot_reach lo hi g A \<Longrightarrow> alloc_slot g = Some (s, g') \<Longrightarrow> slot_reach lo hi g' (insert s A)"
| recycle: "slot_reach lo hi g A \<Longrightarrow> s \<in> A \<Longrightarrow> slot_reach lo hi (recycle_slot s g) (A - {s})"

definition held_inv :: "slot_manager \<Rightarrow> usize set \<Rightarrow> bool" where
  "held_inv sm A \<longleftrightarrow>
     distinct (sm_recycled sm) \<and> A \<inter> set (sm_recycled sm) = {} \<and> sm_next sm \<le> sm_end sm \<and>
     (\<forall>s \<in> A \<union> set (sm_recycled sm). s < sm_next sm)"

lemma sm_alloc_slot_held:
  assumes "distinct (sm_recycled sm)" and "A \<inter> set (sm_recycled sm) = {}"
    and "\<forall>s \<in> A \<union> set (sm_recycled sm). s < sm_next sm" and "sm_alloc_slot sm = Some (s, sm')"
    and "sm_recycled sm = [] \<or> sm_next sm \<le> sm_end sm"
  shows "s \<notin> A \<and> held_inv sm' (insert s A)"
proof (cases "sm_recycled sm = []")
  case True
  with assms(4) have lt: "sm_next sm < sm_end sm" and s: "s = sm_next sm"
    and sm': "sm' = sm\<lparr>sm_next := sm_next sm + 1\<rparr>"
    by (auto simp: sm_alloc_slot_def split: if_splits)
  from lt have u: "unat (sm_next sm + 1) = unat (sm_next sm) + 1" by (rule unat_inc)
  have "x < sm_next sm + 1" if "x < sm_next sm \<or> x = sm_next sm" for x
    using that u by (auto simp: word_less_nat_alt)
  with True assms lt s sm' u show ?thesis
    by (auto simp: held_inv_def word_le_nat_alt word_less_nat_alt)
next
  case False
  with assms show ?thesis
    by (auto simp: sm_alloc_slot_def held_inv_def butlast_last_split distinct_butlast)
qed

lemma card_below: "card {..<w :: usize} \<le> unat w"
proof -
  have "unat ` {..<w} \<subseteq> {..<unat w}" by (auto simp: word_less_nat_alt)
  from card_inj_on_le [OF _ this] show ?thesis by (simp add: inj_on_def word_unat_eq_iff)
qed

lemma available_zero:
  assumes "held_inv sm A" and "sm_available sm = 0"
  shows "sm_recycled sm = [] \<and> sm_next sm = sm_end sm"
proof -
  let ?len = "length (sm_recycled sm)"
  have "set (sm_recycled sm) \<subseteq> {..<sm_next sm}" using assms(1) by (auto simp: held_inv_def)
  from card_mono [OF _ this] have len: "?len \<le> unat (sm_next sm)"
    using assms(1) card_below [of "sm_next sm"] by (simp add: held_inv_def distinct_card)
  have le: "unat (sm_next sm) \<le> unat (sm_end sm)" using assms(1) by (simp add: held_inv_def word_le_nat_alt)
  have lt: "unat (sm_end sm) < 2 ^ 64" by (rule unat_less_64)
  have "unat (of_nat ?len :: usize) = ?len"
    using len le lt by (simp add: unat_of_nat_small)
  moreover have "unat (sm_end sm - sm_next sm) = unat (sm_end sm) - unat (sm_next sm)"
    using le by (simp add: unat_minus_le word_le_nat_alt)
  ultimately have "unat (of_nat ?len + (sm_end sm - sm_next sm)) = ?len + (unat (sm_end sm) - unat (sm_next sm))"
    using len le lt by (simp add: unat_plus_no_wrap)
  moreover have "sm_available sm = of_nat ?len + (sm_end sm - sm_next sm)"
  proof (cases "sm_next sm < sm_end sm")
    case False
    with le have "sm_next sm = sm_end sm" by (simp add: word_less_nat_alt word_unat_eq_iff)
    then show ?thesis by (simp add: sm_available_def)
  qed (simp add: sm_available_def)
  ultimately have "?len + (unat (sm_end sm) - unat (sm_next sm)) = 0" using assms(2) by simp
  with le have "?len = 0" "unat (sm_end sm) = unat (sm_next sm)" by linarith+
  then show ?thesis by (simp add: word_unat_eq_iff)
qed

lemma alloc_slot_held:
  assumes "alloc_slot g = Some (s, g')" and inv: "held_inv (SLOT_MANAGER g) A"
  shows "s \<notin> A \<and> held_inv (SLOT_MANAGER g') (insert s A)"
proof (cases "sm_available (SLOT_MANAGER g) = 0")
  case True
  with assms(1) have a: "sm_alloc_slot (sm_extend 0x1000 (SLOT_MANAGER g)) = Some (s, SLOT_MANAGER g')"
    by (auto simp: alloc_slot_def Let_def bind_eq_Some_conv split: option.splits)
  show ?thesis
    by (rule sm_alloc_slot_held [OF _ _ _ a])
      (use inv available_zero [OF inv True] in \<open>auto simp: held_inv_def sm_extend_def\<close>)
next
  case False
  with assms(1) have "sm_alloc_slot (SLOT_MANAGER g) = Some (s, SLOT_MANAGER g')"
    by (auto simp: alloc_slot_def bind_eq_Some_conv)
  from sm_alloc_slot_held [OF _ _ _ this, of A] inv show ?thesis by (auto simp: held_inv_def)
qed

lemma alloc_slot_succeeds:
  assumes inv: "held_inv (SLOT_MANAGER g) A" and "sm_end (SLOT_MANAGER g) \<le> - 0x1001"
  shows "alloc_slot g \<noteq> None"
proof (cases "sm_available (SLOT_MANAGER g) = 0")
  case True
  from assms(2) have "unat (sm_end (SLOT_MANAGER g)) + 0x1000 < 2 ^ 64"
    by (simp add: word_le_nat_alt)
  then have "sm_end (SLOT_MANAGER g) < sm_end (SLOT_MANAGER g) + 0x1000"
    by (simp add: word_less_nat_alt unat_plus_no_wrap)
  with available_zero [OF inv True] True show ?thesis
    by (auto simp: alloc_slot_def sm_alloc_slot_def sm_extend_def Let_def split: option.splits)
next
  case False
  then show ?thesis
    by (auto simp: alloc_slot_def sm_alloc_slot_def sm_available_def split: if_splits)
qed

lemma slot_reach_held: "slot_reach lo hi g A \<Longrightarrow> held_inv (SLOT_MANAGER g) A"
proof (induction rule: slot_reach.induct)
  case (start g)
  then show ?case by (simp add: held_inv_def slot_init_def init_empty_slots_def)
next
  case (alloc g A s g')
  with alloc_slot_held show ?case by blast
next
  case (recycle g A s)
  then show ?case by (auto simp: held_inv_def recycle_slot_def sm_recycle_slot_def)
qed

text \<open>
  C10. No double allocation, and no panic. However allocations and recyclings are interleaved, a slot
  the common crate's \<^verbatim>\<open>alloc_slot\<close> returns is held by no client; and while the end of the range can
  still grow by 4096 without wrapping, \<^verbatim>\<open>alloc_slot\<close> returns a slot, extending the range when
  none is left, instead of panicking.
\<close>

theorem alloc_slot_fresh:
  assumes "slot_reach lo hi g A"
  shows "(\<forall>s g'. alloc_slot g = Some (s, g') \<longrightarrow> s \<notin> A) \<and>
    (sm_end (SLOT_MANAGER g) \<le> - 0x1001 \<longrightarrow> (\<exists>s g'. alloc_slot g = Some (s, g')))"
  using slot_reach_held [OF assms] alloc_slot_held alloc_slot_succeeds by fastforce

definition sample_slots :: "unit slot_globals" where
  "sample_slots = slot_init 32 33 \<lparr> SLOT_MANAGER = slot_manager_empty, SLOT_EDGE_HANDLER = None, slot_env = () \<rparr>"

text \<open>One slot in the range: the second allocation extends it.\<close>

theorem alloc_slot_fresh_witness:
  "\<exists>s (g :: unit slot_globals) g'. slot_reach 32 33 g {32} \<and> alloc_slot g = Some (s, g') \<and> s \<noteq> 32"
proof -
  have r0: "slot_reach 32 33 sample_slots {}"
    unfolding sample_slots_def by (rule slot_reach.start) (simp_all add: slot_manager_empty_def)
  let ?g = "sample_slots\<lparr> SLOT_MANAGER := SLOT_MANAGER sample_slots\<lparr> sm_next := 33 \<rparr> \<rparr>"
  have "alloc_slot sample_slots = Some (32, ?g)"
    by (simp add: alloc_slot_def sample_slots_def slot_init_def init_empty_slots_def slot_manager_empty_def
        sm_available_def sm_alloc_slot_def)
  from slot_reach.alloc [OF r0 this] have r1: "slot_reach 32 33 ?g {32}" .
  have "sm_end (SLOT_MANAGER ?g) \<le> - 0x1001"
    by (simp add: sample_slots_def slot_init_def init_empty_slots_def)
  with alloc_slot_fresh [OF r1] obtain s g' where "alloc_slot ?g = Some (s, g')" "s \<noteq> 32" by auto
  with r1 show ?thesis by blast
qed

section \<open>Heap blocks\<close>

text \<open>
  \<^verbatim>\<open>Layout\<close> guarantees a power-of-two alignment and a size that does not pass \<^verbatim>\<open>isize::MAX\<close> when
  rounded up to it.
\<close>

definition layout_ok :: "usize \<Rightarrow> usize \<Rightarrow> bool" where
  "layout_ok align sz \<longleftrightarrow> (\<exists>k < 63. align = 2 ^ k) \<and> unat sz + unat align \<le> 2 ^ 63"

lemma bump_alloc_aligned:
  assumes "layout_ok align sz" and "unat pos \<le> 2 ^ 62"
  shows "unat ((pos + align - 1) AND NOT (align - 1)) = (unat pos + unat align - 1) div unat align * unat align"
proof -
  from assms(1) obtain k where k: "k < 63" "align = 2 ^ k" by (auto simp: layout_ok_def)
  have ua: "unat align = 2 ^ k" using k by (simp add: unat_pow2)
  have "unat (pos + align) = unat pos + unat align"
    using assms by (intro unat_plus_no_wrap) (simp add: layout_ok_def)
  moreover have "1 \<le> unat pos + 2 ^ k" by (simp add: Suc_leI)
  then have "1 \<le> pos + align" using calculation ua by (simp add: word_le_nat_alt)
  ultimately have "unat (pos + align - 1) = unat pos + unat align - 1" by (simp add: unat_minus_le)
  then show ?thesis using k ua by (simp add: mask_word_eq unat_and_not_mask)
qed

text \<open>
  A heap block of the bump allocators is aligned as the layout asks, lies inside the heap array
  and above everything allocated before, and the new position is its end, so that blocks never
  overlap; when the block does not fit, the null pointer is returned and the position stays.
\<close>

lemma bump_alloc_block:
  assumes "layout_ok align sz" and "pos \<le> heap_size" and "unat heap_size \<le> 2 ^ 62"
  shows "case bump_alloc heap_size align sz pos of
      (Some off, pos') \<Rightarrow>
        unat align dvd unat off \<and> pos \<le> off \<and> unat pos' = unat off + unat sz \<and> pos' \<le> heap_size
    | (None, pos') \<Rightarrow>
        pos' = pos \<and> unat heap_size < (unat pos + unat align - 1) div unat align * unat align + unat sz"
proof -
  let ?al = "(pos + align - 1) AND NOT (align - 1)"
  have pos: "unat pos \<le> 2 ^ 62" using assms(2,3) by (simp add: word_le_nat_alt)
  note al = bump_alloc_aligned [OF assms(1) this]
  have a0: "0 < unat align" using assms(1) by (auto simp: layout_ok_def unat_pow2)
  note rb = round_up_bounds [OF a0, of "unat pos"]
  have sum: "unat (?al + sz) = unat ?al + unat sz"
    by (rule unat_plus_no_wrap) (use al rb pos assms(1) in \<open>simp add: layout_ok_def\<close>)
  show ?thesis
  proof (cases "?al + sz > heap_size")
    case True
    then have "bump_alloc heap_size align sz pos = (None, pos)" by (simp add: bump_alloc_def Let_def)
    moreover from True sum al have "unat heap_size < (unat pos + unat align - 1) div unat align * unat align + unat sz"
      by (simp add: word_less_nat_alt)
    ultimately show ?thesis by simp
  next
    case False
    then have "bump_alloc heap_size align sz pos = (Some ?al, ?al + sz)" by (simp add: bump_alloc_def Let_def)
    moreover have "unat align dvd unat ?al" by (simp only: al dvd_triv_right)
    moreover have "pos \<le> ?al" using al rb(1) by (simp add: word_le_nat_alt)
    ultimately show ?thesis using False sum by simp
  qed
qed

end
