(* ===== verification/Ext4_Fs.thy ===== *)
theory Ext4_Fs
  imports Prelude
begin

text \<open>
  The file system interface \<^verbatim>\<open>FSIface\<close> and its implementation \<^verbatim>\<open>EXT4FSImpl\<close>
  (\<^verbatim>\<open>lwext4-task/src/lib.rs\<close>). The ext4 library \<^verbatim>\<open>lwext4_rust\<close> and the container
  \<^verbatim>\<open>flatten_objects\<close> are not part of the repository: they are the parameter \<open>ext4_lib\<close>, a record of
  the functions called, over the types \<open>'f\<close> of mounted file systems, \<open>'h\<close> of open files
  (\<^verbatim>\<open>Ext4File\<close>) and \<open>'s\<close> of containers. Directory listings are encoded as \<^verbatim>\<open>Dirent64\<close> records; a
  reference parser shows that the encoding can be read back.
\<close>

section \<open>The interface\<close>

record stat =
  st_ino :: usize
  st_size :: u64
  st_mode :: u32
  st_nlink :: u32
  st_blksize :: u32

definition stat_default :: stat where
  "stat_default = \<lparr> st_ino = 0, st_size = 0, st_mode = 0, st_nlink = 0, st_blksize = 0 \<rparr>"

text \<open>\<^verbatim>\<open>trait FSIface\<close>, as the record of its methods; \<open>None\<close> is a panic.\<close>

record 'e fs_iface =
  i_open :: "bytes \<Rightarrow> u32 \<Rightarrow> 'e \<Rightarrow> ((i32 + usize \<times> usize) \<times> 'e) option"
  i_read_at :: "u64 \<Rightarrow> usize \<Rightarrow> bytes \<Rightarrow> 'e \<Rightarrow> ((usize \<times> bytes) \<times> 'e) option"
  i_write_at :: "u64 \<Rightarrow> usize \<Rightarrow> bytes \<Rightarrow> 'e \<Rightarrow> (usize \<times> 'e) option"
  i_close :: "usize \<Rightarrow> 'e \<Rightarrow> 'e option"
  i_mkdir :: "bytes \<Rightarrow> 'e \<Rightarrow> 'e option"
  i_unlink :: "bytes \<Rightarrow> 'e \<Rightarrow> 'e option"
  i_stat :: "usize \<Rightarrow> 'e \<Rightarrow> (stat \<times> 'e) option"
  i_getdents64 :: "u64 \<Rightarrow> usize \<Rightarrow> bytes \<Rightarrow> 'e \<Rightarrow> ((usize \<times> usize) \<times> bytes \<times> 'e) option"

section \<open>Directory entries\<close>

definition DIRENT64_SIZE :: nat where "DIRENT64_SIZE = 280"

text \<open>\<^verbatim>\<open>len.div_ceil(8) * 8\<close> with \<^verbatim>\<open>len = name.len() + size_of::<Dirent64>()\<close>\<close>

definition dirent_len :: "bytes \<Rightarrow> nat" where
  "dirent_len name = (length name + DIRENT64_SIZE + 7) div 8 * 8"

text \<open>
  The stores through \<^verbatim>\<open>*mut Dirent64\<close> at offset \<open>base\<close>: \<^verbatim>\<open>ino\<close> at 0, \<^verbatim>\<open>off\<close> at 8, \<^verbatim>\<open>reclen\<close> at 16, \<^verbatim>\<open>ftype\<close>
  at 18 and \<^verbatim>\<open>name\<close> at 19 of the \<^verbatim>\<open>repr(C)\<close> layout.
\<close>

definition put_dirent :: "bytes \<Rightarrow> nat \<Rightarrow> bytes \<Rightarrow> bytes" where
  "put_dirent buf base name =
     (let aligned = dirent_len name;
          b1 = copy_slice buf (base + 18) [0];
          b2 = copy_slice b1 (base + 16) (to_le 2 (of_nat aligned :: u16));
          b3 = copy_slice b2 base (to_le 8 (0 :: u64));
          b4 = copy_slice b3 (base + 8) (to_le 8 (of_nat (base + aligned) :: u64))
      in copy_slice b4 (base + 19) (take 255 name))"

text \<open>
  The loop over the remaining entries. \<open>rlen\<close> is \<^verbatim>\<open>real_rlen\<close>, which stays below the buffer's length,
  and \<^verbatim>\<open>base_ptr\<close> is always \<open>rlen\<close> bytes into the buffer.
\<close>

fun getdents_loop :: "bytes list \<Rightarrow> bytes \<Rightarrow> nat \<Rightarrow> usize \<Rightarrow> (usize \<times> usize) \<times> bytes" where
  "getdents_loop [] buf rlen offset = ((of_nat rlen, offset), buf)"
| "getdents_loop (name # names) buf rlen offset =
     (if rlen + dirent_len name > length buf then ((of_nat rlen, offset), buf)
      else getdents_loop names (put_dirent buf rlen name) (rlen + dirent_len name) (offset + 1))"

section \<open>EXT4FSImpl\<close>

datatype inode_types = EXT4_DE_DIR | EXT4_DE_REG_FILE

text \<open>Functions of the two libraries; every method of \<^verbatim>\<open>Ext4File\<close> may change the file and the file system.\<close>

type_synonym ('r, 'h, 'f) file_op = "'h \<Rightarrow> 'f \<Rightarrow> 'r \<times> 'h \<times> 'f"

record ('f, 'h, 's) ext4_lib =
  O_CREAT :: u32
  O_TRUNC :: u32
  file_new :: "bytes \<Rightarrow> inode_types \<Rightarrow> 'h"
  check_inode_exist :: "bytes \<Rightarrow> inode_types \<Rightarrow> (bool, 'h, 'f) file_op"
  file_open :: "bytes \<Rightarrow> u32 \<Rightarrow> (i32 + usize, 'h, 'f) file_op"
  file_size :: "(u64, 'h, 'f) file_op"
  file_seek :: "u64 \<Rightarrow> u32 \<Rightarrow> (i32 + usize, 'h, 'f) file_op"
  file_read :: "bytes \<Rightarrow> (i32 + usize \<times> bytes, 'h, 'f) file_op"
  file_write :: "bytes \<Rightarrow> (i32 + usize, 'h, 'f) file_op"
  file_close :: "(i32 + usize, 'h, 'f) file_op"
  dir_mk :: "bytes \<Rightarrow> (i32 + usize, 'h, 'f) file_op"
  file_remove :: "bytes \<Rightarrow> (i32 + usize, 'h, 'f) file_op"
  file_mode_get :: "(i32 + u32, 'h, 'f) file_op"
  lwext4_dir_entries :: "(i32 + bytes list \<times> inode_types list, 'h, 'f) file_op"
  st_add :: "'h \<Rightarrow> 's \<Rightarrow> usize option \<times> 's"
  st_get :: "'s \<Rightarrow> usize \<Rightarrow> 'h option"
  st_set :: "usize \<Rightarrow> 'h \<Rightarrow> 's \<Rightarrow> 's"
  st_remove :: "usize \<Rightarrow> 's \<Rightarrow> 'h option \<times> 's"

definition O_DIRECTORY :: u32 where "O_DIRECTORY = 0x4000"

record ('f, 's) ext4fs =
  ext_fs :: 'f
  stores :: 's

text \<open>\<^verbatim>\<open>unwrap\<close> of a \<^verbatim>\<open>Result\<close>.\<close>

definition unwrap :: "'e + 'a \<Rightarrow> 'a option" where
  "unwrap r = (case r of Inl _ \<Rightarrow> None | Inr v \<Rightarrow> Some v)"

text \<open>The tail of \<^verbatim>\<open>open\<close>: take the size and put the file in the container.\<close>

definition store_file ::
  "('f, 'h, 's, 'z) ext4_lib_scheme \<Rightarrow> 'h \<Rightarrow> 'f \<Rightarrow> 's \<Rightarrow> (i32 + usize \<times> usize) \<times> ('f, 's) ext4fs" where
  "store_file L h f s =
     (let (sz, h1, f1) = file_size L h f
      in case st_add L h1 s of
           (Some ind, s1) \<Rightarrow> (Inr (ind, sz), \<lparr> ext_fs = f1, stores = s1 \<rparr>)
         | (None, s1) \<Rightarrow> (Inl (- 1), \<lparr> ext_fs = f1, stores = s1 \<rparr>))"

text \<open>
  \<^verbatim>\<open>EXT4FSImpl::new\<close>: the library mounts the file system of the RAM disk, or the \<^verbatim>\<open>expect\<close> panics; dropping the
  structure leaves a disk behind. Both are functions of the library.
\<close>

record ('f, 's) ext4_mount =
  mount_disk :: "bytes \<Rightarrow> 'f option"
  unmount_disk :: "'f \<Rightarrow> bytes"
  no_files :: 's

definition ext4fs_new :: "('f, 's) ext4_mount \<Rightarrow> bytes \<Rightarrow> ('f, 's) ext4fs option" where
  "ext4fs_new M disk = map_option (\<lambda>f. \<lparr> ext_fs = f, stores = no_files M \<rparr>) (mount_disk M disk)"

definition ext4_open ::
  "('f, 'h, 's, 'z) ext4_lib_scheme \<Rightarrow> bytes \<Rightarrow> u32 \<Rightarrow> ('f, 's) ext4fs \<Rightarrow> ((i32 + usize \<times> usize) \<times> ('f, 's) ext4fs) option" where
  "ext4_open L path flags e =
     (let root = file_new L (str ''/'') EXT4_DE_DIR
      in if flags AND O_CREAT L = O_CREAT L then
           (if flags AND O_DIRECTORY \<noteq> O_DIRECTORY then
              (case file_open L path (flags OR O_TRUNC L) (file_new L path EXT4_DE_REG_FILE) (ext_fs e) of
                 (Inl err, _, f) \<Rightarrow> Some (Inl err, e\<lparr> ext_fs := f \<rparr>)
               | (Inr _, h, f) \<Rightarrow> Some (store_file L h f (stores e)))
            else Some (Inl (- 1), e))
         else
           (case check_inode_exist L path EXT4_DE_DIR root (ext_fs e) of
              (True, _, f) \<Rightarrow> Some (store_file L (file_new L path EXT4_DE_DIR) f (stores e))
            | (False, root1, f) \<Rightarrow>
                (case check_inode_exist L path EXT4_DE_REG_FILE root1 f of
                   (True, _, f1) \<Rightarrow>
                     (case file_open L path flags (file_new L path EXT4_DE_REG_FILE) f1 of
                        (Inl err, _, f2) \<Rightarrow> Some (Inl err, e\<lparr> ext_fs := f2 \<rparr>)
                      | (Inr _, h, f2) \<Rightarrow> Some (store_file L h f2 (stores e)))
                 | (False, _, f1) \<Rightarrow> Some (Inl (- 2), e\<lparr> ext_fs := f1 \<rparr>))))"

definition ext4_read_at ::
  "('f, 'h, 's, 'z) ext4_lib_scheme \<Rightarrow> u64 \<Rightarrow> usize \<Rightarrow> bytes \<Rightarrow> ('f, 's) ext4fs \<Rightarrow> ((usize \<times> bytes) \<times> ('f, 's) ext4fs) option" where
  "ext4_read_at L inode offset buf e =
     (case st_get L (stores e) inode of
        None \<Rightarrow> Some ((0, buf), e)
      | Some h \<Rightarrow>
          let (r, h1, f1) = file_seek L offset 0 h (ext_fs e);
              (r2, h2, f2) = file_read L buf h1 f1
          in do {
            _ \<leftarrow> unwrap r;
            got \<leftarrow> unwrap r2;
            Some (got, \<lparr> ext_fs = f2, stores = st_set L inode h2 (stores e) \<rparr>)
          })"

definition ext4_write_at ::
  "('f, 'h, 's, 'z) ext4_lib_scheme \<Rightarrow> u64 \<Rightarrow> usize \<Rightarrow> bytes \<Rightarrow> ('f, 's) ext4fs \<Rightarrow> (usize \<times> ('f, 's) ext4fs) option" where
  "ext4_write_at L inode offset dat e =
     (case st_get L (stores e) inode of
        None \<Rightarrow> Some (0, e)
      | Some h \<Rightarrow>
          let (r, h1, f1) = file_seek L offset 0 h (ext_fs e);
              (r2, h2, f2) = file_write L dat h1 f1
          in do {
            _ \<leftarrow> unwrap r;
            n \<leftarrow> unwrap r2;
            Some (n, \<lparr> ext_fs = f2, stores = st_set L inode h2 (stores e) \<rparr>)
          })"

definition ext4_close :: "('f, 'h, 's, 'z) ext4_lib_scheme \<Rightarrow> usize \<Rightarrow> ('f, 's) ext4fs \<Rightarrow> ('f, 's) ext4fs option" where
  "ext4_close L inode e =
     (case st_remove L inode (stores e) of
        (None, s1) \<Rightarrow> Some (e\<lparr> stores := s1 \<rparr>)
      | (Some h, s1) \<Rightarrow>
          let (r, _, f1) = file_close L h (ext_fs e)
          in do { _ \<leftarrow> unwrap r; Some \<lparr> ext_fs = f1, stores = s1 \<rparr> })"

definition ext4_mkdir :: "('f, 'h, 's, 'z) ext4_lib_scheme \<Rightarrow> bytes \<Rightarrow> ('f, 's) ext4fs \<Rightarrow> ('f, 's) ext4fs option" where
  "ext4_mkdir L path e =
     (let (r, _, f1) = dir_mk L path (file_new L path EXT4_DE_DIR) (ext_fs e)
      in do { _ \<leftarrow> unwrap r; Some (e\<lparr> ext_fs := f1 \<rparr>) })"

definition ext4_unlink :: "('f, 'h, 's, 'z) ext4_lib_scheme \<Rightarrow> bytes \<Rightarrow> ('f, 's) ext4fs \<Rightarrow> ('f, 's) ext4fs option" where
  "ext4_unlink L path e =
     (let (r, _, f1) = file_remove L path (file_new L path EXT4_DE_DIR) (ext_fs e)
      in do { _ \<leftarrow> unwrap r; Some (e\<lparr> ext_fs := f1 \<rparr>) })"

definition ext4_stat :: "('f, 'h, 's, 'z) ext4_lib_scheme \<Rightarrow> usize \<Rightarrow> ('f, 's) ext4fs \<Rightarrow> (stat \<times> ('f, 's) ext4fs) option" where
  "ext4_stat L inode e =
     (case st_get L (stores e) inode of
        None \<Rightarrow> Some (stat_default, e)
      | Some h \<Rightarrow>
          let (sz, h1, f1) = file_size L h (ext_fs e);
              (r, h2, f2) = file_mode_get L h1 f1
          in Some (\<lparr> st_ino = inode, st_size = sz, st_mode = (case r of Inl _ \<Rightarrow> 0 | Inr v \<Rightarrow> v),
                     st_nlink = 1, st_blksize = 0x200 \<rparr>,
                   \<lparr> ext_fs = f2, stores = st_set L inode h2 (stores e) \<rparr>))"

text \<open>\<^verbatim>\<open>zip(entries.0, entries.1).skip(offset)\<close>, of which only the names are used.\<close>

definition ext4_getdents64 ::
  "('f, 'h, 's, 'z) ext4_lib_scheme \<Rightarrow> u64 \<Rightarrow> usize \<Rightarrow> bytes \<Rightarrow> ('f, 's) ext4fs \<Rightarrow>
   ((usize \<times> usize) \<times> bytes \<times> ('f, 's) ext4fs) option" where
  "ext4_getdents64 L inode offset buf e =
     (case st_get L (stores e) inode of
        None \<Rightarrow> Some ((0, offset), buf, e)
      | Some h \<Rightarrow>
          let (r, h1, f1) = lwext4_dir_entries L h (ext_fs e)
          in do {
            entries \<leftarrow> unwrap r;
            let names = map fst (zip (fst entries) (snd entries));
            let (res, buf') = getdents_loop (drop (unat offset) names) buf 0 offset;
            Some (res, buf', \<lparr> ext_fs = f1, stores = st_set L inode h1 (stores e) \<rparr>)
          })"

definition ext4fs_iface :: "('f, 'h, 's, 'z) ext4_lib_scheme \<Rightarrow> ('f, 's) ext4fs fs_iface" where
  "ext4fs_iface L =
     \<lparr> i_open = ext4_open L, i_read_at = ext4_read_at L, i_write_at = ext4_write_at L, i_close = ext4_close L,
       i_mkdir = ext4_mkdir L, i_unlink = ext4_unlink L, i_stat = ext4_stat L, i_getdents64 = ext4_getdents64 L \<rparr>"

text \<open>A listing stays inside the buffer it is given.\<close>

lemma length_put_dirent [simp]: "base + dirent_len name \<le> length buf \<Longrightarrow> length (put_dirent buf base name) = length buf"
  by (simp add: put_dirent_def Let_def dirent_len_def DIRENT64_SIZE_def)

lemma length_getdents_loop [simp]: "length (snd (getdents_loop names buf rlen offset)) = length buf"
  by (induction names buf rlen offset rule: getdents_loop.induct) simp_all

section \<open>Listings can be read back\<close>

text \<open>
  A reader of \<^verbatim>\<open>Dirent64\<close> records, as a C library walks them: the record length is at offset 16, the
  name is the NUL-terminated string at offset 19, and the next record starts after the record length.
\<close>

function parse_dirents :: "bytes \<Rightarrow> bytes list" where
  "parse_dirents buf =
     (let r = unat (from_le (take 2 (drop 16 buf)) :: u16)
      in if length buf < 19 \<or> r = 0 then []
         else takeWhile (\<lambda>b. b \<noteq> 0) (take (r - 19) (drop 19 buf)) # parse_dirents (drop r buf))"
  by auto
termination
  by (relation "measure length") auto

declare parse_dirents.simps [simp del]

text \<open>The bytes of one record.\<close>

definition dirent_bytes :: "nat \<Rightarrow> bytes \<Rightarrow> bytes" where
  "dirent_bytes base name =
     to_le 8 (0 :: u64) @ to_le 8 (of_nat (base + dirent_len name) :: u64) @ to_le 2 (of_nat (dirent_len name) :: u16) @
     [0] @ take 255 name @ replicate (dirent_len name - 19 - min 255 (length name)) 0"

lemma dirent_len_bounds: "length name + 280 \<le> dirent_len name" "dirent_len name \<le> length name + 287"
proof -
  have "dirent_len name = (length name + 280 + 8 - 1) div 8 * 8" by (simp add: dirent_len_def DIRENT64_SIZE_def)
  then show "length name + 280 \<le> dirent_len name" "dirent_len name \<le> length name + 287"
    using round_up_bounds [of 8 "length name + 280"] by simp_all
qed

lemma length_dirent_bytes [simp]: "length (dirent_bytes base name) = dirent_len name"
  using dirent_len_bounds [of name] by (simp add: dirent_bytes_def min_def)

lemma copy_slice_mid: "length b' = length b \<Longrightarrow> off = length a \<Longrightarrow> copy_slice (a @ b @ c) off b' = a @ b' @ c"
  by (simp add: copy_slice_def)

lemma put_dirent_bytes:
  assumes "dirent_len name \<le> k"
  shows "put_dirent (done @ replicate k 0) (length done) name =
    done @ dirent_bytes (length done) name @ replicate (k - dirent_len name) 0"
proof -
  let ?n = "min 255 (length name)" and ?d = "dirent_len name" and ?z = "\<lambda>n. replicate n (0 :: u8)"
  let ?t = "?z (?d - 19 - ?n) @ ?z (k - ?d)"
  have "k = 8 + (8 + (2 + (1 + (?n + ((?d - 19 - ?n) + (k - ?d))))))"
    using assms dirent_len_bounds [of name] by (simp add: min_def)
  then have "?z k = ?z 8 @ ?z 8 @ ?z 2 @ ?z 1 @ ?z ?n @ ?t" by (metis replicate_add)
  moreover have "copy_slice (done @ ?z 8 @ ?z 8 @ ?z 2 @ ?z 1 @ ?z ?n @ ?t) (length done + 18) [0] =
      done @ ?z 8 @ ?z 8 @ ?z 2 @ [0] @ ?z ?n @ ?t"
    using copy_slice_mid [of "[0]" "?z 1" "length done + 18" "done @ ?z 8 @ ?z 8 @ ?z 2" "?z ?n @ ?t"] by simp
  moreover have "copy_slice (done @ ?z 8 @ ?z 8 @ ?z 2 @ [0] @ ?z ?n @ ?t) (length done + 16) w =
      done @ ?z 8 @ ?z 8 @ w @ [0] @ ?z ?n @ ?t" if "length w = 2" for w
    using copy_slice_mid [of w "?z 2" "length done + 16" "done @ ?z 8 @ ?z 8" "[0] @ ?z ?n @ ?t"] that by simp
  moreover have "copy_slice (done @ ?z 8 @ ?z 8 @ w @ [0] @ ?z ?n @ ?t) (length done) v =
      done @ v @ ?z 8 @ w @ [0] @ ?z ?n @ ?t" if "length v = 8" for v w
    using copy_slice_mid [of v "?z 8" "length done" "done" "?z 8 @ w @ [0] @ ?z ?n @ ?t"] that by simp
  moreover have "copy_slice (done @ v @ ?z 8 @ w @ [0] @ ?z ?n @ ?t) (length done + 8) u =
      done @ v @ u @ w @ [0] @ ?z ?n @ ?t" if "length u = 8" "length v = 8" for u v w
    using copy_slice_mid [of u "?z 8" "length done + 8" "done @ v" "w @ [0] @ ?z ?n @ ?t"] that by simp
  moreover have "copy_slice (done @ v @ u @ w @ [0] @ ?z ?n @ ?t) (length done + 19) (take 255 name) =
      done @ v @ u @ w @ [0] @ take 255 name @ ?t" if "length u = 8" "length v = 8" "length w = 2" for u v w
    using copy_slice_mid [of "take 255 name" "?z ?n" "length done + 19" "done @ v @ u @ w @ [0]" ?t] that by simp
  ultimately show ?thesis by (simp add: put_dirent_def dirent_bytes_def Let_def)
qed

lemma take_to_le_2: "length x = 16 \<Longrightarrow> take 2 (drop 16 (x @ to_le 2 w @ y)) = to_le 2 w"
  by simp

lemma parse_dirent_bytes:
  assumes "length name \<le> 255" and "0 \<notin> set name"
  shows "parse_dirents (dirent_bytes base name @ rest) = name # parse_dirents rest"
proof -
  let ?d = "dirent_len name" and ?pre = "to_le 8 (0 :: u64) @ to_le 8 (of_nat (base + dirent_len name) :: u64)"
  let ?z = "replicate (?d - 19 - length name) (0 :: u8)"
  have split: "dirent_bytes base name = ?pre @ to_le 2 (of_nat ?d :: u16) @ [0] @ name @ ?z"
    using assms(1) by (simp add: dirent_bytes_def min_def)
  have "(from_le (take 2 (drop 16 (dirent_bytes base name @ rest))) :: u16) = of_nat ?d"
    unfolding split using take_to_le_2 [of ?pre "of_nat ?d :: u16"] by (simp add: from_le_to_le)
  moreover have "unat (of_nat ?d :: u16) = ?d"
    using dirent_len_bounds [of name] assms(1) by (intro unat_of_nat_small) simp
  moreover have "take (?d - 19) (drop 19 (dirent_bytes base name @ rest)) = name @ ?z"
    unfolding split using dirent_len_bounds [of name] by simp
  moreover have "takeWhile (\<lambda>b. b \<noteq> 0) (name @ ?z) = name"
    using assms(2) dirent_len_bounds [of name] by (subst takeWhile_append2) auto
  ultimately show ?thesis
    using dirent_len_bounds [of name] by (subst parse_dirents.simps) (simp add: Let_def)
qed

text \<open>Names as the library returns them: at most 255 bytes, no NUL.\<close>

definition name_ok :: "bytes \<Rightarrow> bool" where
  "name_ok name \<longleftrightarrow> length name \<le> 255 \<and> 0 \<notin> set name"

lemma getdents_loop_parse:
  assumes "\<forall>name \<in> set names. name_ok name" and "\<And>rest. parse_dirents (done @ rest) = ps @ parse_dirents rest"
  shows "\<exists>k n out. getdents_loop names (done @ replicate room 0) (length done) offset = ((of_nat n, offset + of_nat k), out) \<and>
    k \<le> length names \<and> n \<le> length done + room \<and> length out = length done + room \<and>
    parse_dirents (take n out) = ps @ take k names \<and> (k = 0 \<longrightarrow> n = length done) \<and>
    (k < length names \<longrightarrow> length done + room < n + dirent_len (names ! k))"
  using assms
proof (induction names arbitrary: "done" room offset ps)
  case Nil
  have "parse_dirents [] = []" by (simp add: parse_dirents.simps)
  then show ?case using Nil(2) [of "[]"] by - (rule exI [of _ 0], rule exI [of _ "length done"], rule exI [of _ "done @ replicate room 0"], simp)
next
  case (Cons name names)
  have nil: "parse_dirents [] = []" by (simp add: parse_dirents.simps)
  show ?case
  proof (cases "dirent_len name \<le> room")
    case False
    then show ?thesis using Cons.prems(2) [of "[]"] nil
      by - (rule exI [of _ 0], rule exI [of _ "length done"], rule exI [of _ "done @ replicate room 0"], simp)
  next
    case True
    let ?done = "done @ dirent_bytes (length done) name"
    have "parse_dirents (?done @ rest) = (ps @ [name]) @ parse_dirents rest" for rest
      using Cons.prems by (simp add: parse_dirent_bytes name_ok_def)
    from Cons.IH [OF _ this, of "room - dirent_len name" "offset + 1"] Cons.prems(1)
    obtain k n out where *: "getdents_loop names (?done @ replicate (room - dirent_len name) 0) (length ?done) (offset + 1) =
        ((of_nat n, offset + 1 + of_nat k), out)" "k \<le> length names" "n \<le> length done + room" "length out = length done + room"
      "parse_dirents (take n out) = (ps @ [name]) @ take k names"
      "k < length names \<longrightarrow> length done + room < n + dirent_len (names ! k)"
      using True by auto
    then show ?thesis using True
      by - (rule exI [of _ "Suc k"], rule exI [of _ n], rule exI [of _ out], simp add: put_dirent_bytes algebra_simps)
  qed
qed

section \<open>A small instance of the libraries\<close>

text \<open>
  A concrete file system and container on which the hypotheses about \<open>ext4_lib\<close> hold: a flat
  directory of files in memory, and a list of slots filled from the front.
\<close>

type_synonym mem_fs = "(bytes \<times> bytes) list"
type_synonym mem_file = "bytes \<times> nat"

definition mem_content :: "bytes \<Rightarrow> mem_fs \<Rightarrow> bytes" where
  "mem_content p f = (case map_of f p of Some c \<Rightarrow> c | None \<Rightarrow> [])"

fun first_free :: "'a option list \<Rightarrow> nat" where
  "first_free (Some _ # xs) = Suc (first_free xs)"
| "first_free _ = 0"

definition mem_lib :: "(mem_fs, mem_file, mem_file option list) ext4_lib" where
  "mem_lib =
     \<lparr> O_CREAT = 0x40, O_TRUNC = 0x200,
       file_new = (\<lambda>p _. (p, 0)),
       check_inode_exist = (\<lambda>p ty h f. ((if ty = EXT4_DE_DIR then p = str ''/'' else p \<in> fst ` set f), h, f)),
       file_open = (\<lambda>p fl h f.
          if p \<in> fst ` set f then (Inr 0, (p, 0), f)
          else if fl AND 0x40 \<noteq> 0 then (Inr 0, (p, 0), (p, []) # f) else (Inl 2, h, f)),
       file_size = (\<lambda>h f. (of_nat (length (mem_content (fst h) f)), h, f)),
       file_seek = (\<lambda>off wh h f. (Inr 0, (fst h, unat off), f)),
       file_read = (\<lambda>buf h f.
          let dat = take (length buf) (drop (snd h) (mem_content (fst h) f))
          in (Inr (of_nat (length dat), copy_slice buf 0 dat), (fst h, snd h + length dat), f)),
       file_write = (\<lambda>dat h f.
          let c = mem_content (fst h) f;
              c' = take (snd h) c @ dat @ drop (snd h + length dat) c
          in (Inr (of_nat (length dat)), (fst h, snd h + length dat), (fst h, c') # f)),
       file_close = (\<lambda>h f. (Inr 0, h, f)),
       dir_mk = (\<lambda>p h f. (Inr 0, h, f)),
       file_remove = (\<lambda>p h f. (Inr 0, h, filter (\<lambda>(q, _). q \<noteq> p) f)),
       file_mode_get = (\<lambda>h f. (Inr 0x81A4, h, f)),
       lwext4_dir_entries = (\<lambda>h f. (Inr (map (\<lambda>(p, _). drop 1 p) f, map (\<lambda>_. EXT4_DE_REG_FILE) f), h, f)),
       st_add = (\<lambda>h s. let i = first_free s in (Some (of_nat i), if i < length s then s[i := Some h] else s @ [Some h])),
       st_get = (\<lambda>s i. if unat i < length s then s ! unat i else None),
       st_set = (\<lambda>i h s. s[unat i := Some h]),
       st_remove = (\<lambda>i s. (if unat i < length s then s ! unat i else None, s[unat i := None])) \<rparr>"

definition sample_ext4 :: "(mem_fs, mem_file option list) ext4fs" where
  "sample_ext4 = \<lparr> ext_fs = [(str ''/a'', str ''hello''), (str ''/bc'', [])], stores = [Some (str ''/'', 0)] \<rparr>"

text \<open>
  C29. A directory listing is complete and readable: \<^verbatim>\<open>getdents64\<close> on an open directory, given a zeroed
  buffer, fills it with records that a reader parses into exactly the names that follow position
  \<^verbatim>\<open>offset\<close>, advances the position by the number of records, stops only when the next record does not
  fit, never writes past the buffer, and makes progress whenever the buffer has room for one record
  of the longest name.
\<close>

theorem getdents64_lists:
  assumes "st_get L (stores e) inode = Some h"
    and "lwext4_dir_entries L h (ext_fs e) = (Inr (names, tys), h1, f1)" and "length tys = length names"
    and "\<forall>name \<in> set names. name_ok name"
  shows "\<exists>k n out. ext4_getdents64 L inode offset (replicate cnt 0) e =
      Some ((of_nat n, offset + of_nat k), out, \<lparr> ext_fs = f1, stores = st_set L inode h1 (stores e) \<rparr>) \<and>
    n \<le> cnt \<and> length out = cnt \<and> parse_dirents (take n out) = take k (drop (unat offset) names) \<and>
    (unat offset + k < length names \<longrightarrow> cnt < n + dirent_len (names ! (unat offset + k))) \<and>
    (536 \<le> cnt \<and> unat offset < length names \<longrightarrow> 0 < k)"
proof -
  let ?rest = "drop (unat offset) names"
  have ok: "\<forall>name \<in> set ?rest. name_ok name" using assms(4) by (meson in_set_dropD)
  have "parse_dirents [] = []" by (simp add: parse_dirents.simps)
  from getdents_loop_parse [OF ok, of "[]" "[]" cnt offset] obtain k n out where
    *: "getdents_loop ?rest (replicate cnt 0) 0 offset = ((of_nat n, offset + of_nat k), out)" "k \<le> length ?rest"
      "n \<le> cnt" "length out = cnt" "parse_dirents (take n out) = take k ?rest" "k = 0 \<longrightarrow> n = 0"
      "k < length ?rest \<longrightarrow> cnt < n + dirent_len (?rest ! k)" by auto
  have "0 < k" if room: "536 \<le> cnt" and more: "unat offset < length names"
  proof (rule ccontr)
    assume "\<not> 0 < k"
    then have "cnt < dirent_len (?rest ! 0)" using *(6,7) more by simp
    moreover have "length (?rest ! 0) \<le> 255" using ok more by (metis drop_eq_Nil leD length_greater_0_conv name_ok_def nth_mem)
    then have "dirent_len (?rest ! 0) \<le> (255 + 287) div 8 * 8"
      unfolding dirent_len_def DIRENT64_SIZE_def by (intro mult_le_mono1 div_le_mono) simp
    ultimately show False using room by simp
  qed
  with * show ?thesis using assms(1-3)
    by - (rule exI [of _ k], rule exI [of _ n], rule exI [of _ out], simp add: ext4_getdents64_def unwrap_def add.commute)
qed

theorem getdents64_lists_witness:
  "\<exists>k n out e'. ext4_getdents64 mem_lib 0 0 (replicate 600 0) sample_ext4 = Some ((of_nat n, of_nat k), out, e') \<and>
     parse_dirents (take n out) = take k [[97], [98, 99]] \<and> 0 < k"
proof -
  have a: "st_get mem_lib (stores sample_ext4) 0 = Some (str ''/'', 0)" by (simp add: mem_lib_def sample_ext4_def)
  have b: "lwext4_dir_entries mem_lib (str ''/'', 0) (ext_fs sample_ext4) =
      (Inr ([[97], [98, 99]], [EXT4_DE_REG_FILE, EXT4_DE_REG_FILE]), (str ''/'', 0), ext_fs sample_ext4)"
    by (simp add: mem_lib_def sample_ext4_def str_def)
  have c: "length [EXT4_DE_REG_FILE, EXT4_DE_REG_FILE] = length [[97], [98, 99 :: u8]]"
    and d: "\<forall>name \<in> set [[97], [98, 99]]. name_ok name" by (simp_all add: name_ok_def)
  from getdents64_lists [OF a b c d, of 0 600]
  obtain k n out where "ext4_getdents64 mem_lib 0 0 (replicate 600 0) sample_ext4 = Some ((of_nat n, 0 + of_nat k), out,
      \<lparr> ext_fs = ext_fs sample_ext4, stores = st_set mem_lib 0 (str ''/'', 0) (stores sample_ext4) \<rparr>)"
    "parse_dirents (take n out) = take k (drop (unat (0 :: usize)) [[97], [98, 99]])"
    "536 \<le> (600 :: nat) \<and> unat (0 :: usize) < length [[97], [98, 99 :: u8]] \<longrightarrow> 0 < k" by blast
  then show ?thesis by - (rule exI [of _ k], rule exI [of _ n], rule exI [of _ out], simp)
qed

end
