(* ===== verification/Utf8.thy ===== *)
theory Utf8
  imports Prelude
begin

text \<open>
  \<^verbatim>\<open>String::from_utf8_lossy\<close> of the standard library, through which every path the layer and the file
  service exchange passes: valid UTF-8 sequences are kept and each maximal ill-formed piece becomes
  the replacement character. A \<^verbatim>\<open>String\<close> is the list of its bytes.
\<close>

definition cont :: "u8 \<Rightarrow> bool" where
  "cont b \<longleftrightarrow> 0x80 \<le> b \<and> b \<le> 0xBF"

text \<open>The second byte allowed after the first of a three-byte and of a four-byte sequence.\<close>

definition second3 :: "u8 \<Rightarrow> u8 \<Rightarrow> bool" where
  "second3 b c \<longleftrightarrow>
     (if b = 0xE0 then 0xA0 \<le> c \<and> c \<le> 0xBF else if b = 0xED then 0x80 \<le> c \<and> c \<le> 0x9F else cont c)"

definition second4 :: "u8 \<Rightarrow> u8 \<Rightarrow> bool" where
  "second4 b c \<longleftrightarrow>
     (if b = 0xF0 then 0x90 \<le> c \<and> c \<le> 0xBF else if b = 0xF4 then 0x80 \<le> c \<and> c \<le> 0x8F else cont c)"

definition replacement :: bytes where
  "replacement = [0xEF, 0xBF, 0xBD]"

fun from_utf8_lossy :: "bytes \<Rightarrow> bytes" where
  "from_utf8_lossy [] = []"
| "from_utf8_lossy (b # bs) =
     (if b < 0x80 then b # from_utf8_lossy bs
      else if 0xC2 \<le> b \<and> b \<le> 0xDF then
        (case bs of
           [] \<Rightarrow> replacement
         | c # cs \<Rightarrow> if cont c then b # c # from_utf8_lossy cs else replacement @ from_utf8_lossy bs)
      else if 0xE0 \<le> b \<and> b \<le> 0xEF then
        (case bs of
           [] \<Rightarrow> replacement
         | c # cs \<Rightarrow>
             if second3 b c then
               (case cs of
                  [] \<Rightarrow> replacement
                | d # ds \<Rightarrow> if cont d then b # c # d # from_utf8_lossy ds else replacement @ from_utf8_lossy cs)
             else replacement @ from_utf8_lossy bs)
      else if 0xF0 \<le> b \<and> b \<le> 0xF4 then
        (case bs of
           [] \<Rightarrow> replacement
         | c # cs \<Rightarrow>
             if second4 b c then
               (case cs of
                  [] \<Rightarrow> replacement
                | d # ds \<Rightarrow>
                    if cont d then
                      (case ds of
                         [] \<Rightarrow> replacement
                       | e # es \<Rightarrow>
                           if cont e then b # c # d # e # from_utf8_lossy es
                           else replacement @ from_utf8_lossy ds)
                    else replacement @ from_utf8_lossy cs)
             else replacement @ from_utf8_lossy bs)
      else replacement @ from_utf8_lossy bs)"

definition is_utf8 :: "bytes \<Rightarrow> bool" where
  "is_utf8 bs \<longleftrightarrow> from_utf8_lossy bs = bs"

section \<open>Lemmas\<close>

lemma lossy_ascii: "\<forall>b \<in> set bs. b < 0x80 \<Longrightarrow> from_utf8_lossy bs = bs"
  by (induction bs) auto

lemma lossy_replacement_append: "from_utf8_lossy (replacement @ bs) = replacement @ from_utf8_lossy bs"
  by (simp add: replacement_def second3_def cont_def)

lemma lossy_replacement: "from_utf8_lossy replacement = replacement"
  using lossy_replacement_append [of "[]"] by simp

declare from_utf8_lossy.simps(2) [simp del]

lemma lossy_step_ascii: "b < 0x80 \<Longrightarrow> from_utf8_lossy (b # bs) = b # from_utf8_lossy bs"
  by (simp add: from_utf8_lossy.simps(2))

lemma lossy_step2:
  "\<not> b < 0x80 \<Longrightarrow> 0xC2 \<le> b \<Longrightarrow> b \<le> 0xDF \<Longrightarrow> cont c \<Longrightarrow> from_utf8_lossy (b # c # cs) = b # c # from_utf8_lossy cs"
  by (simp add: from_utf8_lossy.simps(2))

lemma lossy_step3:
  "\<not> b < 0x80 \<Longrightarrow> \<not> (0xC2 \<le> b \<and> b \<le> 0xDF) \<Longrightarrow> 0xE0 \<le> b \<Longrightarrow> b \<le> 0xEF \<Longrightarrow> second3 b c \<Longrightarrow> cont d \<Longrightarrow>
   from_utf8_lossy (b # c # d # ds) = b # c # d # from_utf8_lossy ds"
  by (simp only: from_utf8_lossy.simps(2) if_False if_True list.case simp_thms)

lemma lossy_step4:
  "\<not> b < 0x80 \<Longrightarrow> \<not> (0xC2 \<le> b \<and> b \<le> 0xDF) \<Longrightarrow> \<not> (0xE0 \<le> b \<and> b \<le> 0xEF) \<Longrightarrow> 0xF0 \<le> b \<Longrightarrow> b \<le> 0xF4 \<Longrightarrow>
   second4 b c \<Longrightarrow> cont d \<Longrightarrow> cont e \<Longrightarrow>
   from_utf8_lossy (b # c # d # e # es) = b # c # d # e # from_utf8_lossy es"
  by (simp only: from_utf8_lossy.simps(2) if_False if_True list.case simp_thms)

text \<open>The result of a lossy conversion is well-formed, so converting again changes nothing.\<close>

lemma lossy_idem: "from_utf8_lossy (from_utf8_lossy bs) = from_utf8_lossy bs"
proof (induction bs rule: from_utf8_lossy.induct)
  case (2 b bs)
  show ?case
    by (subst (1 2) from_utf8_lossy.simps(2))
      (use 2 in \<open>auto simp: lossy_replacement lossy_replacement_append lossy_step_ascii lossy_step2 lossy_step3 lossy_step4
        split: list.splits simp del: replacement_def\<close>)
qed simp

lemma is_utf8_lossy [simp]: "is_utf8 (from_utf8_lossy bs)"
  by (simp add: is_utf8_def lossy_idem)

end
