(* ===== verification/Fs_Protocol.thy ===== *)
theory Fs_Protocol
  imports Ipc_Buffer Utf8
begin

text \<open>
  The wire format between the compatibility layer (\<^verbatim>\<open>lcl/src/fs/ipc_client.rs\<close>) and the file service
  (\<^verbatim>\<open>ext4-srv/src/ipc.rs\<close>, \<^verbatim>\<open>ext4-srv/src/main.rs\<close>): packing bytes into message registers on each
  side, request and response types, and the two routines that write a response. The locale
  \<open>mr_codec\<close> is the contract of an encoder of one side with the decoder of the other; it is
  interpreted for both directions.
\<close>

section \<open>Bytes in message registers\<close>

text \<open>The inner loop over \<^verbatim>\<open>j in 0..8\<close> that builds the word of chunk \<open>i\<close>.\<close>

definition chunk_word :: "bytes \<Rightarrow> nat \<Rightarrow> usize" where
  "chunk_word dat i =
     fold (\<lambda>j word. let idx = i * 8 + j
                    in if idx < length dat then word OR push_bit (j * 8) (ucast (dat ! idx)) else word)
       [0..<8] 0"

definition encode_bytes_to_mrs :: "ipc_buffer \<Rightarrow> bytes \<Rightarrow> usize \<Rightarrow> usize \<times> ipc_buffer" where
  "encode_bytes_to_mrs ib dat start_mr =
     (let num_mrs = (length dat + 7) div 8
      in (of_nat num_mrs, fold (\<lambda>i ib. write_mr ib (start_mr + of_nat i) (chunk_word dat i)) [0..<num_mrs] ib))"

text \<open>\<^verbatim>\<open>((word >> (j * 8)) & 0xFF) as u8\<close>, and the loop pushing the bytes of a word.\<close>

definition mr_byte :: "usize \<Rightarrow> nat \<Rightarrow> u8" where
  "mr_byte word j = ucast (drop_bit (j * 8) word AND 0xFF)"

definition word_bytes :: "usize \<Rightarrow> nat \<Rightarrow> nat \<Rightarrow> bytes" where
  "word_bytes word i len = map (mr_byte word) (filter (\<lambda>j. i * 8 + j < len) [0..<8])"

text \<open>\<^verbatim>\<open>Vec::with_capacity(len)\<close> panics when \<open>len\<close> exceeds \<^verbatim>\<open>isize::MAX\<close>.\<close>

definition decode_bytes_from_mrs :: "ipc_buffer \<Rightarrow> usize \<Rightarrow> usize \<Rightarrow> bytes option" where
  "decode_bytes_from_mrs ib start_mr len =
     (if unat len < 2 ^ 63
      then Some (concat (map (\<lambda>i. word_bytes (read_mr ib (start_mr + of_nat i)) i (unat len))
                           [0..<unat ((len + 7) div 8)]))
      else None)"

definition decode_path_from_mrs :: "ipc_buffer \<Rightarrow> usize \<Rightarrow> usize \<Rightarrow> bytes option" where
  "decode_path_from_mrs ib start_mr path_len =
     (if unat path_len < 2 ^ 63
      then Some (from_utf8_lossy
             (concat (map (\<lambda>i. word_bytes (read_mr ib (start_mr + of_nat i)) i (unat path_len))
                        [0..<unat ((path_len + 7) div 8)])))
      else None)"

definition encode_data_to_mrs :: "ipc_buffer \<Rightarrow> bytes \<Rightarrow> usize \<Rightarrow> usize \<times> ipc_buffer" where
  "encode_data_to_mrs ib dat start_mr =
     (let num_mrs = (length dat + 7) div 8
      in (of_nat num_mrs, fold (\<lambda>i ib. write_mr ib (start_mr + of_nat i) (chunk_word dat i)) [0..<num_mrs] ib))"

section \<open>Requests and responses\<close>

definition PATH_MR_START :: usize where "PATH_MR_START = 5"
definition DATA_MR_START :: usize where "DATA_MR_START = 2"
definition MAX_PATH_IPC :: nat where "MAX_PATH_IPC = (120 - 5) * 8"
definition MAX_DATA_IPC :: nat where "MAX_DATA_IPC = (120 - 2) * 8"
definition RESP_OK :: usize where "RESP_OK = 0"
definition RESP_ERR :: usize where "RESP_ERR = 1"
definition FS_ENDPOINT_SLOT :: usize where "FS_ENDPOINT_SLOT = 100"

datatype fs_request =
    Open (rq_path_addr: usize) (rq_path_len: usize) (rq_flags: u32)
  | Read (rq_fd: usize) (rq_buf_addr: usize) (rq_count: usize)
  | Write (rq_fd: usize) (rq_data_addr: usize) (rq_count: usize)
  | Close (rq_fd: usize)
  | Stat (rq_path_addr: usize) (rq_path_len: usize) (rq_stat_addr: usize)
  | Getdents64 (rq_fd: usize) (rq_buf_addr: usize) (rq_count: usize)
  | Mkdir (rq_path_addr: usize) (rq_path_len: usize)
  | Unlink (rq_path_addr: usize) (rq_path_len: usize)
  | Access (rq_path_addr: usize) (rq_path_len: usize) (rq_access_mode: u32)
  | FileSize (rq_fd: usize)

datatype fs_response =
    Ok usize
  | Ok2 usize usize
  | OkWithData bytes
  | OkWithData2 bytes usize
  | Err i32

definition write_response :: "ipc_buffer \<Rightarrow> fs_response \<Rightarrow> usize \<times> ipc_buffer" where
  "write_response ib resp =
     (case resp of
        Ok val \<Rightarrow> (2, write_mr (write_mr ib 0 RESP_OK) 1 val)
      | Ok2 a b \<Rightarrow> (3, write_mr (write_mr (write_mr ib 0 RESP_OK) 1 a) 2 b)
      | Err errno \<Rightarrow> (2, write_mr (write_mr ib 0 RESP_ERR) 1 (scast errno))
      | OkWithData dat \<Rightarrow>
          let ib1 = write_mr (write_mr ib 0 RESP_OK) 1 (of_nat (length dat));
              (data_mrs, ib2) = encode_data_to_mrs ib1 dat DATA_MR_START
          in (DATA_MR_START + data_mrs, ib2)
      | OkWithData2 dat extra \<Rightarrow>
          let ib1 = write_mr (write_mr (write_mr ib 0 RESP_OK) 1 (of_nat (length dat))) 2 extra;
              (data_mrs, ib2) = encode_data_to_mrs ib1 dat 3
          in (3 + data_mrs, ib2))"

definition write_response_maybe_data :: "ipc_buffer \<Rightarrow> fs_response \<Rightarrow> usize \<times> ipc_buffer" where
  "write_response_maybe_data ib resp =
     (case resp of
        Ok val \<Rightarrow> (2, write_mr (write_mr ib 0 RESP_OK) 1 val)
      | Ok2 a b \<Rightarrow> (3, write_mr (write_mr (write_mr ib 0 RESP_OK) 1 a) 2 b)
      | OkWithData dat \<Rightarrow>
          let ib1 = write_mr (write_mr ib 0 RESP_OK) 1 (of_nat (length dat));
              (data_mrs, ib2) = encode_data_to_mrs ib1 dat DATA_MR_START
          in (DATA_MR_START + data_mrs, ib2)
      | OkWithData2 dat extra \<Rightarrow>
          let ib1 = write_mr (write_mr (write_mr ib 0 RESP_OK) 1 (of_nat (length dat))) 2 extra;
              (data_mrs, ib2) = encode_data_to_mrs ib1 dat 3
          in (3 + data_mrs, ib2)
      | Err errno \<Rightarrow> (2, write_mr (write_mr ib 0 RESP_ERR) 1 (scast errno)))"

section \<open>The packing of bytes\<close>

lemma bit_chunk_fold:
  "bit (fold (\<lambda>j word. let idx = i * 8 + j
              in if idx < length (dat :: bytes) then word OR push_bit (j * 8) (ucast (dat ! idx)) else word) [0..<n] w) k
   \<longleftrightarrow> bit (w :: usize) k \<or> (k < 64 \<and> k div 8 < n \<and> i * 8 + k div 8 < length dat \<and> bit (dat ! (i * 8 + k div 8)) (k mod 8))"
proof (induction n)
  case (Suc n)
  have "bit (push_bit (n * 8) (ucast (dat ! (i * 8 + n))) :: usize) k \<longleftrightarrow>
      k < 64 \<and> k div 8 = n \<and> bit (dat ! (i * 8 + n)) (k mod 8)"
  proof -
    let ?b = "dat ! (i * 8 + n)"
    have "bit ?b (k - n * 8) \<Longrightarrow> k - n * 8 < 8" using bit_imp_le_length [of ?b "k - n * 8"] by simp
    moreover have "n * 8 \<le> k \<Longrightarrow> k - n * 8 < 8 \<Longrightarrow> k div 8 = n" by linarith
    moreover have "k div 8 = n \<Longrightarrow> n * 8 \<le> k \<and> k - n * 8 = k mod 8"
      using div_mult_mod_eq [of k 8] by auto
    moreover have "bit (push_bit (n * 8) (ucast ?b) :: usize) k \<longleftrightarrow> k < 64 \<and> n * 8 \<le> k \<and> bit ?b (k - n * 8)"
      using bit_imp_le_length [of ?b "k - n * 8"] by (auto simp: bit_push_bit_iff bit_ucast_iff)
    ultimately show ?thesis by metis
  qed
  with Suc show ?case by (auto simp: Let_def bit_or_iff less_Suc_eq)
qed simp

lemma mr_byte_bit: "bit (mr_byte w j) k \<longleftrightarrow> k < 8 \<and> bit w (j * 8 + k)"
proof -
  have m: "(0xFF :: usize) = mask 8" by (simp add: mask_eq_exp_minus_1)
  show ?thesis unfolding mr_byte_def m
    by (auto simp: bit_simps simp del: mask_numeral dest: bit_imp_le_length)
qed

lemma mr_byte_chunk:
  assumes "i * 8 + j < length dat" and "j < 8"
  shows "mr_byte (chunk_word dat i) j = dat ! (i * 8 + j)"
proof (rule bit_word_eqI)
  fix k :: nat assume k: "k < LENGTH(8)"
  then have "(j * 8 + k) div 8 = j" "(j * 8 + k) mod 8 = k" "j * 8 + k < 64" using assms(2) by auto
  then show "bit (mr_byte (chunk_word dat i) j) k = bit (dat ! (i * 8 + j)) k"
    using k assms by (simp add: mr_byte_bit chunk_word_def bit_chunk_fold del: div_mult_self3 mod_mult_self3)
qed

lemma filter_upt_less: "filter (\<lambda>j. a + j < len) [0..<n] = [0..<min n (len - a)]"
proof (induction n)
  case (Suc n)
  show ?case
  proof (cases "a + n < len")
    case True
    then have "min (Suc n) (len - a) = Suc n" "min n (len - a) = n" by simp_all
    with Suc True show ?thesis by simp
  next
    case False
    then have "min (Suc n) (len - a) = min n (len - a)" by simp
    with Suc False show ?thesis by simp
  qed
qed simp

lemma concat_word_bytes:
  "concat (map (\<lambda>i. word_bytes (f i) i len) [0..<n]) = map (\<lambda>k. mr_byte (f (k div 8)) (k mod 8)) [0..<min (n * 8) len]"
proof (induction n)
  case (Suc n)
  let ?g = "\<lambda>k. mr_byte (f (k div 8)) (k mod 8)"
  have "word_bytes (f n) n len = map ?g [min (n * 8) len..<min (Suc n * 8) len]"
  proof (cases "n * 8 \<le> len")
    case True
    have "min (Suc n * 8) len - n * 8 = min 8 (len - n * 8)" using True by (auto simp: min_def)
    then have "[min (n * 8) len..<min (Suc n * 8) len] = map (\<lambda>j. j + n * 8) [0..<min 8 (len - n * 8)]"
      using True map_add_upt [of "n * 8" "min 8 (len - n * 8)"] by (simp add: min_def)
    then show ?thesis unfolding word_bytes_def filter_upt_less by (auto simp: comp_def)
  next
    case False
    then show ?thesis unfolding word_bytes_def filter_upt_less by simp
  qed
  moreover have "[0..<min (Suc n * 8) len] = [0..<min (n * 8) len] @ [min (n * 8) len..<min (Suc n * 8) len]"
    using upt_add_eq_append [of 0 "min (n * 8) len" "min (Suc n * 8) len - min (n * 8) len"] by simp
  ultimately show ?case using Suc by simp
qed simp

lemma decode_bytes_nth:
  assumes "unat len < 2 ^ 63"
  shows "decode_bytes_from_mrs ib start len =
    Some (map (\<lambda>k. mr_byte (read_mr ib (start + of_nat (k div 8))) (k mod 8)) [0..<unat len])"
proof -
  have "unat ((len + 7) div 8) = (unat len + 7) div 8"
    using assms by (simp add: unat_div unat_plus_no_wrap)
  moreover have "min ((unat len + 7) div 8 * 8) (unat len) = unat len" by linarith
  ultimately show ?thesis using assms by (simp add: decode_bytes_from_mrs_def concat_word_bytes)
qed

lemma decode_path_lossy:
  "decode_path_from_mrs ib start len = map_option from_utf8_lossy (decode_bytes_from_mrs ib start len)"
  by (simp add: decode_path_from_mrs_def decode_bytes_from_mrs_def)

lemma encode_data_eq: "encode_data_to_mrs = encode_bytes_to_mrs"
  by (simp add: encode_data_to_mrs_def encode_bytes_to_mrs_def fun_eq_iff)

lemma encode_ok [simp]: "ipc_buffer_ok ib \<Longrightarrow> ipc_buffer_ok (snd (encode_bytes_to_mrs ib dat start))"
proof -
  have "ipc_buffer_ok ib \<Longrightarrow> ipc_buffer_ok (fold (\<lambda>i ib. write_mr ib (start + of_nat i) (f i)) is ib)" for f "is" ib
    by (induction "is" arbitrary: ib) simp_all
  then show "ipc_buffer_ok ib \<Longrightarrow> ?thesis" by (simp add: encode_bytes_to_mrs_def Let_def)
qed

lemma read_mr_fold_write:
  assumes "ipc_buffer_ok ib" and "unat start + n \<le> 120"
  shows "read_mr (fold (\<lambda>i ib. write_mr ib (start + of_nat i) (f i)) [0..<n] ib) r =
    (if unat start \<le> unat r \<and> unat r < unat start + n then f (unat r - unat start) else read_mr ib r) \<and>
    ipc_buffer_ok (fold (\<lambda>i ib. write_mr ib (start + of_nat i) (f i)) [0..<n] ib)"
  using assms(2)
proof (induction n)
  case (Suc n)
  then have "unat (of_nat n :: usize) = n" by (intro unat_of_nat_small) simp
  then have "unat (start + of_nat n) = unat start + n"
    using Suc.prems unat_plus_no_wrap [of start "of_nat n"] by simp
  then show ?case using Suc by (auto simp: read_mr_write_mr word_unat_eq_iff less_Suc_eq)
qed (auto simp: assms)

lemma read_mr_encode:
  assumes "ipc_buffer_ok ib" and "unat start + (length dat + 7) div 8 \<le> 120"
  shows "read_mr (snd (encode_bytes_to_mrs ib dat start)) r =
    (if unat start \<le> unat r \<and> unat r < unat start + (length dat + 7) div 8
     then chunk_word dat (unat r - unat start) else read_mr ib r)"
  using read_mr_fold_write [OF assms] by (simp add: encode_bytes_to_mrs_def Let_def)

lemma read_mr_encode_below:
  "ipc_buffer_ok ib \<Longrightarrow> unat start + (length dat + 7) div 8 \<le> 120 \<Longrightarrow> r < start \<Longrightarrow>
   read_mr (snd (encode_bytes_to_mrs ib dat start)) r = read_mr ib r"
  by (simp add: read_mr_encode word_less_nat_alt)

lemma decode_encode_bytes:
  assumes "ipc_buffer_ok ib" and fits: "unat start + (length dat + 7) div 8 \<le> 120"
  shows "decode_bytes_from_mrs (snd (encode_bytes_to_mrs ib dat start)) start (of_nat (length dat)) = Some dat"
proof -
  have len: "unat (of_nat (length dat) :: usize) = length dat"
    using fits by (intro unat_of_nat_small) simp
  have "mr_byte (read_mr (snd (encode_bytes_to_mrs ib dat start)) (start + of_nat (k div 8))) (k mod 8) = dat ! k"
    if k: "k < length dat" for k
  proof -
    have lt: "k div 8 < (length dat + 7) div 8" using k by linarith
    then have "unat (of_nat (k div 8) :: usize) = k div 8" using fits by (intro unat_of_nat_small) simp
    then have "unat (start + of_nat (k div 8)) = unat start + k div 8"
      using lt fits unat_plus_no_wrap [of start "of_nat (k div 8)"] by simp
    then have "read_mr (snd (encode_bytes_to_mrs ib dat start)) (start + of_nat (k div 8)) = chunk_word dat (k div 8)"
      using lt by (simp add: read_mr_encode [OF assms])
    then show ?thesis using k mr_byte_chunk [of "k div 8" "k mod 8" dat] by simp
  qed
  then have "map (\<lambda>k. mr_byte (read_mr (snd (encode_bytes_to_mrs ib dat start)) (start + of_nat (k div 8))) (k mod 8)) [0..<length dat] = dat"
    by (intro nth_equalityI) simp_all
  moreover have "length dat < 2 ^ 63" using fits by simp
  ultimately show ?thesis by (simp add: decode_bytes_nth len)
qed

section \<open>The contract of an encoder and a decoder\<close>

text \<open>\<open>fits n start dat\<close>: the bytes have room in the registers from \<open>start\<close> on.\<close>

definition mr_fits :: "usize \<Rightarrow> bytes \<Rightarrow> bool" where
  "mr_fits start dat \<longleftrightarrow> unat start + (length dat + 7) div 8 \<le> 120"

locale mr_codec =
  fixes enc :: "ipc_buffer \<Rightarrow> bytes \<Rightarrow> usize \<Rightarrow> usize \<times> ipc_buffer"
    and dec :: "ipc_buffer \<Rightarrow> usize \<Rightarrow> usize \<Rightarrow> bytes option"
    and valid :: "bytes \<Rightarrow> bool"
  assumes enc_keeps_ok: "ipc_buffer_ok ib \<Longrightarrow> ipc_buffer_ok (snd (enc ib dat start))"
    and enc_count: "fst (enc ib dat start) = of_nat ((length dat + 7) div 8)"
    and dec_enc: "ipc_buffer_ok ib \<Longrightarrow> mr_fits start dat \<Longrightarrow> valid dat \<Longrightarrow>
      dec (snd (enc ib dat start)) start (of_nat (length dat)) = Some dat"
    and enc_below: "ipc_buffer_ok ib \<Longrightarrow> mr_fits start dat \<Longrightarrow> r < start \<Longrightarrow>
      read_mr (snd (enc ib dat start)) r = read_mr ib r"
begin

text \<open>A message of a header and a payload: the header words and the payload both arrive.\<close>

lemma header_and_payload:
  assumes "ipc_buffer_ok ib" and "mr_fits start dat" and "valid dat"
    and hdr: "\<And>r. r < start \<Longrightarrow> read_mr ib r = h r"
  shows "dec (snd (enc ib dat start)) start (of_nat (length dat)) = Some dat \<and>
    (\<forall>r < start. read_mr (snd (enc ib dat start)) r = h r)"
  using assms by (simp add: dec_enc enc_below)

end

interpretation to_server: mr_codec encode_bytes_to_mrs decode_path_from_mrs is_utf8
proof
  show "decode_path_from_mrs (snd (encode_bytes_to_mrs ib dat start)) start (of_nat (length dat)) = Some dat"
    if "ipc_buffer_ok ib" "mr_fits start dat" "is_utf8 dat" for ib dat start
    using that by (simp add: decode_path_lossy decode_encode_bytes mr_fits_def is_utf8_def)
qed (simp_all add: read_mr_encode_below mr_fits_def encode_bytes_to_mrs_def [THEN arg_cong, of fst] Let_def)

interpretation to_client: mr_codec encode_data_to_mrs decode_bytes_from_mrs "\<lambda>_. True"
  by unfold_locales
    (simp_all add: encode_data_eq decode_encode_bytes read_mr_encode_below mr_fits_def
      encode_bytes_to_mrs_def [THEN arg_cong, of fst] Let_def)

lemma write_response_eq: "write_response_maybe_data = write_response"
  by (simp add: fun_eq_iff write_response_def write_response_maybe_data_def split: fs_response.splits)

lemma write_response_ok [simp]: "ipc_buffer_ok ib \<Longrightarrow> ipc_buffer_ok (snd (write_response ib resp))"
  by (cases resp) (auto simp: write_response_def Let_def split_beta to_client.enc_keeps_ok)

lemma scast_ucast_i32 [simp]: "ucast (scast (e :: i32) :: usize) = e"
  by (rule bit_word_eqI) (auto simp: bit_simps)

section \<open>What a response writes\<close>

text \<open>A payload never reaches back into the registers before it, even one that runs past the last register.\<close>

lemma read_mr_fold_low:
  assumes "ipc_buffer_ok ib" and "unat r < unat start" and "unat start + n \<le> 2 ^ 64"
  shows "read_mr (fold (\<lambda>i ib. write_mr ib (start + of_nat i) (f i)) [0..<n] ib) r = read_mr ib r \<and>
    ipc_buffer_ok (fold (\<lambda>i ib. write_mr ib (start + of_nat i) (f i)) [0..<n] ib)"
  using assms(3)
proof (induction n)
  case (Suc n)
  then have "unat (of_nat n :: usize) = n" by (intro unat_of_nat_small) simp
  then have "unat (start + of_nat n) = unat start + n" using Suc.prems unat_plus_no_wrap [of start "of_nat n"] by simp
  then have "r \<noteq> start + of_nat n" using assms(2) by auto
  then show ?case using Suc by (simp add: read_mr_write_mr)
qed (simp add: assms)

lemma read_mr_data_low:
  "ipc_buffer_ok ib \<Longrightarrow> unat r < unat start \<Longrightarrow> unat start + length dat < 2 ^ 64 \<Longrightarrow>
   read_mr (snd (encode_data_to_mrs ib dat start)) r = read_mr ib r"
  using read_mr_fold_low [of ib r start "(length dat + 7) div 8"] by (simp add: encode_data_to_mrs_def Let_def)

text \<open>The bytes a response carries, and the message registers it takes.\<close>

fun response_bytes :: "fs_response \<Rightarrow> nat" where
  "response_bytes (OkWithData dat) = length dat"
| "response_bytes (OkWithData2 dat _) = length dat"
| "response_bytes _ = 0"

fun response_mrs :: "fs_response \<Rightarrow> nat" where
  "response_mrs (Ok _) = 2"
| "response_mrs (Ok2 _ _) = 3"
| "response_mrs (Err _) = 2"
| "response_mrs (OkWithData dat) = 2 + (length dat + 7) div 8"
| "response_mrs (OkWithData2 dat _) = 3 + (length dat + 7) div 8"

lemma response_mrs_bounds: "2 \<le> response_mrs resp" "response_mrs resp \<le> 3 + (response_bytes resp + 7) div 8"
  by (cases resp; simp)+

lemma write_response_count:
  assumes "response_bytes resp < 2 ^ 63"
  shows "unat (fst (write_response ib resp)) = response_mrs resp"
proof -
  have "unat (k + of_nat n :: usize) = unat k + n" if "unat k < 4" "n < 2 ^ 61" for k n
  proof -
    have "unat (of_nat n :: usize) = n" using that by (intro unat_of_nat_small) simp
    then show ?thesis using that unat_plus_no_wrap [of k "of_nat n"] by simp
  qed
  then show ?thesis using assms
    by (cases resp) (simp_all add: write_response_def split_beta to_client.enc_count DATA_MR_START_def)
qed

lemma write_response_status:
  assumes "ipc_buffer_ok ib" and "response_bytes resp < 2 ^ 63"
  shows "read_mr (snd (write_response ib resp)) 0 = (case resp of Err _ \<Rightarrow> RESP_ERR | _ \<Rightarrow> RESP_OK)"
  using assms by (cases resp) (simp_all add: write_response_def split_beta Let_def read_mr_data_low read_mr_write_mr DATA_MR_START_def)

text \<open>The reply tag keeps seven bits of the register count.\<close>

lemma masked_count:
  assumes "unat n < 128"
  shows "unat (n AND 0x7F :: usize) = unat n"
proof -
  have "(0x7F :: usize) = mask 7" by (simp add: mask_eq_exp_minus_1)
  then show ?thesis using assms by (simp only: take_bit_eq_mask [symmetric] unsigned_take_bit_eq) (simp add: take_bit_eq_mod)
qed

end
