(* ===== verification/Fd_Table.thy ===== *)
theory Fd_Table
  imports Prelude
begin

text \<open>
  The descriptor tables of the file service (\<^verbatim>\<open>ext4-srv/src/service.rs\<close>) and of its client
  (\<^verbatim>\<open>lcl/src/fs/ipc_client.rs\<close>): both are a \<^verbatim>\<open>Vec<Option<_>>\<close> with a counter \<^verbatim>\<open>next_fd\<close>, entries 0 to 2
  reserved. The locale \<open>fd_allocator\<close> is what the rest of each component relies on: a new descriptor
  was never handed out before. Each side interprets it on its own state.
\<close>

section \<open>Tables\<close>

text \<open>\<^verbatim>\<open>fd_table.get(fd)\<close>, flattened.\<close>

definition table_get :: "'v option list \<Rightarrow> usize \<Rightarrow> 'v option" where
  "table_get tbl fd = (if unat fd < length tbl then tbl ! unat fd else None)"

text \<open>
  Taking the next descriptor, growing the table up to it and storing the entry. A \<^verbatim>\<open>Vec\<close> holds at most
  \<^verbatim>\<open>isize::MAX\<close> elements; growing past that panics.
\<close>

definition table_open :: "'v \<Rightarrow> 'v option list \<Rightarrow> usize \<Rightarrow> (usize \<times> 'v option list \<times> usize) option" where
  "table_open v tbl next_fd =
     (let fd = next_fd;
          grown = tbl @ replicate (Suc (unat fd) - length tbl) None
      in if length grown < 2 ^ 63 then Some (fd, grown[unat fd := Some v], next_fd + 1) else None)"

definition table_new :: "'v option list" where
  "table_new = [None, None, None]"

definition table_inv :: "'v option list \<Rightarrow> usize \<Rightarrow> bool" where
  "table_inv tbl next_fd \<longleftrightarrow>
     unat next_fd = length tbl \<and> 3 \<le> length tbl \<and> length tbl < 2 ^ 63 \<and> (\<forall>i < 3. tbl ! i = None)"

lemma table_inv_new [simp]: "table_inv (table_new :: 'v option list) 3"
proof -
  have "([None, None, None] :: 'v option list) ! i = None" if "i < 3" for i using that by (cases i; cases "i - 1") auto
  then show ?thesis by (simp add: table_inv_def table_new_def)
qed

lemma table_inv_open:
  assumes "table_inv tbl nxt" and "table_open v tbl nxt = Some (fd, tbl', nxt')"
  shows "table_inv tbl' nxt'" and "fd = nxt" and "nxt' = nxt + 1" and "length tbl' = Suc (length tbl)"
    and "table_get tbl' f = (if f = fd then Some v else table_get tbl f)"
proof -
  from assms have l: "unat nxt = length tbl" "3 \<le> length tbl" "length (tbl @ [None]) < 2 ^ 63"
    and r: "fd = nxt" "tbl' = tbl @ [Some v]" "nxt' = nxt + 1"
    by (auto simp: table_inv_def table_open_def Let_def split: if_splits)
  have n: "unat (nxt + 1) = unat nxt + 1" using l unat_plus_no_wrap [of nxt 1] by simp
  show "fd = nxt" "nxt' = nxt + 1" "length tbl' = Suc (length tbl)" using r by simp_all
  show "table_inv tbl' nxt'" using assms(1) l r n by (auto simp: table_inv_def nth_append)
  show "table_get tbl' f = (if f = fd then Some v else table_get tbl f)"
    using r l by (auto simp: table_get_def nth_append word_unat_eq_iff)
qed

lemma table_open_total:
  "table_inv tbl nxt \<Longrightarrow> length tbl + 1 < 2 ^ 63 \<Longrightarrow> \<exists>tbl'. table_open v tbl nxt = Some (nxt, tbl', nxt + 1)"
  by (simp add: table_inv_def table_open_def Let_def)

lemma table_open_new: "table_open v table_new 3 = Some (3, [None, None, None, Some v], 4)"
proof -
  have "unat (3 :: usize) = Suc (Suc (Suc 0))" by simp
  then show ?thesis by (simp add: table_open_def table_new_def Let_def del: unsigned_numeral)
qed

lemma table_inv_clear: "table_inv tbl nxt \<Longrightarrow> table_inv (tbl[i := None]) nxt"
  by (cases "i < length tbl") (auto simp: table_inv_def nth_list_update)

lemma table_get_clear: "table_get (tbl[unat fd := None]) f = (if f = fd then None else table_get tbl f)"
  by (auto simp: table_get_def nth_list_update word_unat_eq_iff)

lemma table_get_bound: "table_get tbl fd = Some v \<Longrightarrow> unat fd < length tbl"
  by (auto simp: table_get_def split: if_splits)

lemma table_get_reserved: "table_inv tbl nxt \<Longrightarrow> fd \<le> 2 \<Longrightarrow> table_get tbl fd = None"
  by (auto simp: table_inv_def table_get_def word_le_nat_alt)

lemma table_get_update:
  "unat fd < length tbl \<Longrightarrow> table_get (tbl[unat fd := Some v]) f = (if f = fd then Some v else table_get tbl f)"
  by (auto simp: table_get_def nth_list_update word_unat_eq_iff)

lemma table_inv_update: "table_inv tbl nxt \<Longrightarrow> \<not> fd \<le> (2 :: usize) \<Longrightarrow> table_inv (tbl[unat fd := Some v]) nxt"
  by (cases "unat fd < length tbl") (auto simp: table_inv_def nth_list_update word_le_nat_alt)

section \<open>The contract\<close>

datatype 'v fd_op = FdOpen 'v | FdClose usize

fun fd_run :: "('v \<Rightarrow> 's \<Rightarrow> (usize \<times> 's) option) \<Rightarrow> (usize \<Rightarrow> 's \<Rightarrow> 's) \<Rightarrow> 'v fd_op list \<Rightarrow> 's \<Rightarrow> (usize list \<times> 's) option" where
  "fd_run opn cls [] s = Some ([], s)"
| "fd_run opn cls (FdOpen v # ops) s =
     do { (fd, s1) \<leftarrow> opn v s; (fds, s2) \<leftarrow> fd_run opn cls ops s1; Some (fd # fds, s2) }"
| "fd_run opn cls (FdClose fd # ops) s = fd_run opn cls ops (cls fd s)"

locale fd_allocator =
  fixes fget :: "'s \<Rightarrow> usize \<Rightarrow> 'v option"
    and fopen :: "'v \<Rightarrow> 's \<Rightarrow> (usize \<times> 's) option"
    and fclose :: "usize \<Rightarrow> 's \<Rightarrow> 's"
    and finv :: "'s \<Rightarrow> bool"
    and fbound :: "'s \<Rightarrow> nat"
  assumes open_inv: "finv s \<Longrightarrow> fopen v s = Some (fd, s') \<Longrightarrow> finv s'"
    and open_fresh: "finv s \<Longrightarrow> fopen v s = Some (fd, s') \<Longrightarrow> unat fd = fbound s \<and> fbound s' = Suc (fbound s)"
    and open_get: "finv s \<Longrightarrow> fopen v s = Some (fd, s') \<Longrightarrow> fget s' f = (if f = fd then Some v else fget s f)"
    and close_inv: "finv s \<Longrightarrow> finv (fclose fd s)"
    and close_bound: "finv s \<Longrightarrow> fbound (fclose fd s) = fbound s"
    and close_get: "finv s \<Longrightarrow> fget (fclose fd s) f = (if f = fd then None else fget s f)"
    and get_bound: "finv s \<Longrightarrow> fget s fd = Some v \<Longrightarrow> unat fd < fbound s"
begin

lemma open_not_open: "finv s \<Longrightarrow> fopen v s = Some (fd, s') \<Longrightarrow> fget s fd = None"
  using open_fresh [of s v fd s'] get_bound [of s fd] by (cases "fget s fd") auto

lemma run_inv_fresh:
  "finv s \<Longrightarrow> fd_run fopen fclose ops s = Some (fds, s') \<Longrightarrow>
   finv s' \<and> distinct fds \<and> fbound s \<le> fbound s' \<and> (\<forall>fd \<in> set fds. fbound s \<le> unat fd \<and> unat fd < fbound s')"
proof (induction ops arbitrary: s fds)
  case (Cons op ops)
  show ?case
  proof (cases op)
    case (FdOpen v)
    with Cons.prems obtain fd s1 fds1 where r: "fopen v s = Some (fd, s1)" "fd_run fopen fclose ops s1 = Some (fds1, s')" "fds = fd # fds1"
      by (auto split: bind_splits)
    with Cons.IH [of s1 fds1] open_inv [OF Cons.prems(1) r(1)] open_fresh [OF Cons.prems(1) r(1)] show ?thesis
      by (auto simp: Suc_le_eq)
  next
    case (FdClose fd)
    with Cons.IH [of "fclose fd s" fds] Cons.prems close_inv [of s fd] close_bound [of s fd] show ?thesis by auto
  qed
qed simp

text \<open>No descriptor is handed out twice, and a closed descriptor stays closed.\<close>

lemma closed_stays_closed:
  "finv s \<Longrightarrow> unat fd < fbound s \<Longrightarrow> fget s fd = None \<Longrightarrow> fd_run fopen fclose ops s = Some (fds, s') \<Longrightarrow> fget s' fd = None"
proof (induction ops arbitrary: s fds)
  case (Cons op ops)
  show ?case
  proof (cases op)
    case (FdOpen v)
    with Cons.prems obtain fd1 s1 fds1 where r: "fopen v s = Some (fd1, s1)" "fd_run fopen fclose ops s1 = Some (fds1, s')"
      by (auto split: bind_splits)
    with Cons.IH [of s1 fds1] Cons.prems open_inv [OF Cons.prems(1) r(1)] open_fresh [OF Cons.prems(1) r(1)]
      open_get [OF Cons.prems(1) r(1), of fd] show ?thesis by (auto split: if_splits)
  next
    case (FdClose fd1)
    with Cons.IH [of "fclose fd1 s" fds] Cons.prems close_inv [of s fd1] close_bound [of s fd1] close_get [of s fd1 fd]
    show ?thesis by auto
  qed
qed simp

end

end
