(* ===== verification/Ext4_Service.thy ===== *)
theory Ext4_Service
  imports Ext4_Fs Fs_Protocol Fd_Table Sel4_Syscalls
begin

text \<open>
  The file service: \<^verbatim>\<open>FsService\<close> and its handlers (\<^verbatim>\<open>ext4-srv/src/service.rs\<close>) and the message loop
  (\<^verbatim>\<open>ext4-srv/src/main.rs\<close>). The file system behind it is any implementation of \<^verbatim>\<open>FSIface\<close>, the
  parameter \<open>I\<close>; the program uses \<open>ext4fs_iface\<close>. A handler returns \<open>None\<close> when it panics.
\<close>

section \<open>State\<close>

record file_entry =
  fe_path :: bytes
  fe_inode :: usize
  fe_size :: usize
  fe_offset :: usize
  fe_flags :: u32

record 'e fs_service =
  fs :: 'e
  fd_table :: "file_entry option list"
  next_fd :: usize

definition fs_service_new :: "'e \<Rightarrow> 'e fs_service" where
  "fs_service_new e = \<lparr> fs = e, fd_table = table_new, next_fd = 3 \<rparr>"

definition set_entry :: "usize \<Rightarrow> file_entry \<Rightarrow> 'e fs_service \<Rightarrow> 'e fs_service" where
  "set_entry fd en s = s\<lparr> fd_table := (fd_table s)[unat fd := Some en] \<rparr>"

text \<open>The allocation of a descriptor in \<^verbatim>\<open>handle_open_with_path\<close>, and its release in \<^verbatim>\<open>handle_close\<close>.\<close>

definition srv_open :: "file_entry \<Rightarrow> 'e fs_service \<Rightarrow> (usize \<times> 'e fs_service) option" where
  "srv_open en s =
     do { (fd, tbl, nxt) \<leftarrow> table_open en (fd_table s) (next_fd s); Some (fd, s\<lparr> fd_table := tbl, next_fd := nxt \<rparr>) }"

definition srv_close :: "usize \<Rightarrow> 'e fs_service \<Rightarrow> 'e fs_service" where
  "srv_close fd s = s\<lparr> fd_table := (fd_table s)[unat fd := None] \<rparr>"

section \<open>Handlers for paths\<close>

definition handle_open_with_path ::
  "'e fs_iface \<Rightarrow> bytes \<Rightarrow> u32 \<Rightarrow> 'e fs_service \<Rightarrow> (fs_response \<times> 'e fs_service) option" where
  "handle_open_with_path I path fl s =
     (if path = [] then Some (Err (- 22), s)
      else do {
        (r, e) \<leftarrow> i_open I path fl (fs s);
        (case r of
           Inl err \<Rightarrow> Some (Err err, s\<lparr> fs := e \<rparr>)
         | Inr (inode, sz) \<Rightarrow> do {
             (fd, s1) \<leftarrow> srv_open
               \<lparr> fe_path = path, fe_inode = inode, fe_size = sz, fe_offset = 0, fe_flags = fl \<rparr> (s\<lparr> fs := e \<rparr>);
             Some (Ok fd, s1)
           })
      })"

text \<open>The 20 bytes of a stat reply.\<close>

definition stat_bytes :: "stat \<Rightarrow> bytes" where
  "stat_bytes st =
     to_le 4 (st_mode st) @ to_le 4 (ucast (st_size st) :: u32) @ to_le 4 (ucast (drop_bit 32 (st_size st)) :: u32) @
     to_le 4 (ucast (st_ino st) :: u32) @ to_le 4 (st_nlink st)"

definition handle_stat_with_path :: "'e fs_iface \<Rightarrow> bytes \<Rightarrow> 'e fs_service \<Rightarrow> (fs_response \<times> 'e fs_service) option" where
  "handle_stat_with_path I path s =
     (if path = [] then Some (Err (- 22), s)
      else do {
        (r, e) \<leftarrow> i_open I path 0 (fs s);
        (case r of
           Inl err \<Rightarrow> Some (Err err, s\<lparr> fs := e \<rparr>)
         | Inr (inode, _) \<Rightarrow> do {
             (st, e1) \<leftarrow> i_stat I inode e;
             e2 \<leftarrow> i_close I inode e1;
             Some (OkWithData (stat_bytes st), s\<lparr> fs := e2 \<rparr>)
           })
      })"

definition handle_mkdir_with_path :: "'e fs_iface \<Rightarrow> bytes \<Rightarrow> 'e fs_service \<Rightarrow> (fs_response \<times> 'e fs_service) option" where
  "handle_mkdir_with_path I path s =
     (if path = [] then Some (Err (- 22), s)
      else do { e \<leftarrow> i_mkdir I path (fs s); Some (Ok 0, s\<lparr> fs := e \<rparr>) })"

definition handle_unlink_with_path :: "'e fs_iface \<Rightarrow> bytes \<Rightarrow> 'e fs_service \<Rightarrow> (fs_response \<times> 'e fs_service) option" where
  "handle_unlink_with_path I path s =
     (if path = [] then Some (Err (- 22), s)
      else do { e \<leftarrow> i_unlink I path (fs s); Some (Ok 0, s\<lparr> fs := e \<rparr>) })"

definition handle_access_with_path :: "'e fs_iface \<Rightarrow> bytes \<Rightarrow> 'e fs_service \<Rightarrow> (fs_response \<times> 'e fs_service) option" where
  "handle_access_with_path I path s =
     (if path = [] then Some (Err (- 22), s)
      else do {
        (r, e) \<leftarrow> i_open I path 0 (fs s);
        (case r of
           Inl _ \<Rightarrow> Some (Err (- 2), s\<lparr> fs := e \<rparr>)
         | Inr (inode, _) \<Rightarrow> do { e1 \<leftarrow> i_close I inode e; Some (Ok 0, s\<lparr> fs := e1 \<rparr>) })
      })"

section \<open>Handlers for descriptors\<close>

text \<open>Descriptors 1 and 2 print through the kernel, so this handler also takes the machine.\<close>

definition handle_write_with_data ::
  "'k kernel \<Rightarrow> 'e fs_iface \<Rightarrow> usize \<Rightarrow> bytes \<Rightarrow> 'e fs_service \<Rightarrow> 'k machine \<Rightarrow>
   (fs_response \<times> 'e fs_service \<times> 'k machine) option" where
  "handle_write_with_data kern I fd dat s m =
     (if fd = 0 then Some (Err (- 9), s, m)
      else if fd = 1 \<or> fd = 2 then Some (Ok (of_nat (length dat)), s, fold (seL4_DebugPutChar kern) dat m)
      else case table_get (fd_table s) fd of
             Some en \<Rightarrow> do {
               (n, e) \<leftarrow> i_write_at I (fe_inode en) (fe_offset en) dat (fs s);
               Some (Ok n, s\<lparr> fs := e \<rparr>, m)
             }
           | None \<Rightarrow> Some (Err (- 9), s, m))"

definition handle_lseek :: "usize \<Rightarrow> isize \<Rightarrow> i32 \<Rightarrow> 'e fs_service \<Rightarrow> fs_response \<times> 'e fs_service" where
  "handle_lseek fd offset whence s =
     (if fd \<le> 2 then (Err (- 29), s)
      else case table_get (fd_table s) fd of
             None \<Rightarrow> (Err (- 9), s)
           | Some en \<Rightarrow>
               let new_off =
                 (if whence = 0 then (if sint offset < 0 then None else Some offset)
                  else if whence = 1 then Some (fe_offset en + offset)
                  else if whence = 2 then (if sint offset > 0 then None else Some (fe_size en + offset))
                  else None)
               in case new_off of
                    None \<Rightarrow> (Err (- 22), s)
                  | Some off \<Rightarrow> (Ok off, set_entry fd (en\<lparr> fe_offset := off \<rparr>) s))"

text \<open>\<^verbatim>\<open>vec![0u8; count]\<close> panics when \<open>count\<close> exceeds \<^verbatim>\<open>isize::MAX\<close>.\<close>

definition zeroed :: "usize \<Rightarrow> bytes option" where
  "zeroed n = (if unat n < 2 ^ 63 then Some (replicate (unat n) 0) else None)"

definition handle_read :: "'e fs_iface \<Rightarrow> usize \<Rightarrow> usize \<Rightarrow> 'e fs_service \<Rightarrow> (fs_response \<times> 'e fs_service) option" where
  "handle_read I fd cnt s =
     (if fd = 0 then Some (Ok 0, s)
      else if fd = 1 \<or> fd = 2 then Some (Err (- 9), s)
      else case table_get (fd_table s) fd of
             Some en \<Rightarrow> do {
               buf \<leftarrow> zeroed cnt;
               ((bytes_read, buf1), e) \<leftarrow> i_read_at I (fe_inode en) (fe_offset en) buf (fs s);
               Some (OkWithData (take (unat bytes_read) buf1),
                     set_entry fd (en\<lparr> fe_offset := fe_offset en + bytes_read \<rparr>) (s\<lparr> fs := e \<rparr>))
             }
           | None \<Rightarrow> Some (Err (- 9), s))"

definition handle_close :: "'e fs_iface \<Rightarrow> usize \<Rightarrow> 'e fs_service \<Rightarrow> (fs_response \<times> 'e fs_service) option" where
  "handle_close I fd s =
     (if fd \<le> 2 then Some (Ok 0, s)
      else case table_get (fd_table s) fd of
             Some en \<Rightarrow> do {
               e \<leftarrow> i_close I (fe_inode en) (fs s);
               Some (Ok 0, srv_close fd (s\<lparr> fs := e \<rparr>))
             }
           | None \<Rightarrow> Some (Err (- 9), s))"

definition handle_getdents64 :: "'e fs_iface \<Rightarrow> usize \<Rightarrow> usize \<Rightarrow> 'e fs_service \<Rightarrow> (fs_response \<times> 'e fs_service) option" where
  "handle_getdents64 I fd cnt s =
     (case table_get (fd_table s) fd of
        Some en \<Rightarrow> do {
          buf \<leftarrow> zeroed cnt;
          ((bytes_read, new_offset), buf1, e) \<leftarrow> i_getdents64 I (fe_inode en) (fe_offset en) buf (fs s);
          Some (OkWithData2 (take (unat bytes_read) buf1) new_offset,
                set_entry fd (en\<lparr> fe_offset := new_offset \<rparr>) (s\<lparr> fs := e \<rparr>))
        }
      | None \<Rightarrow> Some (Err (- 9), s))"

definition handle_file_size :: "usize \<Rightarrow> 'e fs_service \<Rightarrow> fs_response" where
  "handle_file_size fd s =
     (case table_get (fd_table s) fd of Some en \<Rightarrow> Ok (fe_size en) | None \<Rightarrow> Err (- 9))"

definition handle_request :: "'e fs_iface \<Rightarrow> fs_request \<Rightarrow> 'e fs_service \<Rightarrow> (fs_response \<times> 'e fs_service) option" where
  "handle_request I request s =
     (case request of
        Read fd _ cnt \<Rightarrow> handle_read I fd cnt s
      | Close fd \<Rightarrow> handle_close I fd s
      | Getdents64 fd _ cnt \<Rightarrow> handle_getdents64 I fd cnt s
      | FileSize fd \<Rightarrow> Some (handle_file_size fd s, s)
      | _ \<Rightarrow> Some (Err (- 38), s))"

section \<open>The message loop\<close>

text \<open>Writing a response into the buffer; the first component is the number of message registers.\<close>

definition reply_with ::
  "(ipc_buffer \<Rightarrow> fs_response \<Rightarrow> usize \<times> ipc_buffer) \<Rightarrow> fs_response \<Rightarrow> 'k machine \<Rightarrow> usize \<times> 'k machine" where
  "reply_with wr resp m = (let (n, ib) = wr (ipc_buf m) resp in (n, m\<lparr> ipc_buf := ib \<rparr>))"

definition on_path ::
  "(bytes \<Rightarrow> 'e fs_service \<Rightarrow> (fs_response \<times> 'e fs_service) option) \<Rightarrow> 'e fs_service \<Rightarrow> 'k machine \<Rightarrow>
   (usize \<times> 'e fs_service \<times> 'k machine) option" where
  "on_path handler s m =
     do {
       path \<leftarrow> decode_path_from_mrs (ipc_buf m) PATH_MR_START (read_mr (ipc_buf m) 2);
       (resp, s1) \<leftarrow> handler path s;
       let (n, m1) = reply_with write_response resp m;
       Some (n, s1, m1)
     }"

definition on_request ::
  "(ipc_buffer \<Rightarrow> fs_response \<Rightarrow> usize \<times> ipc_buffer) \<Rightarrow> 'e fs_iface \<Rightarrow> fs_request \<Rightarrow> 'e fs_service \<Rightarrow> 'k machine \<Rightarrow>
   (usize \<times> 'e fs_service \<times> 'k machine) option" where
  "on_request wr I request s m =
     do {
       (resp, s1) \<leftarrow> handle_request I request s;
       let (n, m1) = reply_with wr resp m;
       Some (n, s1, m1)
     }"

text \<open>The closure passed to \<^verbatim>\<open>with_ipc_buffer\<close> in \<^verbatim>\<open>service_loop\<close>.\<close>

definition dispatch ::
  "'k kernel \<Rightarrow> 'e fs_iface \<Rightarrow> 'e fs_service \<Rightarrow> 'k machine \<Rightarrow> (usize \<times> 'e fs_service \<times> 'k machine) option" where
  "dispatch kern I s m =
     (let ib = ipc_buf m;
          req_type = read_mr ib 0; arg1 = read_mr ib 1; arg2 = read_mr ib 2; arg3 = read_mr ib 3
      in if req_type = 1 then on_path (\<lambda>path. handle_open_with_path I path (ucast arg3)) s m
         else if req_type = 5 then on_path (handle_stat_with_path I) s m
         else if req_type = 7 then on_path (handle_mkdir_with_path I) s m
         else if req_type = 8 then on_path (handle_unlink_with_path I) s m
         else if req_type = 9 then on_path (handle_access_with_path I) s m
         else if req_type = 2 then on_request write_response_maybe_data I (Read arg1 0 arg3) s m
         else if req_type = 3 then do {
           dat \<leftarrow> decode_path_from_mrs ib DATA_MR_START arg3;
           (resp, s1, m1) \<leftarrow> handle_write_with_data kern I arg1 dat s m;
           let (n, m2) = reply_with write_response resp m1;
           Some (n, s1, m2)
         }
         else if req_type = 4 then on_request write_response I (Close arg1) s m
         else if req_type = 6 then on_request write_response_maybe_data I (Getdents64 arg1 0 arg3) s m
         else if req_type = 10 then on_request write_response I (FileSize arg1) s m
         else if req_type = 11 then
           (let (resp, s1) = handle_lseek arg1 arg2 (ucast arg3) s;
                (n, m1) = reply_with write_response resp m
            in Some (n, s1, m1))
         else
           let m1 = seL4_DebugPutString kern (str ''[ext4-srv] Unknown request type\<newline>'') m
           in Some (2, s, m1\<lparr> ipc_buf := write_mr (write_mr (ipc_buf m1) 0 RESP_ERR) 1 38 \<rparr>))"

text \<open>One round of \<^verbatim>\<open>service_loop\<close>; \<^verbatim>\<open>with_ipc_buffer\<close> panics when no buffer is set.\<close>

definition service_step ::
  "'k kernel \<Rightarrow> 'e fs_iface \<Rightarrow> 'e fs_service \<times> 'k machine \<Rightarrow> ('e fs_service \<times> 'k machine) option" where
  "service_step kern I = (\<lambda>(s, m).
     do {
       (_, m1) \<leftarrow> seL4_Recv kern FS_ENDPOINT_SLOT m;
       (reply_mrs, s1, m2) \<leftarrow> (if ipc_set m1 then dispatch kern I s m1 else None);
       Some (s1, seL4_Reply kern (reply_mrs AND 0x7F) m2)
     })"

text \<open>\<^verbatim>\<open>init_ipc_buffer\<close> and the entry point up to the loop; \<open>b\<close> is the page below the boot frame.\<close>

definition init_ipc_buffer :: "ipc_buffer \<Rightarrow> 'k machine \<Rightarrow> 'k machine" where
  "init_ipc_buffer b m = set_ipc_buffer (set_receive_slot b init_CNODE 0 64) m"

definition ext4_srv_start :: "'k kernel \<Rightarrow> ipc_buffer \<Rightarrow> 'k machine \<Rightarrow> 'k machine" where
  "ext4_srv_start kern b m =
     seL4_DebugPutString kern (str ''[ext4-srv] Listening for requests...\<newline>'')
       (seL4_DebugPutString kern (str ''[ext4-srv] Starting filesystem service...\<newline>'') (init_ipc_buffer b m))"

text \<open>The states the service can be in, whatever the kernel delivers.\<close>

inductive serving :: "'k kernel \<Rightarrow> 'e fs_iface \<Rightarrow> 'e \<Rightarrow> 'e fs_service \<times> 'k machine \<Rightarrow> bool"
  for kern I e where
  start: "serving kern I e (fs_service_new e, m)"
| round: "serving kern I e (s, m) \<Longrightarrow> service_step kern I (s, m) = Some (s', m') \<Longrightarrow> serving kern I e (s', m')"

section \<open>The descriptor table\<close>

definition svc_inv :: "'e fs_service \<Rightarrow> bool" where
  "svc_inv s \<longleftrightarrow> table_inv (fd_table s) (next_fd s)"

definition srv_get :: "'e fs_service \<Rightarrow> usize \<Rightarrow> file_entry option" where
  "srv_get s fd = table_get (fd_table s) fd"

interpretation server_fds: fd_allocator srv_get srv_open srv_close svc_inv "\<lambda>s. length (fd_table s)"
proof
  fix s s' :: "'e fs_service" and v fd f
  assume "svc_inv s" and "srv_open v s = Some (fd, s')"
  then obtain tbl nxt where t: "table_inv (fd_table s) (next_fd s)" "table_open v (fd_table s) (next_fd s) = Some (fd, tbl, nxt)"
    "s' = s\<lparr> fd_table := tbl, next_fd := nxt \<rparr>"
    by (auto simp: svc_inv_def srv_open_def split: bind_splits)
  note o = table_inv_open [OF t(1,2)]
  show "svc_inv s'" using o t(3) by (simp add: svc_inv_def)
  show "unat fd = length (fd_table s) \<and> length (fd_table s') = Suc (length (fd_table s))"
    using o t(1,3) by (simp add: table_inv_def)
  show "srv_get s' f = (if f = fd then Some v else srv_get s f)" using o(5) t(3) by (simp add: srv_get_def)
qed (simp_all add: svc_inv_def srv_get_def srv_close_def table_inv_clear table_get_clear table_get_bound)

lemma svc_inv_new [simp]: "svc_inv (fs_service_new e)"
  by (simp add: svc_inv_def fs_service_new_def)

lemma svc_inv_fs [simp]: "svc_inv (s\<lparr> fs := e \<rparr>) = svc_inv s" "srv_get (s\<lparr> fs := e \<rparr>) = srv_get s"
  by (simp_all add: svc_inv_def srv_get_def fun_eq_iff)

text \<open>
  How a table evolves: the invariant is kept, descriptors below the old length only keep their
  being closed, and the table never shrinks.
\<close>

definition evolves :: "'e fs_service \<Rightarrow> 'e fs_service \<Rightarrow> bool" where
  "evolves s s' \<longleftrightarrow> svc_inv s' \<and> length (fd_table s) \<le> length (fd_table s') \<and>
     (\<forall>fd. unat fd < length (fd_table s) \<and> srv_get s fd = None \<longrightarrow> srv_get s' fd = None)"

lemma evolves_refl: "svc_inv s \<Longrightarrow> evolves s s"
  by (simp add: evolves_def)

lemma evolves_trans: "evolves s s' \<Longrightarrow> evolves s' s'' \<Longrightarrow> evolves s s''"
  by (auto simp: evolves_def)

lemma evolves_fs: "evolves (s\<lparr> fs := e \<rparr>) s' = evolves s s'" "svc_inv s \<Longrightarrow> evolves s (s\<lparr> fs := e \<rparr>)"
  by (simp_all add: evolves_def)

lemma evolves_open: "svc_inv s \<Longrightarrow> srv_open en s = Some (fd, s') \<Longrightarrow> evolves s s'"
  using server_fds.open_inv [of s en fd s'] server_fds.open_fresh [of s en fd s'] server_fds.open_get [of s en fd s']
  by (auto simp: evolves_def)

lemma evolves_close: "svc_inv s \<Longrightarrow> evolves s (srv_close fd s)"
  by (simp add: evolves_def server_fds.close_inv server_fds.close_bound server_fds.close_get)

lemma get_set_entry:
  "srv_get s fd = Some en \<Longrightarrow> srv_get (set_entry fd en' s) f = (if f = fd then Some en' else srv_get s f)"
  by (simp add: srv_get_def set_entry_def table_get_update table_get_bound)

lemma evolves_set_entry: "svc_inv s \<Longrightarrow> srv_get s fd = Some en \<Longrightarrow> evolves s (set_entry fd en' s)"
proof -
  assume s: "svc_inv s" "srv_get s fd = Some en"
  then have "\<not> fd \<le> 2" using table_get_reserved by (force simp: svc_inv_def srv_get_def)
  with s have "svc_inv (set_entry fd en' s)" by (simp add: svc_inv_def set_entry_def table_inv_update)
  moreover have "length (fd_table (set_entry fd en' s)) = length (fd_table s)" by (simp add: set_entry_def)
  ultimately show ?thesis using s get_set_entry [OF s(2)] by (auto simp: evolves_def)
qed

lemmas evolves_rules = evolves_refl evolves_fs evolves_open evolves_close evolves_set_entry

lemma path_handlers_evolve:
  assumes "svc_inv s"
  shows "handle_open_with_path I path fl s = Some (r, s') \<Longrightarrow> evolves s s'"
    and "handle_stat_with_path I path s = Some (r, s') \<Longrightarrow> evolves s s'"
    and "handle_mkdir_with_path I path s = Some (r, s') \<Longrightarrow> evolves s s'"
    and "handle_unlink_with_path I path s = Some (r, s') \<Longrightarrow> evolves s s'"
    and "handle_access_with_path I path s = Some (r, s') \<Longrightarrow> evolves s s'"
proof -
  have o: "evolves s s'" if "srv_open en (s\<lparr> fs := e \<rparr>) = Some (fd, s')" for en e fd s'
    using evolves_open [OF _ that] assms by (simp add: evolves_fs)
  show "handle_open_with_path I path fl s = Some (r, s') \<Longrightarrow> evolves s s'"
    using assms by (auto simp: handle_open_with_path_def evolves_rules o split: if_splits bind_splits sum.splits)
qed (use assms in \<open>auto simp: handle_stat_with_path_def handle_mkdir_with_path_def handle_unlink_with_path_def
    handle_access_with_path_def evolves_rules split: if_splits bind_splits sum.splits\<close>)

lemma write_evolves: "svc_inv s \<Longrightarrow> handle_write_with_data kern I fd dat s m = Some (r, s', m') \<Longrightarrow> evolves s s'"
  by (auto simp: handle_write_with_data_def evolves_rules split: if_splits bind_splits option.splits)

lemma lseek_evolves: "svc_inv s \<Longrightarrow> evolves s (snd (handle_lseek fd off wh s))"
  by (auto simp: handle_lseek_def Let_def evolves_refl srv_get_def [symmetric] intro: evolves_set_entry split: option.splits)

lemma set_entry_fs: "svc_inv s \<Longrightarrow> srv_get s fd = Some en \<Longrightarrow> evolves s (set_entry fd en' (s\<lparr> fs := e \<rparr>))"
  using evolves_set_entry [of "s\<lparr> fs := e \<rparr>" fd en en'] by (simp add: evolves_fs)

lemma close_fs: "svc_inv s \<Longrightarrow> evolves s (srv_close fd (s\<lparr> fs := e \<rparr>))"
  using evolves_close [of "s\<lparr> fs := e \<rparr>" fd] by (simp add: evolves_fs)

lemma request_evolves: "svc_inv s \<Longrightarrow> handle_request I req s = Some (r, s') \<Longrightarrow> evolves s s'"
  by (cases req)
    (auto simp: handle_request_def handle_read_def handle_close_def handle_getdents64_def evolves_refl set_entry_fs close_fs
      srv_get_def [symmetric] split: if_splits bind_splits option.splits)

lemma dispatch_evolves: "svc_inv s \<Longrightarrow> dispatch kern I s m = Some (n, s', m') \<Longrightarrow> evolves s s'"
  using path_handlers_evolve [of s I] lseek_evolves [of s]
  by (auto simp: dispatch_def Let_def on_path_def on_request_def split_beta evolves_refl request_evolves write_evolves
      split: if_splits bind_splits)

lemma service_step_evolves: "svc_inv s \<Longrightarrow> service_step kern I (s, m) = Some (s', m') \<Longrightarrow> evolves s s'"
  by (auto simp: service_step_def dispatch_evolves split: bind_splits if_splits)

lemma serving_inv: "serving kern I e c \<Longrightarrow> svc_inv (fst c)"
  by (induction rule: serving.induct) (auto dest: service_step_evolves simp: evolves_def)

section \<open>Properties of the service\<close>

abbreviation mem_iface :: "(mem_fs, mem_file option list) ext4fs fs_iface" where
  "mem_iface \<equiv> ext4fs_iface mem_lib"

definition hello_entry :: file_entry where
  "hello_entry = \<lparr> fe_path = str ''/a'', fe_inode = 1, fe_size = 5, fe_offset = 0, fe_flags = 0 \<rparr>"

lemma sample_open:
  "handle_open_with_path mem_iface (str ''/a'') 0 (fs_service_new sample_ext4) =
   Some (Ok 3, \<lparr> fs = sample_ext4\<lparr> stores := [Some (str ''/'', 0), Some (str ''/a'', 0)] \<rparr>,
                 fd_table = [None, None, None, Some hello_entry], next_fd = 4 \<rparr>)"
  by (simp add: handle_open_with_path_def ext4fs_iface_def ext4_open_def mem_lib_def sample_ext4_def str_def fs_service_new_def
      store_file_def mem_content_def srv_open_def table_open_new hello_entry_def)

text \<open>
  C17. Whatever messages the service has handled since it started, opening a file that the file system
  opens returns a descriptor of at least 3 that no open file has, with the new entry at offset 0
  and the size the file system reported, and every other descriptor as it was.
\<close>

theorem served_open_fresh:
  assumes "serving kern I e (s, m)" and "handle_open_with_path I path fl s = Some (Ok fd, s')"
  shows "3 \<le> fd \<and> srv_get s fd = None \<and>
    (\<exists>inode sz. i_open I path fl (fs s) = Some (Inr (inode, sz), fs s') \<and>
      srv_get s' fd = Some \<lparr> fe_path = path, fe_inode = inode, fe_size = sz, fe_offset = 0, fe_flags = fl \<rparr>) \<and>
    (\<forall>f. f \<noteq> fd \<longrightarrow> srv_get s' f = srv_get s f)"
proof -
  have inv: "svc_inv s" using serving_inv [OF assms(1)] by simp
  from assms(2) obtain inode sz e1 where r: "i_open I path fl (fs s) = Some (Inr (inode, sz), e1)"
    "srv_open \<lparr> fe_path = path, fe_inode = inode, fe_size = sz, fe_offset = 0, fe_flags = fl \<rparr> (s\<lparr> fs := e1 \<rparr>) = Some (fd, s')"
    by (auto simp: handle_open_with_path_def split: if_splits bind_splits sum.splits)
  have inv1: "svc_inv (s\<lparr> fs := e1 \<rparr>)" using inv by simp
  have "fs s' = e1" using r(2) by (auto simp: srv_open_def split: bind_splits)
  moreover have "unat fd = length (fd_table s)" using server_fds.open_fresh [OF inv1 r(2)] by simp
  then have "3 \<le> fd" using inv by (simp add: svc_inv_def table_inv_def word_le_nat_alt)
  ultimately show ?thesis
    using r(1) server_fds.open_not_open [OF inv1 r(2)] server_fds.open_get [OF inv1 r(2)] by simp
qed

theorem served_open_fresh_witness:
  "\<exists>s'. handle_open_with_path mem_iface (str ''/a'') 0 (fs_service_new sample_ext4) = Some (Ok 3, s') \<and>
     srv_get (fs_service_new sample_ext4) 3 = None"
  using served_open_fresh [OF serving.start [of echo_kernel mem_iface sample_ext4 sample_machine] sample_open] sample_open by simp

text \<open>
  C9. No use after close: once an open descriptor has been closed, the service never hands the same
  number out again, so after any number of further messages every request on it is answered with
  \<^verbatim>\<open>EBADF\<close> and does not reach the file system.
\<close>

theorem no_use_after_close:
  assumes "svc_inv s" and "srv_get s fd = Some en" and "handle_close I fd s = Some (r, s1)"
    and "(\<lambda>c c'. service_step kern I c = Some c')\<^sup>*\<^sup>* (s1, m1) (s2, m2)"
  shows "r = Ok 0 \<and> handle_read I fd cnt s2 = Some (Err (- 9), s2) \<and>
    handle_write_with_data kern I fd dat s2 m = Some (Err (- 9), s2, m) \<and> handle_lseek fd off wh s2 = (Err (- 9), s2) \<and>
    handle_getdents64 I fd cnt s2 = Some (Err (- 9), s2) \<and> handle_file_size fd s2 = Err (- 9) \<and>
    handle_close I fd s2 = Some (Err (- 9), s2)"
proof -
  have big: "\<not> fd \<le> 2" using assms(1,2) table_get_reserved by (force simp: svc_inv_def srv_get_def)
  then have nz: "fd \<noteq> 0" "fd \<noteq> 1" "fd \<noteq> 2" by auto
  from big assms(2,3) obtain e where e: "r = Ok 0" "s1 = srv_close fd (s\<lparr> fs := e \<rparr>)"
    by (auto simp: handle_close_def srv_get_def split: bind_splits)
  have "evolves s s1" unfolding e using close_fs [OF assms(1)] .
  then have s1: "svc_inv s1" "unat fd < length (fd_table s1)" "srv_get s1 fd = None"
    using table_get_bound assms(1,2) by (fastforce simp: evolves_def srv_get_def e server_fds.close_get [unfolded srv_get_def])+
  have "evolves s1 (fst c)" if "(\<lambda>c c'. service_step kern I c = Some c')\<^sup>*\<^sup>* (s1, m1) c" for c
    using that
  proof (induction rule: rtranclp_induct)
    case (step c c')
    then show ?case
      using service_step_evolves [of "fst c" kern I "snd c" "fst c'" "snd c'"] evolves_trans [of s1 "fst c" "fst c'"]
      by (simp add: evolves_def)
  qed (simp add: evolves_refl s1)
  from this [OF assms(4)] have "table_get (fd_table s2) fd = None" using s1 by (simp add: evolves_def srv_get_def)
  then show ?thesis using big nz e(1)
    by (simp add: handle_read_def handle_write_with_data_def handle_lseek_def handle_getdents64_def handle_file_size_def handle_close_def)
qed

text \<open>A service with one open file, and the hypotheses of reading it.\<close>

definition sample_service :: "(mem_fs, mem_file option list) ext4fs fs_service" where
  "sample_service =
     \<lparr> fs = sample_ext4\<lparr> stores := [Some (str ''/'', 0), Some (str ''/a'', 0)] \<rparr>,
       fd_table = [None, None, None, Some hello_entry], next_fd = 4 \<rparr>"

lemma sample_service_inv: "svc_inv sample_service" "srv_get sample_service 3 = Some hello_entry"
proof -
  have "svc_inv (snd (the (handle_open_with_path mem_iface (str ''/a'') 0 (fs_service_new sample_ext4))))"
    using path_handlers_evolve(1) [OF svc_inv_new sample_open] sample_open by (simp add: evolves_def)
  then show "svc_inv sample_service" by (simp add: sample_open sample_service_def)
  show "srv_get sample_service 3 = Some hello_entry" by (simp add: srv_get_def table_get_def sample_service_def)
qed

theorem no_use_after_close_witness:
  "\<exists>s1. handle_close mem_iface 3 sample_service = Some (Ok 0, s1) \<and> handle_read mem_iface 3 10 s1 = Some (Err (- 9), s1)"
proof -
  have "\<exists>s1. handle_close mem_iface 3 sample_service = Some (Ok 0, s1)"
    by (simp add: handle_close_def table_get_def sample_service_def hello_entry_def ext4fs_iface_def ext4_close_def mem_lib_def unwrap_def)
  then obtain s1 where s1: "handle_close mem_iface 3 sample_service = Some (Ok 0, s1)" by blast
  from no_use_after_close [OF sample_service_inv this, of echo_kernel sample_machine s1 sample_machine] s1
  show ?thesis by blast
qed

text \<open>
  The file system returns the bytes of a file: while \<open>P\<close> holds of its state, reading \<open>inode\<close> at any
  offset fills the buffer with the bytes of \<open>content\<close> from there on, as many as there are.
\<close>

definition reads_contents :: "'e fs_iface \<Rightarrow> ('e \<Rightarrow> bool) \<Rightarrow> usize \<Rightarrow> bytes \<Rightarrow> bool" where
  "reads_contents I P inode content \<longleftrightarrow>
     (\<forall>e off cnt. P e \<longrightarrow>
       (\<exists>e'. i_read_at I inode off (replicate cnt 0) e =
          Some ((of_nat (length (take cnt (drop (unat off) content))),
                 take cnt (drop (unat off) content) @ replicate (cnt - length (take cnt (drop (unat off) content))) 0), e') \<and> P e'))"

text \<open>A client that reads with the given counts one after the other.\<close>

fun read_seq :: "'e fs_iface \<Rightarrow> usize \<Rightarrow> usize list \<Rightarrow> 'e fs_service \<Rightarrow> (bytes list \<times> 'e fs_service) option" where
  "read_seq I fd [] s = Some ([], s)"
| "read_seq I fd (c # cs) s =
     do {
       (r, s1) \<leftarrow> handle_read I fd c s;
       (case r of
          OkWithData d \<Rightarrow> do { (ds, s2) \<leftarrow> read_seq I fd cs s1; Some (d # ds, s2) }
        | _ \<Rightarrow> None)
     }"

lemma read_one_piece:
  assumes "svc_inv s" and get: "srv_get s fd = Some en" and "P (fs s)" and rc: "reads_contents I P (fe_inode en) content"
    and "unat c < 2 ^ 63" and "length content < 2 ^ 63"
  defines "d \<equiv> take (unat c) (drop (unat (fe_offset en)) content)"
  shows "\<exists>s1. handle_read I fd c s = Some (OkWithData d, s1) \<and> svc_inv s1 \<and> P (fs s1) \<and>
    srv_get s1 fd = Some (en\<lparr> fe_offset := fe_offset en + of_nat (length d) \<rparr>)"
proof -
  have big: "fd \<noteq> 0" "fd \<noteq> 1" "fd \<noteq> 2"
    using table_get_reserved [of "fd_table s" "next_fd s" fd] assms(1) get by (auto simp: svc_inv_def srv_get_def)
  from rc \<open>P (fs s)\<close> obtain e' where e': "i_read_at I (fe_inode en) (fe_offset en) (replicate (unat c) 0) (fs s) =
      Some ((of_nat (length d), d @ replicate (unat c - length d) 0), e')" "P e'"
    unfolding reads_contents_def d_def by blast
  have "unat (of_nat (length d) :: usize) = length d" using assms(6) by (intro unat_of_nat_small) (simp add: d_def)
  then have "handle_read I fd c s = Some (OkWithData d, set_entry fd (en\<lparr> fe_offset := fe_offset en + of_nat (length d) \<rparr>) (s\<lparr> fs := e' \<rparr>))"
    using big get e'(1) assms(5) by (simp add: handle_read_def zeroed_def srv_get_def)
  moreover have "evolves s (set_entry fd (en\<lparr> fe_offset := fe_offset en + of_nat (length d) \<rparr>) (s\<lparr> fs := e' \<rparr>))"
    by (rule set_entry_fs [OF assms(1) get])
  ultimately show ?thesis using e'(2) get_set_entry [of "s\<lparr> fs := e' \<rparr>" fd en] get
    by (simp add: evolves_def set_entry_def)
qed

text \<open>
  C20. Reading a file piece by piece returns its bytes in order: on a file system that returns the
  bytes of the file, any sequence of read requests on an open descriptor answers with pieces whose
  concatenation is the next part of the file, none lost and none repeated, and leaves the offset
  just behind it.
\<close>

theorem sequential_reads:
  assumes "svc_inv s" and "srv_get s fd = Some en" and "P (fs s)" and "reads_contents I P (fe_inode en) content"
    and "\<forall>c \<in> set cs. unat c < 2 ^ 63" and "length content < 2 ^ 63" and "unat (fe_offset en) \<le> length content"
  shows "\<exists>ds s'. read_seq I fd cs s = Some (ds, s') \<and>
    concat ds = take (sum_list (map unat cs)) (drop (unat (fe_offset en)) content) \<and>
    srv_get s' fd = Some (en\<lparr> fe_offset := fe_offset en + of_nat (length (concat ds)) \<rparr>)"
  using assms
proof (induction cs arbitrary: s en)
  case (Cons c cs)
  define d where "d = take (unat c) (drop (unat (fe_offset en)) content)"
  let ?en = "en\<lparr> fe_offset := fe_offset en + of_nat (length d) \<rparr>"
  from read_one_piece [OF Cons.prems(1-4) _ Cons.prems(6), of c] Cons.prems(5)
  obtain s1 where s1: "handle_read I fd c s = Some (OkWithData d, s1)" "svc_inv s1" "P (fs s1)" "srv_get s1 fd = Some ?en"
    by (auto simp: d_def)
  have l: "unat (of_nat (length d) :: usize) = length d" using Cons.prems(6) by (intro unat_of_nat_small) (simp add: d_def)
  have off: "unat (fe_offset ?en) = unat (fe_offset en) + length d"
    using l Cons.prems(6,7) unat_plus_no_wrap [of "fe_offset en" "of_nat (length d)"] by (simp add: d_def)
  then have "unat (fe_offset ?en) \<le> length content" using Cons.prems(7) by (simp add: d_def)
  with Cons.IH [OF s1(2,4,3), simplified] Cons.prems(4-6) obtain ds s' where ds: "read_seq I fd cs s1 = Some (ds, s')"
    "concat ds = take (sum_list (map unat cs)) (drop (unat (fe_offset ?en)) content)"
    "srv_get s' fd = Some (?en\<lparr> fe_offset := fe_offset ?en + of_nat (length (concat ds)) \<rparr>)" by auto
  have "drop (unat (fe_offset ?en)) content = drop (unat c) (drop (unat (fe_offset en)) content)"
    unfolding off by (simp add: d_def min_def add.commute)
  then have "d @ concat ds = take (sum_list (map unat (c # cs))) (drop (unat (fe_offset en)) content)"
    unfolding ds(2) by (simp add: d_def take_add)
  then have "concat (d # ds) = take (sum_list (map unat (c # cs))) (drop (unat (fe_offset en)) content)" by simp
  moreover have "srv_get s' fd = Some (en\<lparr> fe_offset := fe_offset en + of_nat (length (concat (d # ds))) \<rparr>)"
    using ds(3) by (simp add: add.assoc)
  moreover have "read_seq I fd (c # cs) s = Some (d # ds, s')" using s1(1) ds(1) by simp
  ultimately show ?case by blast
qed simp

lemma mem_reads_contents:
  "reads_contents mem_iface (\<lambda>e. ext_fs e = ext_fs sample_ext4 \<and> length (stores e) = 2 \<and> (\<exists>pos. stores e ! 1 = Some (str ''/a'', pos)))
     1 (str ''hello'')"
  by (auto simp: reads_contents_def ext4fs_iface_def ext4_read_at_def mem_lib_def unwrap_def sample_ext4_def mem_content_def
      copy_slice_def str_def min_def Let_def)

theorem sequential_reads_witness:
  "\<exists>ds s'. read_seq mem_iface 3 [2, 2, 40] sample_service = Some (ds, s') \<and> concat ds = str ''hello''"
proof -
  let ?P = "\<lambda>e. ext_fs e = ext_fs sample_ext4 \<and> length (stores e) = 2 \<and> (\<exists>pos. stores e ! 1 = Some (str ''/a'', pos))"
  have "?P (fs sample_service)" by (simp add: sample_service_def)
  from sequential_reads [of sample_service 3 hello_entry ?P mem_iface "str ''hello''" "[2, 2, 40]", OF sample_service_inv this]
    mem_reads_contents
  show ?thesis by (auto simp: hello_entry_def)
qed

section \<open>Seeking\<close>

definition lseek_target :: "file_entry \<Rightarrow> isize \<Rightarrow> i32 \<Rightarrow> int" where
  "lseek_target en offset whence =
     (if whence = 0 then sint offset else if whence = 1 then uint (fe_offset en) + sint offset
      else uint (fe_size en) + sint offset)"

text \<open>
  C30. Seeking: on an open descriptor, a negative absolute offset, a positive offset from the end and
  an unknown \<^verbatim>\<open>whence\<close> are refused with \<^verbatim>\<open>EINVAL\<close> and change nothing; every other request returns and
  stores the target offset modulo \<open>2 ^ 64\<close>, which is the exact target whenever that is not negative,
  and touches no other descriptor.
\<close>

theorem lseek_exact:
  assumes "svc_inv s" and "srv_get s fd = Some en"
  shows "let t = lseek_target en off wh in if (wh = 0 \<and> t < 0) \<or> (wh = 2 \<and> 0 < sint off) \<or> wh \<notin> {0, 1, 2}
    then handle_lseek fd off wh s = (Err (- 22), s)
    else (\<exists>s'. handle_lseek fd off wh s = (Ok (word_of_int t), s') \<and>
      srv_get s' = (\<lambda>f. if f = fd then Some (en\<lparr> fe_offset := word_of_int t \<rparr>) else srv_get s f) \<and> fs s' = fs s \<and>
      (0 \<le> t \<and> t < 2 ^ 64 \<longrightarrow> uint (word_of_int t :: usize) = t))"
proof -
  let ?t = "lseek_target en off wh"
  have "\<not> fd \<le> 2" using assms(1,2) table_get_reserved by (force simp: svc_inv_def srv_get_def)
  moreover have "table_get (fd_table s) fd = Some en" using assms(2) by (simp add: srv_get_def)
  moreover have "word_of_int ?t = (if wh = 0 then off else if wh = 1 then fe_offset en + off else fe_size en + off)"
    and "wh = 0 \<Longrightarrow> ?t = sint off" by (simp_all add: lseek_target_def)
  moreover have "0 \<le> ?t \<and> ?t < 2 ^ 64 \<Longrightarrow> uint (word_of_int ?t :: usize) = ?t" by (simp add: uint_word_of_int)
  ultimately show ?thesis using get_set_entry [OF assms(2)]
    by (auto simp: handle_lseek_def Let_def fun_eq_iff set_entry_def split: if_splits)
qed

theorem lseek_exact_witness:
  "\<exists>s'. handle_lseek 3 (- 2) 2 sample_service = (Ok 3, s')"
proof -
  have "lseek_target hello_entry (- 2) 2 = 3" by (simp add: lseek_target_def hello_entry_def)
  with lseek_exact [OF sample_service_inv, of "- 2" 2] show ?thesis by auto
qed

section \<open>Every request is answered\<close>

text \<open>A file system none of whose operations panics.\<close>

definition iface_total :: "'e fs_iface \<Rightarrow> bool" where
  "iface_total I \<longleftrightarrow>
     (\<forall>p f e. i_open I p f e \<noteq> None) \<and> (\<forall>i off b e. i_read_at I i off b e \<noteq> None) \<and>
     (\<forall>i off b e. i_write_at I i off b e \<noteq> None) \<and> (\<forall>i e. i_close I i e \<noteq> None) \<and> (\<forall>p e. i_mkdir I p e \<noteq> None) \<and>
     (\<forall>p e. i_unlink I p e \<noteq> None) \<and> (\<forall>i e. i_stat I i e \<noteq> None) \<and> (\<forall>i off b e. i_getdents64 I i off b e \<noteq> None)"

lemma iface_totalD:
  assumes "iface_total I"
  shows "\<exists>r e'. i_open I p f e = Some (r, e')" "\<exists>n b' e'. i_read_at I i off b e = Some ((n, b'), e')"
    "\<exists>n e'. i_write_at I i off b e = Some (n, e')" "\<exists>e'. i_close I i e = Some e'" "\<exists>e'. i_mkdir I p e = Some e'"
    "\<exists>e'. i_unlink I p e = Some e'" "\<exists>st e'. i_stat I i e = Some (st, e')"
    "\<exists>n o' b' e'. i_getdents64 I i off b e = Some ((n, o'), b', e')"
  using assms unfolding iface_total_def by (metis option.exhaust surj_pair)+

lemma path_handlers_total:
  assumes "iface_total I" and "svc_inv s" and "length (fd_table s) + 1 < 2 ^ 63"
  shows "\<exists>r s'. handle_open_with_path I path fl s = Some (r, s')" "\<exists>r s'. handle_stat_with_path I path s = Some (r, s')"
    "\<exists>r s'. handle_mkdir_with_path I path s = Some (r, s')" "\<exists>r s'. handle_unlink_with_path I path s = Some (r, s')"
    "\<exists>r s'. handle_access_with_path I path s = Some (r, s')"
proof -
  note t = iface_totalD [OF assms(1)]
  have o: "\<exists>fd s'. srv_open en (s\<lparr> fs := e \<rparr>) = Some (fd, s')" for en e
    using table_open_total [of "fd_table s" "next_fd s" en] assms(2,3) by (auto simp: srv_open_def svc_inv_def)
  obtain r e where oe: "i_open I path fl (fs s) = Some (r, e)" using t(1) by blast
  obtain fd s1 where "srv_open \<lparr> fe_path = path, fe_inode = fst (projr r), fe_size = snd (projr r), fe_offset = 0, fe_flags = fl \<rparr>
      (s\<lparr> fs := e \<rparr>) = Some (fd, s1)" using o by blast
  with oe show "\<exists>r s'. handle_open_with_path I path fl s = Some (r, s')"
    by (cases r) (auto simp: handle_open_with_path_def)
  obtain r e where oe: "i_open I path 0 (fs s) = Some (r, e)" using t(1) by blast
  obtain st e1 where st: "i_stat I (fst (projr r)) e = Some (st, e1)" using t(7) by blast
  obtain e2 where "i_close I (fst (projr r)) e1 = Some e2" using t(4) by blast
  with oe st show "\<exists>r s'. handle_stat_with_path I path s = Some (r, s')"
    by (cases r) (auto simp: handle_stat_with_path_def)
  obtain e3 where "i_close I (fst (projr r)) e = Some e3" using t(4) by blast
  with oe show "\<exists>r s'. handle_access_with_path I path s = Some (r, s')"
    by (cases r) (auto simp: handle_access_with_path_def)
  show "\<exists>r s'. handle_mkdir_with_path I path s = Some (r, s')" using t(5) [of path "fs s"]
    by (auto simp: handle_mkdir_with_path_def)
  show "\<exists>r s'. handle_unlink_with_path I path s = Some (r, s')" using t(6) [of path "fs s"]
    by (auto simp: handle_unlink_with_path_def)
qed

lemma fd_handlers_total:
  assumes "iface_total I" and "unat cnt < 2 ^ 63"
  shows "\<exists>r s'. handle_request I (Read fd a cnt) s = Some (r, s')" "\<exists>r s'. handle_request I (Close fd) s = Some (r, s')"
    "\<exists>r s'. handle_request I (Getdents64 fd a cnt) s = Some (r, s')" "\<exists>r s'. handle_request I (FileSize fd) s = Some (r, s')"
    "\<exists>r s' m'. handle_write_with_data kern I fd dat s m = Some (r, s', m')"
proof -
  note t = iface_totalD [OF assms(1)]
  let ?en = "the (table_get (fd_table s) fd)"
  show "\<exists>r s'. handle_request I (Read fd a cnt) s = Some (r, s')"
    using t(2) [of "fe_inode ?en" "fe_offset ?en" "replicate (unat cnt) 0" "fs s"] assms(2)
    by (cases "table_get (fd_table s) fd") (auto simp: handle_request_def handle_read_def zeroed_def)
  show "\<exists>r s'. handle_request I (Close fd) s = Some (r, s')"
    using t(4) [of "fe_inode ?en" "fs s"] by (cases "table_get (fd_table s) fd") (auto simp: handle_request_def handle_close_def)
  show "\<exists>r s'. handle_request I (Getdents64 fd a cnt) s = Some (r, s')"
    using t(8) [of "fe_inode ?en" "fe_offset ?en" "replicate (unat cnt) 0" "fs s"] assms(2)
    by (cases "table_get (fd_table s) fd") (auto simp: handle_request_def handle_getdents64_def zeroed_def)
  show "\<exists>r s'. handle_request I (FileSize fd) s = Some (r, s')" by (simp add: handle_request_def)
  show "\<exists>r s' m'. handle_write_with_data kern I fd dat s m = Some (r, s', m')"
    using t(3) [of "fe_inode ?en" "fe_offset ?en" dat "fs s"]
    by (cases "table_get (fd_table s) fd") (auto simp: handle_write_with_data_def)
qed

text \<open>Reading and listing fill the slice they are given and cannot change its length.\<close>

definition keeps_length :: "'e fs_iface \<Rightarrow> bool" where
  "keeps_length I \<longleftrightarrow>
     (\<forall>i off buf e n buf' e'. i_read_at I i off buf e = Some ((n, buf'), e') \<longrightarrow> length buf' = length buf) \<and>
     (\<forall>i off buf e r buf' e'. i_getdents64 I i off buf e = Some (r, buf', e') \<longrightarrow> length buf' = length buf)"

lemma path_handlers_bytes:
  "handle_open_with_path I path fl s = Some (r, s') \<Longrightarrow> response_bytes r \<le> 20"
  "handle_stat_with_path I path s = Some (r, s') \<Longrightarrow> response_bytes r \<le> 20"
  "handle_mkdir_with_path I path s = Some (r, s') \<Longrightarrow> response_bytes r \<le> 20"
  "handle_unlink_with_path I path s = Some (r, s') \<Longrightarrow> response_bytes r \<le> 20"
  "handle_access_with_path I path s = Some (r, s') \<Longrightarrow> response_bytes r \<le> 20"
  by (auto simp: handle_open_with_path_def handle_stat_with_path_def handle_mkdir_with_path_def handle_unlink_with_path_def
      handle_access_with_path_def stat_bytes_def split: if_splits bind_splits sum.splits)

lemma request_bytes:
  assumes "keeps_length I"
  shows "handle_request I (Read fd a cnt) s = Some (r, s') \<Longrightarrow> response_bytes r \<le> unat cnt"
    "handle_request I (Getdents64 fd a cnt) s = Some (r, s') \<Longrightarrow> response_bytes r \<le> unat cnt"
    "handle_request I (Close fd) s = Some (r, s') \<Longrightarrow> response_bytes r = 0"
    "handle_request I (FileSize fd) s = Some (r, s') \<Longrightarrow> response_bytes r = 0"
proof -
  have rd: "length buf' = unat cnt" if "i_read_at I i off (replicate (unat cnt) 0) e = Some ((n, buf'), e')" for i off e n buf' e'
    using assms that unfolding keeps_length_def by (metis length_replicate)
  have gd: "length buf' = unat cnt" if "i_getdents64 I i off (replicate (unat cnt) 0) e = Some (x, buf', e')" for i off e x buf' e'
    using assms that unfolding keeps_length_def by (metis length_replicate)
  show "handle_request I (Read fd a cnt) s = Some (r, s') \<Longrightarrow> response_bytes r \<le> unat cnt"
    using rd by (fastforce simp: handle_request_def handle_read_def zeroed_def split: if_splits bind_splits option.splits)
  show "handle_request I (Getdents64 fd a cnt) s = Some (r, s') \<Longrightarrow> response_bytes r \<le> unat cnt"
    using gd by (fastforce simp: handle_request_def handle_getdents64_def zeroed_def split: if_splits bind_splits option.splits)
qed (auto simp: handle_request_def handle_close_def handle_file_size_def split: if_splits bind_splits option.splits)

lemma write_bytes_zero:
  "handle_write_with_data kern I fd dat s m = Some (r, s', m') \<Longrightarrow> response_bytes r = 0"
  "response_bytes (fst (handle_lseek fd off wh s)) = 0"
  by (auto simp: handle_write_with_data_def handle_lseek_def Let_def split: if_splits bind_splits option.splits)

lemma write_typed:
  "kernel_typed P kern \<Longrightarrow> machine_typed P m \<Longrightarrow> handle_write_with_data kern I fd dat s m = Some (r, s', m') \<Longrightarrow> machine_typed P m'"
  by (auto simp: handle_write_with_data_def intro: typed_intros split: if_splits bind_splits option.splits)

text \<open>
  An answer to a request for at most \<open>b\<close> bytes: the register count covers the status and the value, the status is one of the
  two of the protocol, and the machine stays well typed.
\<close>

definition answer :: "('k \<Rightarrow> bool) \<Rightarrow> nat \<Rightarrow> (usize \<times> 'e fs_service \<times> 'k machine) option \<Rightarrow> bool" where
  "answer P b res \<longleftrightarrow> (\<exists>n s' m'. res = Some (n, s', m') \<and> 2 \<le> unat n \<and> unat n \<le> 3 + (b + 7) div 8 \<and>
     read_mr (ipc_buf m') 0 \<in> {RESP_OK, RESP_ERR} \<and> machine_typed P m')"

lemma answer_reply:
  assumes "machine_typed P m" and "response_bytes r \<le> b" and "b < 2 ^ 63" and "reply_with write_response r m = (n, m')"
  shows "answer P b (Some (n, s', m'))"
proof -
  have ok: "ipc_buffer_ok (ipc_buf m)" using assms(1) by (simp add: machine_typed_def)
  have small: "response_bytes r < 2 ^ 63" using assms(2,3) by simp
  have n: "unat n = response_mrs r" and m': "m' = m\<lparr> ipc_buf := snd (write_response (ipc_buf m) r) \<rparr>"
    using assms(4) write_response_count [OF small, of "ipc_buf m"] by (auto simp: reply_with_def split_beta)
  have "unat n \<le> 3 + (b + 7) div 8"
    using n response_mrs_bounds(2) [of r] assms(2) div_le_mono [of "response_bytes r + 7" "b + 7" 8] by linarith
  moreover have "read_mr (ipc_buf m') 0 \<in> {RESP_OK, RESP_ERR}"
    using write_response_status [OF ok small] m' by (simp split: fs_response.splits)
  moreover have "machine_typed P m'" using assms(1) m' by (simp add: machine_typed_def)
  ultimately show ?thesis using n response_mrs_bounds(1) [of r] by (simp add: answer_def)
qed

lemma answer_mono: "answer P b res \<Longrightarrow> b \<le> b' \<Longrightarrow> answer P b' res"
  using div_le_mono [of "b + 7" "b' + 7" 8] by (fastforce simp: answer_def)

lemma answer_path:
  assumes "machine_typed P m" and "unat (read_mr (ipc_buf m) 2) < 2 ^ 63"
    and "\<And>path. \<exists>r s'. h path s = Some (r, s')" and "\<And>path r s'. h path s = Some (r, s') \<Longrightarrow> response_bytes r \<le> 20"
  shows "answer P 20 (on_path h s m)"
proof -
  obtain q where q: "decode_path_from_mrs (ipc_buf m) PATH_MR_START (read_mr (ipc_buf m) 2) = Some q"
    using assms(2) by (simp add: decode_path_from_mrs_def)
  from assms(3) [of q] obtain r s' where h: "h q s = Some (r, s')" by blast
  obtain n m' where r: "reply_with write_response r m = (n, m')" by fastforce
  show ?thesis using q h answer_reply [OF assms(1) assms(4) [OF h] _ r] r by (simp add: on_path_def)
qed

lemma answer_request:
  assumes "machine_typed P m" and "b < 2 ^ 63"
    and "\<exists>r s'. handle_request I rq s = Some (r, s')" and "\<And>r s'. handle_request I rq s = Some (r, s') \<Longrightarrow> response_bytes r \<le> b"
  shows "answer P b (on_request write_response I rq s m)"
proof -
  from assms(3) obtain r s' where h: "handle_request I rq s = Some (r, s')" by blast
  obtain n m' where r: "reply_with write_response r m = (n, m')" by fastforce
  show ?thesis using h answer_reply [OF assms(1) assms(4) [OF h] assms(2) r] r by (simp add: on_request_def)
qed

lemma dispatch_answer:
  assumes "iface_total I" and "keeps_length I" and typed: "kernel_typed P kern" "machine_typed P m"
    and "svc_inv s" and "length (fd_table s) + 1 < 2 ^ 63"
    and "unat (read_mr (ipc_buf m) 2) < 2 ^ 63" and "unat (read_mr (ipc_buf m) 3) < 2 ^ 63"
  shows "answer P (max 20 (unat (read_mr (ipc_buf m) 3))) (dispatch kern I s m)"
proof -
  let ?b = "max 20 (unat (read_mr (ipc_buf m) 3))"
  have b: "?b < 2 ^ 63" using assms(8) by simp
  note total = path_handlers_total [OF assms(1,5,6)] fd_handlers_total [OF assms(1,8)]
  note path = answer_mono [OF answer_path [OF typed(2) assms(7)], of _ s ?b]
  note req = answer_request [OF typed(2) b, of I _ s]
  note bytes = path_handlers_bytes [of I] request_bytes [OF assms(2)] write_bytes_zero
  have one: "answer P ?b (on_path (\<lambda>path. handle_open_with_path I path (ucast (read_mr (ipc_buf m) 3))) s m)"
    "answer P ?b (on_path (handle_stat_with_path I) s m)" "answer P ?b (on_path (handle_mkdir_with_path I) s m)"
    "answer P ?b (on_path (handle_unlink_with_path I) s m)" "answer P ?b (on_path (handle_access_with_path I) s m)"
    by (rule path; (rule total | erule bytes | simp))+
  have two: "answer P ?b (on_request write_response I (Read fd a (read_mr (ipc_buf m) 3)) s m)"
    "answer P ?b (on_request write_response I (Getdents64 fd a (read_mr (ipc_buf m) 3)) s m)"
    "answer P ?b (on_request write_response I (Close fd) s m)" "answer P ?b (on_request write_response I (FileSize fd) s m)" for fd a
    using bytes(6-9) by (fastforce intro!: req total simp: le_max_iff_disj)+
  obtain dat where dat: "decode_path_from_mrs (ipc_buf m) DATA_MR_START (read_mr (ipc_buf m) 3) = Some dat"
    using assms(8) by (simp add: decode_path_from_mrs_def)
  obtain r s1 m1 where w: "handle_write_with_data kern I (read_mr (ipc_buf m) 1) dat s m = Some (r, s1, m1)" using total(10) by blast
  have three: "answer P ?b (Some (fst (reply_with write_response r m1), s1, snd (reply_with write_response r m1)))"
    by (rule answer_reply [OF write_typed [OF typed w] _ b]) (simp_all add: write_bytes_zero(1) [OF w])
  have four: "answer P ?b (Some (fst (reply_with write_response (fst (handle_lseek fd off wh s)) m),
      snd (handle_lseek fd off wh s), snd (reply_with write_response (fst (handle_lseek fd off wh s)) m)))" for fd off wh
    by (rule answer_reply [OF typed(2) _ b]) (simp_all add: write_bytes_zero(2))
  have five: "answer P ?b (Some (2, s, (seL4_DebugPutString kern t m)\<lparr> ipc_buf :=
      write_mr (write_mr (ipc_buf (seL4_DebugPutString kern t m)) 0 RESP_ERR) 1 38 \<rparr>))" for t
    using putstring_typed [OF typed, of t] by (simp add: answer_def machine_typed_def read_mr_write_mr)
  show ?thesis unfolding dispatch_def Let_def write_response_eq using one two dat w three four five by (simp add: split_beta)
qed


lemma mem_iface_total: "iface_total mem_iface"
proof -
  have "ext4_open mem_lib p f e \<noteq> None" for p f e
    by (auto simp: ext4_open_def Let_def split: prod.splits sum.splits bool.splits)
  moreover have "ext4_read_at mem_lib i off b e \<noteq> None" "ext4_write_at mem_lib i off b e \<noteq> None" "ext4_close mem_lib i e \<noteq> None"
    "ext4_getdents64 mem_lib i off b e \<noteq> None" "ext4_stat mem_lib i e \<noteq> None" for i off b e
    by (auto simp: ext4_read_at_def ext4_write_at_def ext4_close_def ext4_getdents64_def ext4_stat_def mem_lib_def unwrap_def Let_def
        split: option.splits prod.splits)
  moreover have "ext4_mkdir mem_lib p e \<noteq> None" "ext4_unlink mem_lib p e \<noteq> None" for p e
    by (auto simp: ext4_mkdir_def ext4_unlink_def mem_lib_def unwrap_def)
  ultimately show ?thesis by (simp add: iface_total_def ext4fs_iface_def)
qed

lemma mem_iface_keeps: "keeps_length mem_iface"
  by (auto simp: keeps_length_def ext4fs_iface_def ext4_read_at_def ext4_getdents64_def mem_lib_def unwrap_def copy_slice_def Let_def
      split_beta dest: arg_cong [where f = "\<lambda>x. length (snd x)"] split: option.splits bind_splits)


end
