(* ===== verification/Fs_Client.thy ===== *)
theory Fs_Client
  imports Ext4_Service
begin

text \<open>
  The client of the file service in the compatibility layer (\<^verbatim>\<open>lcl/src/fs/ipc_client.rs\<close>). Each
  operation writes a request into the IPC buffer, calls the service and interprets the reply; the
  parts before and after the call are definitions of their own. The theorems put a round of the
  service between them, follow every response into the client's decoders, and show what becomes of
  the operations over a kernel that passes the first four message registers in CPU registers.
\<close>

section \<open>State\<close>

record fd_entry =
  remote_fd :: usize
  ce_path :: bytes

record fs_client =
  c_fd_table :: "fd_entry option list"
  c_next_fd :: usize

definition fs_client_new :: fs_client where
  "fs_client_new = \<lparr> c_fd_table = table_new, c_next_fd = 3 \<rparr>"

definition REQ_OPEN :: usize where "REQ_OPEN = 1"
definition REQ_READ :: usize where "REQ_READ = 2"
definition REQ_WRITE :: usize where "REQ_WRITE = 3"
definition REQ_CLOSE :: usize where "REQ_CLOSE = 4"
definition REQ_STAT :: usize where "REQ_STAT = 5"
definition REQ_GETDENTS64 :: usize where "REQ_GETDENTS64 = 6"
definition REQ_MKDIR :: usize where "REQ_MKDIR = 7"
definition REQ_UNLINK :: usize where "REQ_UNLINK = 8"
definition REQ_ACCESS :: usize where "REQ_ACCESS = 9"
definition REQ_FILE_SIZE :: usize where "REQ_FILE_SIZE = 10"
definition REQ_LSEEK :: usize where "REQ_LSEEK = 11"

lemmas REQ_defs = REQ_OPEN_def REQ_READ_def REQ_WRITE_def REQ_CLOSE_def REQ_STAT_def REQ_GETDENTS64_def REQ_MKDIR_def
  REQ_UNLINK_def REQ_ACCESS_def REQ_FILE_SIZE_def REQ_LSEEK_def

section \<open>Requests\<close>

text \<open>The five writes at the start of every request.\<close>

definition put_header :: "ipc_buffer \<Rightarrow> usize \<Rightarrow> usize \<Rightarrow> usize \<Rightarrow> usize \<Rightarrow> ipc_buffer" where
  "put_header ib req a1 a2 a3 =
     write_mr (write_mr (write_mr (write_mr (write_mr ib 0 req) 1 a1) 2 a2) 3 a3) 4 0"

text \<open>A request that carries a path, and the number of message registers it takes.\<close>

definition path_request :: "usize \<Rightarrow> usize \<Rightarrow> bytes \<Rightarrow> ipc_buffer \<Rightarrow> ipc_buffer" where
  "path_request req a3 path ib =
     snd (encode_bytes_to_mrs (put_header ib req 0 (of_nat (length path)) a3) path PATH_MR_START)"

definition path_mrs :: "bytes \<Rightarrow> usize" where
  "path_mrs path = PATH_MR_START + of_nat ((length path + 7) div 8)"

definition do_call :: "'k kernel \<Rightarrow> usize \<Rightarrow> 'k machine \<Rightarrow> ((usize \<times> usize \<times> usize) \<times> 'k machine) option" where
  "do_call kern total_mrs m =
     (let (_, m1) = seL4_Call kern FS_ENDPOINT_SLOT (total_mrs AND 0x7F) m
      in with_ipc_buffer (\<lambda>ib. ((read_mr ib 0, read_mr ib 1, read_mr ib 2), ib)) m1)"

text \<open>Write a request and call.\<close>

definition exchange ::
  "'k kernel \<Rightarrow> (ipc_buffer \<Rightarrow> ipc_buffer) \<Rightarrow> usize \<Rightarrow> 'k machine \<Rightarrow> ((usize \<times> usize \<times> usize) \<times> 'k machine) option" where
  "exchange kern request total_mrs m =
     do { (_, m1) \<leftarrow> with_ipc_buffer (\<lambda>ib. ((), request ib)) m; do_call kern total_mrs m1 }"

section \<open>Operations on paths\<close>

definition client_open :: "fd_entry \<Rightarrow> fs_client \<Rightarrow> (usize \<times> fs_client) option" where
  "client_open en c =
     do { (fd, tbl, nxt) \<leftarrow> table_open en (c_fd_table c) (c_next_fd c); Some (fd, c\<lparr> c_fd_table := tbl, c_next_fd := nxt \<rparr>) }"

definition client_close :: "usize \<Rightarrow> fs_client \<Rightarrow> fs_client" where
  "client_close fd c = c\<lparr> c_fd_table := (c_fd_table c)[unat fd := None] \<rparr>"

definition client_get :: "fs_client \<Rightarrow> usize \<Rightarrow> fd_entry option" where
  "client_get c fd = table_get (c_fd_table c) fd"

text \<open>What \<^verbatim>\<open>open\<close> does with the reply.\<close>

definition open_reply :: "bytes \<Rightarrow> usize \<Rightarrow> usize \<Rightarrow> fs_client \<Rightarrow> (sysresult \<times> fs_client) option" where
  "open_reply path status result c =
     (if status = RESP_OK then do {
        (fd, c1) \<leftarrow> client_open \<lparr> remote_fd = result, ce_path = path \<rparr> c;
        Some (Inr fd, c1)
      } else Some (Inl (ucast result), c))"

definition fs_open ::
  "'k kernel \<Rightarrow> bytes \<Rightarrow> u32 \<Rightarrow> fs_client \<Rightarrow> 'k machine \<Rightarrow> (sysresult \<times> fs_client \<times> 'k machine) option" where
  "fs_open kern path fl c m =
     (if length path > MAX_PATH_IPC then Some (Inl (- 36), c, m)
      else do {
        ((status, result, _), m1) \<leftarrow> exchange kern (path_request REQ_OPEN (ucast fl) path) (path_mrs path) m;
        (r, c1) \<leftarrow> open_reply path status result c;
        Some (r, c1, m1)
      })"

text \<open>
  What \<^verbatim>\<open>stat\<close> does with the reply: mode, size, inode and link count are read from message registers 1
  to 5.
\<close>

definition stat_reply :: "ipc_buffer \<Rightarrow> usize \<Rightarrow> usize \<Rightarrow> usize \<Rightarrow> i32 + u32 \<times> u64 \<times> u64 \<times> u32" where
  "stat_reply ib status r1 r2 =
     (if status = RESP_OK
      then Inr (ucast r1, push_bit 32 (read_mr ib 3) OR r2, read_mr ib 4, ucast (read_mr ib 5))
      else Inl (ucast r1))"

definition fs_stat ::
  "'k kernel \<Rightarrow> bytes \<Rightarrow> 'k machine \<Rightarrow> ((i32 + u32 \<times> u64 \<times> u64 \<times> u32) \<times> 'k machine) option" where
  "fs_stat kern path m =
     (if length path > MAX_PATH_IPC then Some (Inl (- 36), m)
      else do {
        ((status, r1, r2), m1) \<leftarrow> exchange kern (path_request REQ_STAT 0 path) (path_mrs path) m;
        Some (stat_reply (ipc_buf m1) status r1 r2, m1)
      })"

text \<open>\<^verbatim>\<open>mkdir\<close>, \<^verbatim>\<open>unlink\<close> and \<^verbatim>\<open>access\<close> share their body; they differ in the request and in register 3.\<close>

definition unit_reply :: "usize \<Rightarrow> usize \<Rightarrow> sysresult" where
  "unit_reply status r = (if status = RESP_OK then Inr 0 else Inl (ucast r))"

definition path_call :: "'k kernel \<Rightarrow> usize \<Rightarrow> usize \<Rightarrow> bytes \<Rightarrow> 'k machine \<Rightarrow> (sysresult \<times> 'k machine) option" where
  "path_call kern req a3 path m =
     (if length path > MAX_PATH_IPC then Some (Inl (- 36), m)
      else do {
        ((s, r, _), m1) \<leftarrow> exchange kern (path_request req a3 path) (path_mrs path) m;
        Some (unit_reply s r, m1)
      })"

definition fs_mkdir :: "'k kernel \<Rightarrow> bytes \<Rightarrow> 'k machine \<Rightarrow> (sysresult \<times> 'k machine) option" where
  "fs_mkdir kern path = path_call kern REQ_MKDIR 0 path"

definition fs_unlink :: "'k kernel \<Rightarrow> bytes \<Rightarrow> 'k machine \<Rightarrow> (sysresult \<times> 'k machine) option" where
  "fs_unlink kern path = path_call kern REQ_UNLINK 0 path"

definition fs_access :: "'k kernel \<Rightarrow> bytes \<Rightarrow> u32 \<Rightarrow> 'k machine \<Rightarrow> (sysresult \<times> 'k machine) option" where
  "fs_access kern path mode = path_call kern REQ_ACCESS (ucast mode) path"

section \<open>Operations on descriptors\<close>

text \<open>
  \<^verbatim>\<open>read\<close> and \<^verbatim>\<open>getdents64\<close> copy the payload of the reply into the caller's buffer, as much as fits;
  the first component of the result is the number of bytes copied.
\<close>

definition data_reply :: "ipc_buffer \<Rightarrow> usize \<Rightarrow> bytes \<Rightarrow> (usize \<times> bytes) option" where
  "data_reply ib r1 buf =
     do {
       dat \<leftarrow> decode_bytes_from_mrs ib DATA_MR_START r1;
       let n = min (min (unat r1) (length buf)) (length dat);
       Some (of_nat n, copy_slice buf 0 (take n dat))
     }"

definition read_reply :: "ipc_buffer \<Rightarrow> usize \<Rightarrow> usize \<Rightarrow> bytes \<Rightarrow> (sysresult \<times> bytes) option" where
  "read_reply ib status r1 buf =
     (if status = RESP_OK \<and> r1 > 0 then do { (n, buf1) \<leftarrow> data_reply ib r1 buf; Some (Inr n, buf1) }
      else if status = RESP_OK then Some (Inr 0, buf)
      else Some (Inl (ucast r1), buf))"

definition read_request :: "usize \<Rightarrow> nat \<Rightarrow> ipc_buffer \<Rightarrow> ipc_buffer" where
  "read_request remote len ib = put_header ib REQ_READ remote 0 (of_nat (min len MAX_DATA_IPC))"

definition fs_read ::
  "'k kernel \<Rightarrow> usize \<Rightarrow> bytes \<Rightarrow> fs_client \<Rightarrow> 'k machine \<Rightarrow> (sysresult \<times> bytes \<times> 'k machine) option" where
  "fs_read kern fd buf c m =
     (if fd = 0 then Some (Inr 0, buf, m)
      else if fd = 1 \<or> fd = 2 then Some (Inl (- 9), buf, m)
      else case client_get c fd of
             None \<Rightarrow> Some (Inl (- 9), buf, m)
           | Some en \<Rightarrow> do {
               ((status, r1, _), m1) \<leftarrow> exchange kern (read_request (remote_fd en) (length buf)) 5 m;
               (r, buf1) \<leftarrow> read_reply (ipc_buf m1) status r1 buf;
               Some (r, buf1, m1)
             })"

definition value_reply :: "usize \<Rightarrow> usize \<Rightarrow> sysresult" where
  "value_reply status r1 = (if status = RESP_OK then Inr r1 else Inl (ucast r1))"

definition write_request :: "usize \<Rightarrow> bytes \<Rightarrow> ipc_buffer \<Rightarrow> ipc_buffer" where
  "write_request remote dat ib =
     (let payload = min (length dat) MAX_DATA_IPC
      in snd (encode_bytes_to_mrs (put_header ib REQ_WRITE remote 0 (of_nat payload)) (take payload dat) DATA_MR_START))"

definition fs_write ::
  "'k kernel \<Rightarrow> usize \<Rightarrow> bytes \<Rightarrow> fs_client \<Rightarrow> 'k machine \<Rightarrow> (sysresult \<times> 'k machine) option" where
  "fs_write kern fd dat c m =
     (if fd = 0 then Some (Inl (- 9), m)
      else if fd = 1 \<or> fd = 2 then Some (Inr (of_nat (length dat)), fold (seL4_DebugPutChar kern) dat m)
      else case client_get c fd of
             None \<Rightarrow> Some (Inl (- 9), m)
           | Some en \<Rightarrow>
               let payload = min (length dat) MAX_DATA_IPC
               in do {
                 ((status, r1, _), m1) \<leftarrow> exchange kern (write_request (remote_fd en) dat)
                   (DATA_MR_START + of_nat ((payload + 7) div 8)) m;
                 Some (value_reply status r1, m1)
               })"

definition fs_close ::
  "'k kernel \<Rightarrow> usize \<Rightarrow> fs_client \<Rightarrow> 'k machine \<Rightarrow> (sysresult \<times> fs_client \<times> 'k machine) option" where
  "fs_close kern fd c m =
     (if fd \<le> 2 then Some (Inr 0, c, m)
      else case client_get c fd of
             None \<Rightarrow> Some (Inl (- 9), c, m)
           | Some en \<Rightarrow> do {
               ((status, r1, _), m1) \<leftarrow> exchange kern (\<lambda>ib. put_header ib REQ_CLOSE (remote_fd en) 0 0) 5 m;
               if status = RESP_OK then Some (Inr 0, client_close fd c, m1) else Some (Inl (ucast r1), c, m1)
             })"

definition getdents_reply :: "ipc_buffer \<Rightarrow> usize \<Rightarrow> usize \<Rightarrow> bytes \<Rightarrow> (sysresult \<times> bytes) option" where
  "getdents_reply ib status r1 buf =
     (if status = RESP_OK \<and> r1 > 0 then do { (_, buf1) \<leftarrow> data_reply ib r1 buf; Some (Inr r1, buf1) }
      else if status = RESP_OK then Some (Inr 0, buf)
      else Some (Inl (ucast r1), buf))"

definition fs_getdents64 ::
  "'k kernel \<Rightarrow> usize \<Rightarrow> bytes \<Rightarrow> fs_client \<Rightarrow> 'k machine \<Rightarrow> (sysresult \<times> bytes \<times> 'k machine) option" where
  "fs_getdents64 kern fd buf c m =
     (case client_get c fd of
        None \<Rightarrow> Some (Inl (- 9), buf, m)
      | Some en \<Rightarrow> do {
          ((status, r1, _), m1) \<leftarrow>
            exchange kern (\<lambda>ib. put_header ib REQ_GETDENTS64 (remote_fd en) 0 (of_nat (min (length buf) MAX_DATA_IPC))) 5 m;
          (r, buf1) \<leftarrow> getdents_reply (ipc_buf m1) status r1 buf;
          Some (r, buf1, m1)
        })"

definition fs_lseek ::
  "'k kernel \<Rightarrow> usize \<Rightarrow> isize \<Rightarrow> i32 \<Rightarrow> fs_client \<Rightarrow> 'k machine \<Rightarrow> (sysresult \<times> 'k machine) option" where
  "fs_lseek kern fd offset whence c m =
     (case client_get c fd of
        None \<Rightarrow> Some (Inl (- 9), m)
      | Some en \<Rightarrow> do {
          ((status, r1, _), m1) \<leftarrow> exchange kern (\<lambda>ib. put_header ib REQ_LSEEK (remote_fd en) offset (scast whence)) 5 m;
          Some (value_reply status r1, m1)
        })"

definition fs_file_size :: "'k kernel \<Rightarrow> usize \<Rightarrow> fs_client \<Rightarrow> 'k machine \<Rightarrow> (sysresult \<times> 'k machine) option" where
  "fs_file_size kern fd c m =
     (case client_get c fd of
        None \<Rightarrow> Some (Inl (- 9), m)
      | Some en \<Rightarrow> do {
          ((s, r, _), m1) \<leftarrow> exchange kern (\<lambda>ib. put_header ib REQ_FILE_SIZE (remote_fd en) 0 0) 5 m;
          Some (value_reply s r, m1)
        })"

section \<open>The client's descriptor table\<close>

definition client_inv :: "fs_client \<Rightarrow> bool" where
  "client_inv c \<longleftrightarrow> table_inv (c_fd_table c) (c_next_fd c)"

interpretation client_fds: fd_allocator client_get client_open client_close client_inv "\<lambda>c. length (c_fd_table c)"
proof
  fix c c' :: fs_client and v fd f
  assume "client_inv c" and "client_open v c = Some (fd, c')"
  then obtain tbl nxt where t: "table_inv (c_fd_table c) (c_next_fd c)"
    "table_open v (c_fd_table c) (c_next_fd c) = Some (fd, tbl, nxt)" "c' = c\<lparr> c_fd_table := tbl, c_next_fd := nxt \<rparr>"
    by (auto simp: client_inv_def client_open_def split: bind_splits)
  note o = table_inv_open [OF t(1,2)]
  show "client_inv c'" using o t(3) by (simp add: client_inv_def)
  show "unat fd = length (c_fd_table c) \<and> length (c_fd_table c') = Suc (length (c_fd_table c))"
    using o t(1,3) by (simp add: table_inv_def)
  show "client_get c' f = (if f = fd then Some v else client_get c f)" using o(5) t(3) by (simp add: client_get_def)
qed (simp_all add: client_inv_def client_get_def client_close_def table_inv_clear table_get_clear table_get_bound)

lemma client_inv_new [simp]: "client_inv fs_client_new"
  by (simp add: client_inv_def fs_client_new_def)

section \<open>Requests arrive\<close>

lemma put_header_ok [simp]: "ipc_buffer_ok ib \<Longrightarrow> ipc_buffer_ok (put_header ib q a1 a2 a3)"
  by (simp add: put_header_def)

lemma read_put_header:
  "ipc_buffer_ok ib \<Longrightarrow> read_mr (put_header ib q a1 a2 a3) r =
     (if r = 0 then q else if r = 1 then a1 else if r = 2 then a2 else if r = 3 then a3 else if r = 4 then 0 else read_mr ib r)"
  by (auto simp: put_header_def read_mr_write_mr)

lemma path_request_arrives:
  assumes "ipc_buffer_ok ib" and "is_utf8 path" and "length path \<le> MAX_PATH_IPC"
  shows "ipc_buffer_ok (path_request q a3 path ib)" "read_mr (path_request q a3 path ib) 0 = q" "read_mr (path_request q a3 path ib) 2 = of_nat (length path)" "read_mr (path_request q a3 path ib) 3 = a3"
    "decode_path_from_mrs (path_request q a3 path ib) PATH_MR_START (of_nat (length path)) = Some path"
proof -
  let ?h = "put_header ib q 0 (of_nat (length path)) a3"
  have fits: "mr_fits PATH_MR_START path" using assms(3) by (simp add: mr_fits_def PATH_MR_START_def MAX_PATH_IPC_def)
  have ok: "ipc_buffer_ok ?h" using assms(1) by simp
  have below: "read_mr (path_request q a3 path ib) r = read_mr ?h r" if "r < 5" for r
    unfolding path_request_def using to_server.enc_below [OF ok fits] that by (simp add: PATH_MR_START_def)
  show "ipc_buffer_ok (path_request q a3 path ib)" unfolding path_request_def using ok by (rule to_server.enc_keeps_ok)
  show "read_mr (path_request q a3 path ib) 0 = q" "read_mr (path_request q a3 path ib) 2 = of_nat (length path)" "read_mr (path_request q a3 path ib) 3 = a3"
    using assms(1) by (simp_all add: below read_put_header)
  show "decode_path_from_mrs (path_request q a3 path ib) PATH_MR_START (of_nat (length path)) = Some path"
    unfolding path_request_def using to_server.dec_enc [OF ok fits assms(2)] .
qed

lemma ucast_ucast_u32 [simp]: "ucast (ucast (x :: u32) :: usize) = x"
  by (rule bit_word_eqI) (auto simp: bit_simps)

text \<open>What a reply says, as the client reads it from message registers 0 and 1.\<close>

lemma reply_with_ok: "ipc_buffer_ok (ipc_buf m) \<Longrightarrow> ipc_buffer_ok (ipc_buf (snd (reply_with write_response resp m)))"
  by (simp add: reply_with_def split_beta)

lemma reply_value:
  assumes "ipc_buffer_ok (ipc_buf m)"
  shows "read_mr (ipc_buf (snd (reply_with write_response (Ok v) m))) 0 = RESP_OK"
    "read_mr (ipc_buf (snd (reply_with write_response (Ok v) m))) 1 = v"
    "read_mr (ipc_buf (snd (reply_with write_response (Err e) m))) 0 = RESP_ERR"
    "ucast (read_mr (ipc_buf (snd (reply_with write_response (Err e) m))) 1) = e"
  using assms by (simp_all add: reply_with_def write_response_def read_mr_write_mr)

lemma reply_data:
  assumes "ipc_buffer_ok (ipc_buf m)" and "length dat \<le> MAX_DATA_IPC"
  shows "read_mr (ipc_buf (snd (reply_with write_response (OkWithData dat) m))) 0 = RESP_OK"
    "read_mr (ipc_buf (snd (reply_with write_response (OkWithData dat) m))) 1 = of_nat (length dat)"
    "decode_bytes_from_mrs (ipc_buf (snd (reply_with write_response (OkWithData dat) m))) DATA_MR_START (of_nat (length dat)) = Some dat"
proof -
  let ?ib = "write_mr (write_mr (ipc_buf m) 0 RESP_OK) 1 (of_nat (length dat))"
  have "mr_fits DATA_MR_START dat" using assms(2) by (simp add: mr_fits_def DATA_MR_START_def MAX_DATA_IPC_def)
  moreover have "ipc_buffer_ok ?ib" using assms(1) by simp
  ultimately show "read_mr (ipc_buf (snd (reply_with write_response (OkWithData dat) m))) 0 = RESP_OK"
    "read_mr (ipc_buf (snd (reply_with write_response (OkWithData dat) m))) 1 = of_nat (length dat)"
    "decode_bytes_from_mrs (ipc_buf (snd (reply_with write_response (OkWithData dat) m))) DATA_MR_START (of_nat (length dat)) = Some dat"
    using assms(1) to_client.dec_enc [of ?ib DATA_MR_START dat] to_client.enc_below [of ?ib DATA_MR_START dat]
    by (simp_all add: reply_with_def write_response_def split_beta Let_def read_mr_write_mr DATA_MR_START_def)
qed

lemma RESP_distinct [simp]: "RESP_OK \<noteq> RESP_ERR" "RESP_ERR \<noteq> RESP_OK"
  by (simp_all add: RESP_OK_def RESP_ERR_def)

section \<open>A round of the service\<close>

text \<open>
  The machine of the service when the kernel returns from \<^verbatim>\<open>SYS_RECV\<close>, before \<^verbatim>\<open>seL4_Recv\<close> copies the registers, and a
  message delivered to it as the kernel interface defines: words 0 to 3 in \<^verbatim>\<open>r10\<close>, \<^verbatim>\<open>r8\<close>, \<^verbatim>\<open>r9\<close> and \<^verbatim>\<open>r15\<close>, the others, up
  to the length of the message, in the IPC buffer.
\<close>

definition received :: "'k kernel \<Rightarrow> usize \<Rightarrow> 'k machine \<Rightarrow> 'k machine" where
  "received kern src m = syscall_insn kern (\<lambda>c. c\<lparr> c_rdx := SYS_RECV, c_rdi := src, c_rsi := 0 \<rparr>) m"

definition delivers :: "usize \<Rightarrow> ipc_buffer \<Rightarrow> 'k machine \<Rightarrow> bool" where
  "delivers n req m \<longleftrightarrow> ipc_set m \<and> ipc_buffer_ok (ipc_buf m) \<and>
     (\<forall>i < unat n. get_syscall_arg (cpu m) (ipc_buf m) i = read_mr req (of_nat i))"

lemma recv_delivered:
  assumes "delivers n req (received kern src m)" and "4 \<le> unat n" and "unat n \<le> 120"
  obtains out m1 where "seL4_Recv kern src m = Some (out, m1)" and "ipc_set m1" and "ipc_buffer_ok (ipc_buf m1)"
    and "\<And>r. unat r < unat n \<Longrightarrow> read_mr (ipc_buf m1) r = read_mr req r"
proof -
  let ?m = "received kern src m" and ?c = "cpu (received kern src m)"
  let ?ib = "write_mr (write_mr (write_mr (write_mr (ipc_buf ?m) 0 (c_r10 ?c)) 1 (c_r8 ?c)) 2 (c_r9 ?c)) 3 (c_r15 ?c)"
  have ok: "ipc_set ?m" "ipc_buffer_ok (ipc_buf ?m)"
    and arg: "\<And>i. i < unat n \<Longrightarrow> get_syscall_arg ?c (ipc_buf ?m) i = read_mr req (of_nat i)"
    using assms(1) by (simp_all add: delivers_def)
  have "seL4_Recv kern src m = Some ((c_rsi ?c, c_rdi ?c), ?m\<lparr> ipc_buf := ?ib \<rparr>)"
    using ok(1) by (simp add: seL4_Recv_def received_def with_ipc_buffer_def Let_def)
  moreover have "read_mr ?ib r = read_mr req r" if r: "unat r < unat n" for r
  proof -
    have "get_syscall_arg ?c (ipc_buf ?m) (unat r) = read_mr req r" using arg [OF r] by simp
    moreover have "msg (ipc_buf ?m) ! unat r = read_mr (ipc_buf ?m) r" using r assms(3) by (simp add: read_mr_def)
    moreover have "r = 0 \<longleftrightarrow> unat r = 0" "r = 1 \<longleftrightarrow> unat r = 1" "r = 2 \<longleftrightarrow> unat r = 2" "r = 3 \<longleftrightarrow> unat r = 3"
      by (simp_all add: word_unat_eq_iff)
    ultimately show ?thesis using ok(2) by (auto simp: get_syscall_arg_def read_mr_write_mr split: if_splits)
  qed
  ultimately show thesis using that ok by simp
qed

lemma decode_path_cong:
  assumes "\<And>r. unat start \<le> unat r \<Longrightarrow> unat r < unat start + (unat len + 7) div 8 \<Longrightarrow> read_mr a r = read_mr b r"
    and "unat start + (unat len + 7) div 8 \<le> 120"
  shows "decode_path_from_mrs a start len = decode_path_from_mrs b start len"
proof -
  have len: "unat len < 2 ^ 63" using assms(2) by simp
  have "read_mr a (start + of_nat (k div 8)) = read_mr b (start + of_nat (k div 8))" if "k < unat len" for k
  proof -
    have k: "k div 8 < (unat len + 7) div 8" using that by linarith
    then have "unat (of_nat (k div 8) :: usize) = k div 8" using assms(2) by (intro unat_of_nat_small) simp
    then have "unat (start + of_nat (k div 8)) = unat start + k div 8"
      using k assms(2) unat_plus_no_wrap [of start "of_nat (k div 8)"] by simp
    then show ?thesis using assms(1) k by simp
  qed
  then have "map (\<lambda>k. mr_byte (read_mr a (start + of_nat (k div 8))) (k mod 8)) [0..<unat len] =
      map (\<lambda>k. mr_byte (read_mr b (start + of_nat (k div 8))) (k mod 8)) [0..<unat len]"
    by (intro map_cong refl) simp
  then show ?thesis using len by (simp only: decode_path_lossy decode_bytes_nth)
qed

text \<open>From a received message and the answer of the dispatcher, the round of the service.\<close>

lemma service_round:
  assumes "seL4_Recv kern FS_ENDPOINT_SLOT m = Some (out, m1)" and "ipc_set m1" and "dispatch kern I s m1 = Some (n, s', m2)"
  shows "service_step kern I (s, m) = Some (s', seL4_Reply kern (n AND 0x7F) m2)"
  using assms by (simp add: service_step_def)

lemma path_mrs_bounds:
  assumes "length path \<le> MAX_PATH_IPC"
  shows "unat (path_mrs path) = 5 + (length path + 7) div 8" "unat (path_mrs path) \<le> 120"
proof -
  have le: "5 + (length path + 7) div 8 \<le> 120" using assms by (simp add: MAX_PATH_IPC_def)
  then have "unat (of_nat ((length path + 7) div 8) :: usize) = (length path + 7) div 8" by (intro unat_of_nat_small) simp
  then show "unat (path_mrs path) = 5 + (length path + 7) div 8"
    using le unat_plus_no_wrap [of PATH_MR_START "of_nat ((length path + 7) div 8)"] by (simp add: path_mrs_def PATH_MR_START_def)
  then show "unat (path_mrs path) \<le> 120" using le by simp
qed

text \<open>
  C1. A request to open a file is served: when the kernel hands the service the message that the client builds for a path of
  at most 920 bytes of UTF-8, as the kernel interface delivers messages (its first four words in CPU registers, the others in
  the IPC buffer, nothing beyond the announced length), one round of the service, which is \<^verbatim>\<open>seL4_Recv\<close>, the dispatcher and
  \<^verbatim>\<open>seL4_Reply\<close>, runs the open handler on exactly that path and those flags and enters the kernel to reply with two message
  registers; the buffer it leaves there makes the client return its next local descriptor, bound to the remote descriptor
  and the path, when the handler opened the file, and the handler's error number otherwise. The claim says nothing on how
  the words travel: the client's \<^verbatim>\<open>seL4_Call\<close> and the service's \<^verbatim>\<open>seL4_Reply\<close> do not load the four registers (see C25).
\<close>

theorem open_served:
  assumes "ipc_buffer_ok b" and "is_utf8 path" and "length path \<le> MAX_PATH_IPC"
    and "delivers (path_mrs path) (path_request REQ_OPEN (ucast fl) path b) (received kern FS_ENDPOINT_SLOT m)"
    and "handle_open_with_path I path fl s = Some (resp, s')"
    and "client_inv c" and "length (c_fd_table c) + 1 < 2 ^ 63"
  shows "\<exists>m2. service_step kern I (s, m) = Some (s', seL4_Reply kern 2 m2) \<and>
    (case resp of
       Ok r \<Rightarrow> \<exists>c'. open_reply path (read_mr (ipc_buf m2) 0) (read_mr (ipc_buf m2) 1) c = Some (Inr (c_next_fd c), c') \<and>
         client_inv c' \<and> client_get c' = (client_get c)(c_next_fd c \<mapsto> \<lparr> remote_fd = r, ce_path = path \<rparr>)
     | Err e \<Rightarrow> open_reply path (read_mr (ipc_buf m2) 0) (read_mr (ipc_buf m2) 1) c = Some (Inl e, c)
     | _ \<Rightarrow> False)"
proof -
  let ?req = "path_request REQ_OPEN (ucast fl) path b"
  note req = path_request_arrives [OF assms(1-3), of REQ_OPEN "ucast fl"] and n = path_mrs_bounds [OF assms(3)]
  have "4 \<le> unat (path_mrs path)" using n(1) by simp
  from recv_delivered [OF assms(4) this n(2)] obtain out m1 where m1: "seL4_Recv kern FS_ENDPOINT_SLOT m = Some (out, m1)"
    "ipc_set m1" "ipc_buffer_ok (ipc_buf m1)" and rd: "\<And>r. unat r < unat (path_mrs path) \<Longrightarrow> read_mr (ipc_buf m1) r = read_mr ?req r"
    by blast
  have hdr: "read_mr (ipc_buf m1) 0 = 1" "read_mr (ipc_buf m1) 2 = of_nat (length path)" "read_mr (ipc_buf m1) 3 = ucast fl"
    using rd [of 0] rd [of 2] rd [of 3] n(1) req(2-4) by (simp_all add: REQ_OPEN_def)
  have "unat (of_nat (length path) :: usize) = length path" using assms(3) by (intro unat_of_nat_small) (simp add: MAX_PATH_IPC_def)
  then have "decode_path_from_mrs (ipc_buf m1) PATH_MR_START (of_nat (length path)) = Some path"
    using decode_path_cong [of PATH_MR_START "of_nat (length path)" "ipc_buf m1" ?req] rd n req(5) by (simp add: PATH_MR_START_def)
  then have d: "dispatch kern I s m1 = Some (fst (reply_with write_response resp m1), s', snd (reply_with write_response resp m1))"
    using assms(5) by (simp add: dispatch_def hdr on_path_def split_beta Let_def)
  from assms(5) consider r where "resp = Ok r" | e where "resp = Err e"
    by (auto simp: handle_open_with_path_def split: if_splits bind_splits sum.splits)
  then have "fst (reply_with write_response resp m1) AND 0x7F = 2"
    by cases (simp_all add: reply_with_def write_response_def)
  with service_round [OF m1(1,2) d]
  have step: "service_step kern I (s, m) = Some (s', seL4_Reply kern 2 (snd (reply_with write_response resp m1)))" by simp
  from \<open>handle_open_with_path I path fl s = Some (resp, s')\<close> consider r where "resp = Ok r" | e where "resp = Err e"
    by (auto simp: handle_open_with_path_def split: if_splits bind_splits sum.splits)
  then show ?thesis
  proof cases
    case (1 r)
    from table_open_total [of "c_fd_table c" "c_next_fd c" "\<lparr> remote_fd = r, ce_path = path \<rparr>"] assms(6,7)
    obtain c' where c': "client_open \<lparr> remote_fd = r, ce_path = path \<rparr> c = Some (c_next_fd c, c')"
      by (auto simp: client_inv_def client_open_def)
    then show ?thesis using step 1 reply_value(1,2) [OF m1(3)] client_fds.open_inv [OF assms(6) c'] client_fds.open_get [OF assms(6) c']
      by (intro exI [of _ "snd (reply_with write_response resp m1)"]) (auto simp: open_reply_def fun_eq_iff)
  next
    case (2 e)
    then show ?thesis using step reply_value(3,4) [OF m1(3)]
      by (intro exI [of _ "snd (reply_with write_response resp m1)"]) (simp add: open_reply_def)
  qed
qed

lemma str_a_utf8: "is_utf8 (str ''/a'')"
  unfolding is_utf8_def by (rule lossy_ascii) (simp add: str_def)

lemma path_request_4:
  assumes "ipc_buffer_ok ib" and "length path \<le> MAX_PATH_IPC"
  shows "read_mr (path_request q a3 path ib) 4 = 0"
proof -
  have "mr_fits PATH_MR_START path" using assms(2) by (simp add: mr_fits_def PATH_MR_START_def MAX_PATH_IPC_def)
  then show ?thesis using to_server.enc_below [of "put_header ib q 0 (of_nat (length path)) a3" PATH_MR_START path 4] assms(1)
    by (simp add: path_request_def PATH_MR_START_def read_put_header)
qed

text \<open>A kernel that has one message for every receiver: the first four words in registers, the buffer with these words cleared.\<close>

definition mail_kernel :: "ipc_buffer \<Rightarrow> unit kernel" where
  "mail_kernel req c b k =
     (if c_rdx c = SYS_RECV
      then (c\<lparr> c_r10 := read_mr req 0, c_r8 := read_mr req 1, c_r9 := read_mr req 2, c_r15 := read_mr req 3 \<rparr>,
            put_header req 0 0 0 0, k)
      else (c, b, k))"

lemma mail_kernel_delivers:
  assumes "ipc_buffer_ok req" and "ipc_set m" and "unat n \<le> 120" and "read_mr req 4 = 0"
  shows "delivers n req (received (mail_kernel req) FS_ENDPOINT_SLOT m)"
proof -
  let ?m = "received (mail_kernel req) FS_ENDPOINT_SLOT m"
  have m: "cpu ?m = (cpu m)\<lparr> c_rdx := SYS_RECV, c_rdi := FS_ENDPOINT_SLOT, c_rsi := 0, c_r10 := read_mr req 0, c_r8 := read_mr req 1,
      c_r9 := read_mr req 2, c_r15 := read_mr req 3 \<rparr>" "ipc_buf ?m = put_header req 0 0 0 0" "ipc_set ?m = ipc_set m"
    by (simp_all add: received_def syscall_insn_def mail_kernel_def split_beta)
  have "get_syscall_arg (cpu ?m) (ipc_buf ?m) i = read_mr req (of_nat i)" if "i < unat n" for i
  proof (cases "i < 4")
    case True
    then consider "i = 0" | "i = 1" | "i = 2" | "i = 3" by linarith
    then show ?thesis by cases (simp_all add: get_syscall_arg_def m)
  next
    case False
    have i: "unat (of_nat i :: usize) = i" using that assms(3) by (intro unat_of_nat_small) simp
    then have "msg (put_header req 0 0 0 0) ! i = read_mr (put_header req 0 0 0 0) (of_nat i)"
      using that assms(3) by (simp add: read_mr_def)
    also have "\<dots> = read_mr req (of_nat i)"
      using False assms(1,4) i by (auto simp: read_put_header word_unat_eq_iff)
    finally show ?thesis using False by (simp add: get_syscall_arg_def m)
  qed
  then show ?thesis using assms(1,2) m by (simp add: delivers_def)
qed

theorem open_served_witness:
  "\<exists>s' m2 c'. service_step (mail_kernel (path_request REQ_OPEN 0 (str ''/a'') ipc_buffer_new)) mem_iface
       (fs_service_new sample_ext4, sample_machine) =
       Some (s', seL4_Reply (mail_kernel (path_request REQ_OPEN 0 (str ''/a'') ipc_buffer_new)) 2 m2) \<and>
     open_reply (str ''/a'') (read_mr (ipc_buf m2) 0) (read_mr (ipc_buf m2) 1) fs_client_new = Some (Inr 3, c') \<and>
     client_get c' 3 = Some \<lparr> remote_fd = 3, ce_path = str ''/a'' \<rparr>"
proof -
  let ?req = "path_request REQ_OPEN (ucast (0 :: u32)) (str ''/a'') ipc_buffer_new"
  have len: "length (str ''/a'') \<le> MAX_PATH_IPC" by (simp add: MAX_PATH_IPC_def)
  note req = path_request_arrives [OF ipc_buffer_new_ok str_a_utf8 len, of REQ_OPEN "ucast (0 :: u32)"]
  have "delivers (path_mrs (str ''/a'')) ?req (received (mail_kernel ?req) FS_ENDPOINT_SLOT sample_machine)"
    using path_mrs_bounds(2) [OF len] by (intro mail_kernel_delivers req) (simp_all add: path_request_4 [OF ipc_buffer_new_ok len])
  from open_served [OF ipc_buffer_new_ok str_a_utf8 len this sample_open client_inv_new]
  show ?thesis by (fastforce simp: fs_client_new_def table_new_def)
qed

section \<open>Requests on descriptors\<close>

lemma handle_read_cases:
  assumes "keeps_length I" and "handle_read I fd cnt s = Some (resp, s')"
  obtains (zero) "resp = Ok 0" | (err) "resp = Err (- 9)" | (data) d where "resp = OkWithData d" "length d \<le> unat cnt"
proof -
  have "length buf' = unat cnt" if "i_read_at I i off (replicate (unat cnt) 0) e = Some ((a, buf'), e')" for i off e a buf' e'
    using assms(1) that unfolding keeps_length_def by (metis length_replicate)
  then show thesis using assms(2) that
    by (auto simp: handle_read_def zeroed_def split: if_splits bind_splits option.splits)
qed

lemma data_reply_exact:
  assumes "decode_bytes_from_mrs ib DATA_MR_START (of_nat (length d)) = Some d" and "length d \<le> length buf" and "length d \<le> MAX_DATA_IPC"
  shows "data_reply ib (of_nat (length d)) buf = Some (of_nat (length d), d @ drop (length d) buf)"
proof -
  have "unat (of_nat (length d) :: usize) = length d" using assms(3) by (intro unat_of_nat_small) (simp add: MAX_DATA_IPC_def)
  then show ?thesis using assms by (simp add: data_reply_def copy_slice_def Let_def)
qed

lemma read_reply_data:
  assumes "ipc_buffer_ok (ipc_buf m)" and "length d \<le> length buf" and "length d \<le> MAX_DATA_IPC"
  shows "read_reply (ipc_buf (snd (reply_with write_response (OkWithData d) m)))
      (read_mr (ipc_buf (snd (reply_with write_response (OkWithData d) m))) 0)
      (read_mr (ipc_buf (snd (reply_with write_response (OkWithData d) m))) 1) buf =
    Some (Inr (of_nat (length d)), d @ drop (length d) buf)"
proof -
  note r = reply_data [OF assms(1,3)]
  have "(of_nat (length d) :: usize) > 0 \<longleftrightarrow> d \<noteq> []"
    using unat_of_nat_small [of "length d", where 'a = 64] assms(3) by (auto simp: word_less_nat_alt MAX_DATA_IPC_def)
  then show ?thesis using r data_reply_exact [OF r(3) assms(2,3)] by (auto simp: read_reply_def)
qed

text \<open>
  C18. A request to read is served: when the kernel hands the service the message that the client builds for a read on a
  remote descriptor, as the kernel interface delivers messages, one round of the service runs the read handler on that
  descriptor with the buffer's length, capped at 944, and enters the kernel to reply with a tag that covers the reply; the
  buffer it leaves there makes the client store exactly the bytes the handler returned at the start of the caller's
  buffer, leave the rest of it alone and return their number; an error comes back unchanged. The file system keeps the
  length of the buffers it fills. The claim says nothing on how the words travel (see C25).
\<close>

theorem read_served:
  assumes "ipc_buffer_ok b" and "keeps_length I"
    and "delivers 5 (read_request remote (length buf) b) (received kern FS_ENDPOINT_SLOT m)"
    and "handle_read I remote (of_nat (min (length buf) MAX_DATA_IPC)) s = Some (resp, s')"
  shows "\<exists>n m2. service_step kern I (s, m) = Some (s', seL4_Reply kern n m2) \<and> unat n = response_mrs resp \<and>
    read_reply (ipc_buf m2) (read_mr (ipc_buf m2) 0) (read_mr (ipc_buf m2) 1) buf =
      Some (case resp of
              OkWithData d \<Rightarrow> (Inr (of_nat (length d)), d @ drop (length d) buf)
            | Err e \<Rightarrow> (Inl e, buf)
            | _ \<Rightarrow> (Inr 0, buf))"
proof -
  let ?n = "of_nat (min (length buf) MAX_DATA_IPC) :: usize"
  from recv_delivered [OF assms(3)] obtain out m1 where m1: "seL4_Recv kern FS_ENDPOINT_SLOT m = Some (out, m1)"
    "ipc_set m1" "ipc_buffer_ok (ipc_buf m1)"
    and rd: "\<And>r. unat r < unat (5 :: usize) \<Longrightarrow> read_mr (ipc_buf m1) r = read_mr (read_request remote (length buf) b) r"
    by auto
  have hdr: "read_mr (ipc_buf m1) 0 = 2" "read_mr (ipc_buf m1) 1 = remote" "read_mr (ipc_buf m1) 3 = ?n"
    using rd [of 0] rd [of 1] rd [of 3] assms(1) by (simp_all add: read_request_def read_put_header REQ_defs)
  let ?m2 = "snd (reply_with write_response resp m1)"
  have d: "dispatch kern I s m1 = Some (fst (reply_with write_response resp m1), s', ?m2)"
    unfolding dispatch_def Let_def hdr using assms(4) by (simp add: on_request_def handle_request_def write_response_eq split_beta)
  have un: "unat ?n = min (length buf) MAX_DATA_IPC" by (intro unat_of_nat_small) (simp add: MAX_DATA_IPC_def)
  have small: "response_bytes resp \<le> min (length buf) MAX_DATA_IPC"
    using assms(2,4) un by (cases rule: handle_read_cases) simp_all
  then have "unat (fst (reply_with write_response resp m1)) = response_mrs resp" "response_mrs resp < 128"
    using write_response_count [of resp "ipc_buf m1"] response_mrs_bounds(2) [of resp]
      div_le_mono [of "response_bytes resp + 7" 951 8] by (simp_all add: reply_with_def split_beta MAX_DATA_IPC_def)
  then have n: "unat (fst (reply_with write_response resp m1) AND 0x7F) = response_mrs resp" by (simp add: masked_count)
  have "read_reply (ipc_buf ?m2) (read_mr (ipc_buf ?m2) 0) (read_mr (ipc_buf ?m2) 1) buf =
      Some (case resp of OkWithData d \<Rightarrow> (Inr (of_nat (length d)), d @ drop (length d) buf) | Err e \<Rightarrow> (Inl e, buf) | _ \<Rightarrow> (Inr 0, buf))"
    using assms(2,4)
  proof (cases rule: handle_read_cases)
    case (data d)
    have "length d \<le> length buf" "length d \<le> MAX_DATA_IPC" using data(2) un by simp_all
    then show ?thesis using data(1) read_reply_data [OF m1(3)] by simp
  qed (use reply_value(1,2) [OF m1(3), of 0] reply_value(3,4) [OF m1(3), of "- 9"] in \<open>simp_all add: read_reply_def\<close>)
  then show ?thesis using service_round [OF m1(1,2) d] n by blast
qed

lemma sample_read:
  "handle_read mem_iface 3 9 sample_service =
     Some (OkWithData (str ''hello''), set_entry 3 (hello_entry\<lparr> fe_offset := 5 \<rparr>)
       (sample_service\<lparr> fs := sample_ext4\<lparr> stores := [Some (str ''/'', 0), Some (str ''/a'', Suc (Suc (Suc (Suc (Suc 0)))))] \<rparr> \<rparr>))"
  by (simp add: handle_read_def table_get_def sample_service_def hello_entry_def zeroed_def ext4fs_iface_def ext4_read_at_def
      mem_lib_def sample_ext4_def mem_content_def str_def unwrap_def copy_slice_def)

theorem read_served_witness:
  "\<exists>n s' m2. service_step (mail_kernel (read_request 3 9 ipc_buffer_new)) mem_iface (sample_service, sample_machine) =
       Some (s', seL4_Reply (mail_kernel (read_request 3 9 ipc_buffer_new)) n m2) \<and> unat n = 3 \<and>
     read_reply (ipc_buf m2) (read_mr (ipc_buf m2) 0) (read_mr (ipc_buf m2) 1) (replicate 9 1) = Some (Inr 5, str ''hello'' @ [1, 1, 1, 1])"
proof -
  let ?buf = "replicate 9 (1 :: u8)" and ?req = "read_request 3 (length (replicate 9 (1 :: u8))) ipc_buffer_new"
  have del: "delivers 5 ?req (received (mail_kernel ?req) FS_ENDPOINT_SLOT sample_machine)"
    by (rule mail_kernel_delivers) (simp_all add: read_request_def read_put_header)
  have "handle_read mem_iface 3 (of_nat (min (length ?buf) MAX_DATA_IPC)) sample_service = handle_read mem_iface 3 9 sample_service"
    by (simp add: MAX_DATA_IPC_def)
  note h = this [unfolded sample_read]
  have "drop 5 ?buf = [1, 1, 1, 1]" by (simp add: numeral_eq_Suc)
  with read_served [OF ipc_buffer_new_ok mem_iface_keeps del h] show ?thesis by fastforce
qed

section \<open>Every response, as the client reads it\<close>

text \<open>
  The client decodes a listing from register 2 on, where the service has put the next offset: its bytes come first, and the
  listing is shifted behind them.
\<close>

lemma to_le_nth_mr: "k < 8 \<Longrightarrow> to_le 8 (w :: usize) ! k = mr_byte w k"
  by (rule bit_word_eqI) (auto simp: to_le_def mr_byte_bit bit_simps add.commute mult.commute)

lemma listing_shifted:
  assumes "ipc_buffer_ok ib" and "length dat + 8 \<le> MAX_DATA_IPC"
  shows "decode_bytes_from_mrs (snd (write_response ib (OkWithData2 dat extra))) DATA_MR_START (of_nat (length dat)) =
    Some (take (length dat) (to_le 8 extra @ dat))"
proof -
  let ?h = "write_mr (write_mr (write_mr ib 0 RESP_OK) 1 (of_nat (length dat))) 2 extra"
  let ?w = "snd (write_response ib (OkWithData2 dat extra))"
  have w: "?w = snd (encode_bytes_to_mrs ?h dat 3)" by (simp add: write_response_def encode_data_eq split_beta Let_def)
  have fits: "unat (3 :: usize) + (length dat + 7) div 8 \<le> 120" using assms(2) by (simp add: MAX_DATA_IPC_def)
  have reg: "read_mr ?w r = (if 3 \<le> unat r \<and> unat r < 3 + (length dat + 7) div 8 then chunk_word dat (unat r - 3) else read_mr ?h r)" for r
    unfolding w using read_mr_encode [OF _ fits, of ?h r] assms(1) by simp
  have len: "unat (of_nat (length dat) :: usize) = length dat"
    using assms(2) by (intro unat_of_nat_small) (simp add: MAX_DATA_IPC_def)
  have "mr_byte (read_mr ?w (2 + of_nat (k div 8))) (k mod 8) = (to_le 8 extra @ dat) ! k" if k: "k < length dat" for k
  proof (cases "k < 8")
    case True
    then show ?thesis using reg [of 2] assms(1) by (simp add: read_mr_write_mr nth_append to_le_nth_mr)
  next
    case False
    have small: "k div 8 < (length dat + 7) div 8" using k by linarith
    then have "unat (of_nat (k div 8) :: usize) = k div 8" using fits by (intro unat_of_nat_small) simp
    then have r: "unat (2 + of_nat (k div 8) :: usize) = 2 + k div 8"
      using small fits unat_plus_no_wrap [of "2 :: usize" "of_nat (k div 8)"] by simp
    have "1 \<le> k div 8" using False by simp
    then have "read_mr ?w (2 + of_nat (k div 8)) = chunk_word dat (k div 8 - 1)" using reg small by (simp add: r)
    moreover have "(k div 8 - 1) * 8 + k mod 8 = k - 8" using False by (simp add: diff_mult_distrib)
    ultimately show ?thesis using False k mr_byte_chunk [of "k div 8 - 1" "k mod 8" dat] by (simp add: nth_append)
  qed
  then have "map (\<lambda>k. mr_byte (read_mr ?w (2 + of_nat (k div 8))) (k mod 8)) [0..<length dat] = take (length dat) (to_le 8 extra @ dat)"
    by (intro nth_equalityI) (simp_all del: take_append)
  moreover have "length dat < 2 ^ 63" using assms(2) by (simp add: MAX_DATA_IPC_def)
  ultimately show ?thesis by (simp add: decode_bytes_nth len DATA_MR_START_def)
qed

text \<open>
  C23. What the client makes of every response, whichever of the two writers of the service has put it into the buffer and
  whatever the buffer held before: a value or an error number comes back unchanged, through the conversion of the error to
  a machine word and back; two values are found in registers 1 and 2; the data of a read, up to the 944 bytes the registers
  hold, is stored byte for byte at the start of the caller's buffer. A listing is not: the service puts the next offset
  into register 2 and the listing behind it, the client decodes from register 2 on, so that it stores the eight bytes of
  the offset and then the listing without its last eight bytes, and reports the full length.
\<close>

theorem response_as_read:
  assumes "ipc_buffer_ok ib" and "write = write_response \<or> write = write_response_maybe_data"
    and "response_bytes resp \<le> length buf" and "response_mrs resp \<le> 120"
  shows "let ib' = snd (write ib resp); status = read_mr ib' 0; r1 = read_mr ib' 1 in unat (fst (write ib resp) AND 0x7F) = response_mrs resp \<and>
    (case resp of
      Ok v \<Rightarrow> value_reply status r1 = Inr v
    | Ok2 a b \<Rightarrow> value_reply status r1 = Inr a \<and> read_mr ib' 2 = b
    | Err e \<Rightarrow> value_reply status r1 = Inl e \<and> unit_reply status r1 = Inl e \<and> read_reply ib' status r1 buf = Some (Inl e, buf)
    | OkWithData dat \<Rightarrow> read_reply ib' status r1 buf = Some (Inr (of_nat (length dat)), dat @ drop (length dat) buf)
    | OkWithData2 dat extra \<Rightarrow> getdents_reply ib' status r1 buf =
        Some (Inr (of_nat (length dat)), take (length dat) (to_le 8 extra @ dat) @ drop (length dat) buf))"
proof -
  have w: "write = write_response" using assms(2) write_response_eq by auto
  have "response_bytes resp < 2 ^ 63" using assms(4) by (cases resp) simp_all
  then have n: "unat (fst (write ib resp) AND 0x7F) = response_mrs resp"
    using write_response_count [of resp ib] assms(4) by (simp add: w masked_count)
  show ?thesis
  proof (cases resp)
    case (OkWithData dat)
    then have "length dat \<le> MAX_DATA_IPC" using assms(4) by (simp add: MAX_DATA_IPC_def)
    with OkWithData n show ?thesis using read_reply_data [of "undefined\<lparr> ipc_buf := ib \<rparr>" dat buf] assms(1,3)
      by (simp add: w reply_with_def split_beta Let_def)
  next
    case (OkWithData2 dat extra)
    then have len: "length dat + 8 \<le> MAX_DATA_IPC" using assms(4) by (simp add: MAX_DATA_IPC_def)
    let ?w = "snd (write_response ib (OkWithData2 dat extra))"
    have low: "read_mr ?w 0 = RESP_OK" "read_mr ?w 1 = of_nat (length dat)"
      using len assms(1) by (simp_all add: write_response_def split_beta Let_def read_mr_data_low read_mr_write_mr MAX_DATA_IPC_def)
    have un: "unat (of_nat (length dat) :: usize) = length dat" using len by (intro unat_of_nat_small) (simp add: MAX_DATA_IPC_def)
    then have "(of_nat (length dat) :: usize) > 0 \<longleftrightarrow> dat \<noteq> []" by (auto simp: word_less_nat_alt)
    moreover have "take (length dat - min 8 (length dat)) dat = take (length dat - 8) dat" by (simp add: min_def)
    ultimately show ?thesis using n low listing_shifted [OF assms(1) len, of extra] assms(3) un OkWithData2
      by (auto simp: w getdents_reply_def data_reply_def copy_slice_def Let_def)
  qed (use n assms(1) in \<open>simp_all add: w write_response_def read_mr_write_mr value_reply_def unit_reply_def read_reply_def Let_def\<close>)
qed

theorem response_as_read_witness:
  "read_reply (snd (write_response ipc_buffer_new (OkWithData [1, 2, 3]))) 0 3 [9, 9, 9, 9] = Some (Inr 3, [1, 2, 3, 9]) \<and>
   getdents_reply (snd (write_response_maybe_data ipc_buffer_new (OkWithData2 [1, 2, 3, 4, 5, 6, 7, 8, 9] 7))) 0 9 (replicate 9 0) =
     Some (Inr 9, [7, 0, 0, 0, 0, 0, 0, 0, 1])"
proof -
  have "read_mr (snd (write_response ipc_buffer_new (OkWithData [1, 2, 3]))) 0 = 0"
    "read_mr (snd (write_response ipc_buffer_new (OkWithData [1, 2, 3]))) 1 = 3"
    "read_mr (snd (write_response_maybe_data ipc_buffer_new (OkWithData2 [1, 2, 3, 4, 5, 6, 7, 8, 9] 7))) 0 = 0"
    "read_mr (snd (write_response_maybe_data ipc_buffer_new (OkWithData2 [1, 2, 3, 4, 5, 6, 7, 8, 9] 7))) 1 = 9"
    by (simp_all add: write_response_eq write_response_def split_beta Let_def read_mr_data_low read_mr_write_mr RESP_OK_def DATA_MR_START_def)
  moreover have "to_le 8 (7 :: usize) = [7, 0, 0, 0, 0, 0, 0, 0]" by code_simp
  ultimately show ?thesis
    using response_as_read [of ipc_buffer_new write_response "OkWithData [1, 2, 3]" "[9, 9, 9, 9]"]
      response_as_read [of ipc_buffer_new write_response_maybe_data "OkWithData2 [1, 2, 3, 4, 5, 6, 7, 8, 9] 7" "replicate 9 0"]
    by (simp add: Let_def)
qed

section \<open>Where the two sides disagree\<close>

text \<open>
  A write of more than eight bytes loses its length: the client stores the length in register 3 and
  then the data from register 2 on, so the service takes bytes 8 to 15 of the data for the length.
\<close>

lemma write_length_clobbered:
  assumes "ipc_buffer_ok b" and "8 < length dat" and "length dat \<le> MAX_DATA_IPC"
  shows "read_mr (write_request remote dat b) 3 = chunk_word dat 1"
proof -
  have "unat DATA_MR_START + (length dat + 7) div 8 \<le> 120" using assms(3) by (simp add: DATA_MR_START_def MAX_DATA_IPC_def)
  moreover have "Suc 0 < (length dat + 7) div 8" using assms(2) by linarith
  ultimately show ?thesis using read_mr_encode [of "put_header b REQ_WRITE remote 0 (of_nat (length dat))" DATA_MR_START dat 3] assms
    by (simp add: write_request_def DATA_MR_START_def min_def)
qed

text \<open>
  A stat reply is misread: the service packs the fields into a 20-byte payload, so register 1 holds
  20, which the client returns as the mode of every file.
\<close>

lemma stat_mode_is_20:
  assumes "ipc_buffer_ok (ipc_buf m)" and "handle_stat_with_path I path s = Some (resp, s')"
  shows "(\<exists>e. resp = Err e) \<or>
    (\<exists>sz ino nlink. stat_reply (ipc_buf (snd (reply_with write_response resp m))) RESP_OK
        (read_mr (ipc_buf (snd (reply_with write_response resp m))) 1)
        (read_mr (ipc_buf (snd (reply_with write_response resp m))) 2) = Inr (20, sz, ino, nlink))"
proof -
  from assms(2) consider e where "resp = Err e" | st where "resp = OkWithData (stat_bytes st)"
    by (auto simp: handle_stat_with_path_def split: if_splits bind_splits sum.splits)
  then show ?thesis
  proof cases
    case (2 st)
    have "length (stat_bytes st) = 20" by (simp add: stat_bytes_def)
    then have "read_mr (ipc_buf (snd (reply_with write_response resp m))) 1 = 20"
      using reply_data(2) [OF assms(1), of "stat_bytes st"] 2 by (simp add: MAX_DATA_IPC_def)
    then show ?thesis by (simp add: stat_reply_def)
  qed simp
qed

text \<open>
  The first four message registers of \<^verbatim>\<open>seL4_Call\<close> are CPU registers that it does not load: what the
  kernel reads as message registers 0 to 3 does not depend on the request in the buffer.
\<close>

lemma call_leaves_message_registers:
  "\<exists>c. snd (seL4_Call kern dest tag m) = enter_kernel kern c (ipc_buf m) m \<and>
     (\<forall>i < 4. get_syscall_arg c (ipc_buf m) i = get_syscall_arg (cpu m) b i)"
proof -
  let ?c = "(cpu m)\<lparr> c_rdx := SYS_CALL, c_rdi := dest, c_rsi := tag \<rparr>"
  have "snd (seL4_Call kern dest tag m) = enter_kernel kern ?c (ipc_buf m) m"
    by (simp add: seL4_Call_def sys_send2_def syscall_insn_def enter_kernel_def Let_def split_beta)
  moreover have "get_syscall_arg ?c (ipc_buf m) i = get_syscall_arg (cpu m) b i" if "i < 4" for i
    using that by (auto simp: get_syscall_arg_def)
  ultimately show ?thesis by blast
qed

text \<open>
  A kernel whose calls keep the first four words of the caller's IPC buffer, as the kernel interface has it: on x86-64 these
  message registers are the CPU registers \<^verbatim>\<open>r10\<close>, \<^verbatim>\<open>r8\<close>, \<^verbatim>\<open>r9\<close> and \<^verbatim>\<open>r15\<close>, in both directions.
\<close>

definition keeps_low_words :: "'k kernel \<Rightarrow> bool" where
  "keeps_low_words kern \<longleftrightarrow> (\<forall>c b k. c_rdx c = SYS_CALL \<longrightarrow> ipc_buffer_ok b \<longrightarrow>
     ipc_buffer_ok (fst (snd (kern c b k))) \<and> take 4 (msg (fst (snd (kern c b k)))) = take 4 (msg b))"

text \<open>What an exchange returns is then the request itself.\<close>

lemma exchange_returns_request:
  assumes "keeps_low_words kern" and "ipc_set m" and "ipc_buffer_ok (request (ipc_buf m))"
  shows "\<exists>m'. exchange kern request n m =
    Some ((read_mr (request (ipc_buf m)) 0, read_mr (request (ipc_buf m)) 1, read_mr (request (ipc_buf m)) 2), m')"
proof -
  let ?b = "request (ipc_buf m)" and ?m' = "snd (seL4_Call kern FS_ENDPOINT_SLOT (n AND 0x7F) (m\<lparr> ipc_buf := request (ipc_buf m) \<rparr>))"
  let ?c = "(cpu m)\<lparr> c_rdx := SYS_CALL, c_rdi := FS_ENDPOINT_SLOT, c_rsi := n AND 0x7F \<rparr>"
  have m': "ipc_set ?m' = ipc_set m" "ipc_buf ?m' = fst (snd (kern ?c ?b (world m)))"
    by (simp_all add: seL4_Call_def sys_send2_def syscall_insn_def split_beta Let_def)
  from assms(1,3) have keep: "ipc_buffer_ok (ipc_buf ?m')" "take 4 (msg (ipc_buf ?m')) = take 4 (msg ?b)"
    unfolding keeps_low_words_def m'(2) by simp_all
  have "msg (ipc_buf ?m') ! i = msg ?b ! i" if "i < 4" for i
    using arg_cong [OF keep(2), of "\<lambda>xs. xs ! i"] that by simp
  then have "read_mr (ipc_buf ?m') 0 = read_mr ?b 0" "read_mr (ipc_buf ?m') 1 = read_mr ?b 1" "read_mr (ipc_buf ?m') 2 = read_mr ?b 2"
    by (simp_all add: read_mr_def)
  then show ?thesis using m'(1) assms(2) by (simp add: exchange_def do_call_def with_ipc_buffer_def split_beta Let_def)
qed

lemma write_request_header:
  assumes "ipc_buffer_ok ib"
  shows "ipc_buffer_ok (write_request remote dat ib)" "read_mr (write_request remote dat ib) 0 = REQ_WRITE"
    "read_mr (write_request remote dat ib) 1 = remote"
proof -
  let ?d = "take (min (length dat) MAX_DATA_IPC) dat" and ?h = "put_header ib REQ_WRITE remote 0 (of_nat (min (length dat) MAX_DATA_IPC))"
  have fits: "mr_fits DATA_MR_START ?d" by (simp add: mr_fits_def DATA_MR_START_def MAX_DATA_IPC_def)
  have ok: "ipc_buffer_ok ?h" using assms by simp
  show "ipc_buffer_ok (write_request remote dat ib)" using ok by (simp add: write_request_def Let_def)
  show "read_mr (write_request remote dat ib) 0 = REQ_WRITE" "read_mr (write_request remote dat ib) 1 = remote"
    using to_server.enc_below [OF ok fits] assms by (simp_all add: write_request_def Let_def DATA_MR_START_def read_put_header)
qed

lemma path_request_header:
  assumes "ipc_buffer_ok ib" and "length path \<le> MAX_PATH_IPC"
  shows "ipc_buffer_ok (path_request q a3 path ib)" "read_mr (path_request q a3 path ib) 0 = q" "read_mr (path_request q a3 path ib) 1 = 0"
proof -
  have fits: "mr_fits PATH_MR_START path" using assms(2) by (simp add: mr_fits_def PATH_MR_START_def MAX_PATH_IPC_def)
  have ok: "ipc_buffer_ok (put_header ib q 0 (of_nat (length path)) a3)" using assms(1) by simp
  show "ipc_buffer_ok (path_request q a3 path ib)" unfolding path_request_def using ok by (rule to_server.enc_keeps_ok)
  show "read_mr (path_request q a3 path ib) 0 = q" "read_mr (path_request q a3 path ib) 1 = 0"
    unfolding path_request_def using to_server.enc_below [OF ok fits] assms(1) by (simp_all add: PATH_MR_START_def read_put_header)
qed

text \<open>
  C25. No file operation succeeds over a kernel that passes message registers 0 to 3 in CPU registers: the client writes the
  request number and its argument into words 0 and 1 of the IPC buffer, \<^verbatim>\<open>seL4_Call\<close> neither loads the four registers nor
  stores them back, and so the client takes its own request for the reply. Whatever the service does, every operation on a
  path of at most 920 bytes fails with error 0, every operation on an open descriptor fails with the remote descriptor as
  the error number, nothing is stored in the caller's buffer, no descriptor is opened or closed, and the call returns.
\<close>

theorem client_reads_own_request:
  assumes "keeps_low_words kern" and "ipc_set m" and "ipc_buffer_ok (ipc_buf m)"
    and "length path \<le> MAX_PATH_IPC" and "client_get c fd = Some en" and "2 < fd"
  shows "(\<exists>m'. fs_open kern path fl c m = Some (Inl 0, c, m')) \<and> (\<exists>m'. fs_stat kern path m = Some (Inl 0, m')) \<and>
    (\<exists>m'. fs_mkdir kern path m = Some (Inl 0, m')) \<and> (\<exists>m'. fs_unlink kern path m = Some (Inl 0, m')) \<and>
    (\<exists>m'. fs_access kern path mode m = Some (Inl 0, m')) \<and>
    (\<exists>m'. fs_read kern fd buf c m = Some (Inl (ucast (remote_fd en)), buf, m')) \<and>
    (\<exists>m'. fs_write kern fd dat c m = Some (Inl (ucast (remote_fd en)), m')) \<and>
    (\<exists>m'. fs_getdents64 kern fd buf c m = Some (Inl (ucast (remote_fd en)), buf, m')) \<and>
    (\<exists>m'. fs_lseek kern fd off wh c m = Some (Inl (ucast (remote_fd en)), m')) \<and>
    (\<exists>m'. fs_file_size kern fd c m = Some (Inl (ucast (remote_fd en)), m')) \<and>
    (\<exists>m'. fs_close kern fd c m = Some (Inl (ucast (remote_fd en)), c, m'))"
proof -
  have path: "\<exists>x m'. exchange kern (path_request q a3 path) n m = Some ((q, 0, x), m')" for q a3 n
    using exchange_returns_request [OF assms(1,2), of "path_request q a3 path" n] path_request_header [OF assms(3,4)] by auto
  have hdr: "\<exists>x m'. exchange kern (\<lambda>ib. put_header ib q a1 a2 a3) n m = Some ((q, a1, x), m')" for q a1 a2 a3 n
    using exchange_returns_request [OF assms(1,2), of "\<lambda>ib. put_header ib q a1 a2 a3" n] assms(3) by (auto simp: read_put_header)
  have wr: "\<exists>x m'. exchange kern (write_request (remote_fd en) dat) n m = Some ((REQ_WRITE, remote_fd en, x), m')" for n
    using exchange_returns_request [OF assms(1,2), of "write_request (remote_fd en) dat" n] write_request_header [OF assms(3)] by auto
  have fd: "fd \<noteq> 0" "fd \<noteq> 1" "fd \<noteq> 2" "\<not> fd \<le> 2" using assms(6) by auto
  note pc = path_call_def unit_reply_def RESP_OK_def REQ_defs
  show ?thesis
  proof (intro conjI)
    show "\<exists>m'. fs_open kern path fl c m = Some (Inl 0, c, m')" using path [of REQ_OPEN "ucast fl" "path_mrs path"] assms(4)
      by (auto simp: fs_open_def open_reply_def RESP_OK_def REQ_OPEN_def)
    show "\<exists>m'. fs_stat kern path m = Some (Inl 0, m')" using path [of REQ_STAT 0 "path_mrs path"] assms(4)
      by (auto simp: fs_stat_def stat_reply_def RESP_OK_def REQ_STAT_def)
    show "\<exists>m'. fs_mkdir kern path m = Some (Inl 0, m')" using path [of REQ_MKDIR 0 "path_mrs path"] assms(4)
      by (auto simp: fs_mkdir_def pc)
    show "\<exists>m'. fs_unlink kern path m = Some (Inl 0, m')" using path [of REQ_UNLINK 0 "path_mrs path"] assms(4)
      by (auto simp: fs_unlink_def pc)
    show "\<exists>m'. fs_access kern path mode m = Some (Inl 0, m')" using path [of REQ_ACCESS "ucast mode" "path_mrs path"] assms(4)
      by (auto simp: fs_access_def pc)
    show "\<exists>m'. fs_read kern fd buf c m = Some (Inl (ucast (remote_fd en)), buf, m')"
      using hdr [of REQ_READ "remote_fd en" 0 "of_nat (min (length buf) MAX_DATA_IPC)" 5] assms(5) fd
      by (auto simp: fs_read_def read_request_def [abs_def] read_reply_def RESP_OK_def REQ_READ_def)
    show "\<exists>m'. fs_write kern fd dat c m = Some (Inl (ucast (remote_fd en)), m')"
      using wr [of "DATA_MR_START + of_nat ((min (length dat) MAX_DATA_IPC + 7) div 8)"] assms(5) fd
      by (auto simp: fs_write_def value_reply_def RESP_OK_def REQ_WRITE_def Let_def)
    show "\<exists>m'. fs_getdents64 kern fd buf c m = Some (Inl (ucast (remote_fd en)), buf, m')"
      using hdr [of REQ_GETDENTS64 "remote_fd en" 0 "of_nat (min (length buf) MAX_DATA_IPC)" 5] assms(5)
      by (auto simp: fs_getdents64_def getdents_reply_def RESP_OK_def REQ_GETDENTS64_def)
    show "\<exists>m'. fs_lseek kern fd off wh c m = Some (Inl (ucast (remote_fd en)), m')"
      using hdr [of REQ_LSEEK "remote_fd en" off "scast wh" 5] assms(5) by (auto simp: fs_lseek_def value_reply_def RESP_OK_def REQ_LSEEK_def)
    show "\<exists>m'. fs_file_size kern fd c m = Some (Inl (ucast (remote_fd en)), m')"
      using hdr [of REQ_FILE_SIZE "remote_fd en" 0 0 5] assms(5) by (auto simp: fs_file_size_def value_reply_def RESP_OK_def REQ_FILE_SIZE_def)
    show "\<exists>m'. fs_close kern fd c m = Some (Inl (ucast (remote_fd en)), c, m')"
      using hdr [of REQ_CLOSE "remote_fd en" 0 0 5] assms(5) fd by (auto simp: fs_close_def RESP_OK_def REQ_CLOSE_def)
  qed
qed

definition sample_client :: fs_client where
  "sample_client = \<lparr> c_fd_table = [None, None, None, Some \<lparr> remote_fd = 7, ce_path = str ''/a'' \<rparr>], c_next_fd = 4 \<rparr>"

theorem client_reads_own_request_witness:
  "(\<exists>m'. fs_open echo_kernel (str ''/a'') 0 sample_client sample_machine = Some (Inl 0, sample_client, m')) \<and>
   (\<exists>m'. fs_read echo_kernel 3 [1, 2] sample_client sample_machine = Some (Inl 7, [1, 2], m')) \<and>
   (\<exists>m'. fs_close echo_kernel 3 sample_client sample_machine = Some (Inl 7, sample_client, m'))"
proof -
  have k: "keeps_low_words echo_kernel" by (simp add: keeps_low_words_def echo_kernel_def)
  have len: "length (str ''/a'') \<le> MAX_PATH_IPC" by (simp add: MAX_PATH_IPC_def)
  have get: "client_get sample_client 3 = Some \<lparr> remote_fd = 7, ce_path = str ''/a'' \<rparr>"
    by (simp add: client_get_def table_get_def sample_client_def)
  from client_reads_own_request [OF k sample_machine_ok len get] show ?thesis by simp
qed

end
