(* ===== verification/Task.thy ===== *)
theory Task
  imports Task_Mem Task_Signal Slots Fs_Client
begin

text \<open>
  Tasks of the compatibility layer: the structure \<^verbatim>\<open>Sel4Task\<close> and its methods
  (\<^verbatim>\<open>lcl/src/task/mod.rs\<close>), the global state of the layer (\<^verbatim>\<open>TASK_MAP\<close> of \<^verbatim>\<open>lcl/src/child_test.rs\<close>, the
  timer queue, the clock and the file service client), timers (\<^verbatim>\<open>lcl/src/timer.rs\<close>), file descriptor
  tables (\<^verbatim>\<open>lcl/src/task/file.rs\<close>) and process control blocks (\<^verbatim>\<open>lcl/src/task/pcb.rs\<close>). The fields the
  source puts behind a \<^verbatim>\<open>Mutex\<close> are plain fields: each method holds a lock only while it runs. A task
  shared through \<^verbatim>\<open>Arc\<close> is the entry of \<^verbatim>\<open>TASK_MAP\<close> at its key.
\<close>

section \<open>Tasks\<close>

record task_info =
  ti_entry :: usize
  task_vm_end :: usize
  ti_args :: "bytes list"

definition task_info_default :: task_info where
  "task_info_default = \<lparr> ti_entry = 0, task_vm_end = 0, ti_args = [] \<rparr>"

record sel4_task =
  pid :: usize
  ppid :: usize
  pgid :: usize
  tid :: usize
  tcb :: usize
  cnode :: usize
  vspace :: usize
  exit_code :: "u32 option"
  futex_table :: "(usize \<times> usize) list"
  clear_child_tid :: usize
  info :: task_info
  mem :: task_mem_info
  signal :: task_signal

text \<open>\<^verbatim>\<open>Sel4Task::new\<close>: the counter, the pool and the kernel are threaded; \<^verbatim>\<open>unwrap\<close> of an empty pool panics.\<close>

definition sel4_task_new ::
  "'k kernel \<Rightarrow> boot_info \<Rightarrow> u64 \<Rightarrow> obj_pool \<Rightarrow> 'k machine \<Rightarrow>
   (sel4_task option \<times> u64 \<times> obj_pool \<times> 'k machine) option" where
  "sel4_task_new kern bi counter pool m =
     (let new_tid = counter; counter' = counter + 1
      in do {
        (tcb_slot, pool1) \<leftarrow> opt_alloc op_alloc pool;
        (cnode_slot, pool2) \<leftarrow> opt_alloc op_alloc pool1;
        (vspace_slot, pool3) \<leftarrow> opt_alloc op_alloc pool2;
        found \<leftarrow> find_free_untyped bi 12;
        (case found of
           None \<Rightarrow> Some (None, counter', pool3, m)
         | Some (untyped_slot, _) \<Rightarrow>
             do {
               (err1, m1) \<leftarrow> seL4_Untyped_Retype kern untyped_slot (object_type_word TCB) (size_bits TCB)
                               init_CNODE init_CNODE 64 tcb_slot 1 m;
               if err1 \<noteq> 0 then Some (None, counter', pool3, m1)
               else do {
                 (err2, m2) \<leftarrow> seL4_Untyped_Retype kern untyped_slot (object_type_word CNode) 6
                                 init_CNODE init_CNODE 64 cnode_slot 1 m1;
                 if err2 \<noteq> 0 then Some (None, counter', pool3, m2)
                 else Some (Some \<lparr> pid = new_tid, ppid = 1, pgid = 0, tid = new_tid, tcb = tcb_slot,
                                   cnode = cnode_slot, vspace = vspace_slot, exit_code = None,
                                   futex_table = [], clear_child_tid = 0, info = task_info_default,
                                   mem = task_mem_default, signal = task_signal_new \<rparr>,
                            counter', pool3, m2)
               }
             })
      })"

text \<open>\<^verbatim>\<open>map_blank_page\<close>, the variant that creates a real frame.\<close>

definition map_blank_page ::
  "'k kernel \<Rightarrow> boot_info \<Rightarrow> usize \<Rightarrow> sel4_task \<Rightarrow> obj_pool \<Rightarrow> 'k machine \<Rightarrow>
   (usize option \<times> sel4_task \<times> obj_pool \<times> 'k machine) option" where
  "map_blank_page kern bi vaddr t pool m =
     (let v = page_floor vaddr
      in case op_alloc pool of
           (None, pool1) \<Rightarrow> Some (None, t, pool1, m)
         | (Some page_slot, pool1) \<Rightarrow>
             do {
               found \<leftarrow> find_free_untyped bi 12;
               (case found of
                  None \<Rightarrow> Some (None, t, pool1, m)
                | Some (untyped_slot, _) \<Rightarrow>
                    do {
                      (err1, m1) \<leftarrow> seL4_Untyped_Retype kern untyped_slot (object_type_word Frame4K)
                                      (size_bits Frame4K) init_CNODE init_CNODE 64 page_slot 1 m;
                      if err1 \<noteq> 0 then Some (None, t, pool1, m1)
                      else do {
                        (err2, m2) \<leftarrow> seL4_Frame_Map kern page_slot (vspace t) v (cr_bits CapRights_ALL) 0 m1;
                        if err2 \<noteq> 0 then Some (None, t, pool1, m2)
                        else Some (Some page_slot,
                                   t\<lparr> mem := (mem t)\<lparr> mapped_page := bt_insert v page_slot (mapped_page (mem t)) \<rparr> \<rparr>,
                                   pool1, m2)
                      }
                    })
             })"

definition on_mem :: "(task_mem_info \<Rightarrow> task_mem_info) \<Rightarrow> sel4_task \<Rightarrow> sel4_task" where
  "on_mem f t = t\<lparr> mem := f (mem t) \<rparr>"

text \<open>\<^verbatim>\<open>task.write_bytes(addr, data)\<close> where the result is ignored.\<close>

definition poke :: "usize \<Rightarrow> bytes \<Rightarrow> sel4_task \<Rightarrow> sel4_task" where
  "poke addr dat t = on_mem (\<lambda>m. snd (write_bytes addr dat m)) t"

text \<open>
  \<^verbatim>\<open>exit_with\<close>. \<^verbatim>\<open>wake_hangs\<close> and \<^verbatim>\<open>futex_wake\<close> are empty in the source.
\<close>

definition exit_with :: "'k kernel \<Rightarrow> u32 \<Rightarrow> sel4_task \<Rightarrow> 'k machine \<Rightarrow> (sel4_task \<times> 'k machine) option" where
  "exit_with kern code t m =
     (let t1 = t\<lparr> exit_code := Some code \<rparr>;
          uaddr = clear_child_tid t1;
          t2 = (if uaddr \<noteq> 0 then poke uaddr (to_le 4 (0 :: u32)) t1 else t1)
      in do {
        (_, m1) \<leftarrow> seL4_CNode_Revoke kern init_CNODE (tcb t2) 64 m;
        (_, m2) \<leftarrow> seL4_CNode_Delete kern init_CNODE (tcb t2) 64 m1;
        (_, m3) \<leftarrow> seL4_CNode_Revoke kern init_CNODE (cnode t2) 64 m2;
        (_, m4) \<leftarrow> seL4_CNode_Delete kern init_CNODE (cnode t2) 64 m3;
        Some (t2, m4)
      })"

section \<open>ELF loading\<close>

text \<open>Little-endian fields of a byte array; a slice out of range panics.\<close>

definition get_le :: "bytes \<Rightarrow> nat \<Rightarrow> nat \<Rightarrow> usize option" where
  "get_le dat off n = map_option from_le (sub_slice dat off (off + n))"

text \<open>The positions \<open>j\<close> where the bytes of a segment hold a \<^verbatim>\<open>syscall\<close> instruction.\<close>

definition syscall_sites :: "bytes \<Rightarrow> nat list" where
  "syscall_sites dat = filter (\<lambda>j. dat ! j = 0x0F \<and> dat ! (j + 1) = 0x05) [0..<length dat - 1]"

text \<open>
  The body of the loop of \<^verbatim>\<open>load_elf\<close> for one \<^verbatim>\<open>PT_LOAD\<close> header: map the pages, copy the file part,
  patch each \<^verbatim>\<open>syscall\<close>. \<open>None\<close> is a panic (a slice past the end of the file).
\<close>

definition load_segment :: "bytes \<Rightarrow> usize \<Rightarrow> usize \<Rightarrow> usize \<Rightarrow> usize \<Rightarrow> task_mem_info \<Rightarrow> task_mem_info option" where
  "load_segment elf_data p_offset p_vaddr p_filesz p_memsz m =
     (let end_addr = p_vaddr + p_memsz;
          m1 = map_pages (page_steps (page_floor p_vaddr) (page_ceil end_addr)) m
      in if p_filesz > 0 then do {
           dat \<leftarrow> sub_slice elf_data (unat p_offset) (unat (p_offset + p_filesz));
           let m2 = snd (write_bytes p_vaddr dat m1);
           Some (fold (\<lambda>j m. snd (write_bytes (p_vaddr + of_nat j) [0xEF, 0xBE, 0xAD, 0xDE] m)) (syscall_sites dat) m2)
         } else Some m1)"

text \<open>
  \<^verbatim>\<open>for i in 0..e_phnum\<close>, with its \<^verbatim>\<open>break\<close> and \<^verbatim>\<open>continue\<close>, carrying \<^verbatim>\<open>max_addr\<close>.
\<close>

fun load_elf_loop :: "bytes \<Rightarrow> usize \<Rightarrow> usize \<Rightarrow> nat list \<Rightarrow> usize \<Rightarrow> task_mem_info \<Rightarrow> (usize \<times> task_mem_info) option" where
  "load_elf_loop elf_data e_phoff e_phentsize [] max_addr m = Some (max_addr, m)"
| "load_elf_loop elf_data e_phoff e_phentsize (i # is) max_addr m =
     (let ph_off = e_phoff + of_nat i * e_phentsize
      in if ph_off + 56 > of_nat (length elf_data) then Some (max_addr, m)
         else do {
           p_type \<leftarrow> get_le elf_data (unat ph_off) 4;
           p_offset \<leftarrow> get_le elf_data (unat ph_off + 8) 8;
           p_vaddr \<leftarrow> get_le elf_data (unat ph_off + 16) 8;
           p_filesz \<leftarrow> get_le elf_data (unat ph_off + 32) 8;
           p_memsz \<leftarrow> get_le elf_data (unat ph_off + 40) 8;
           if p_type \<noteq> 1 then load_elf_loop elf_data e_phoff e_phentsize is max_addr m
           else do {
             m' \<leftarrow> load_segment elf_data p_offset p_vaddr p_filesz p_memsz m;
             load_elf_loop elf_data e_phoff e_phentsize is (max max_addr (p_vaddr + p_memsz)) m'
           }
         })"

text \<open>The outer option is a panic, the inner one the method's result.\<close>

definition load_elf :: "bytes \<Rightarrow> sel4_task \<Rightarrow> (usize option \<times> sel4_task) option" where
  "load_elf elf_data t =
     (if length elf_data < 64 then Some (None, t)
      else if take 4 elf_data \<noteq> [0x7F, 0x45, 0x4C, 0x46] then Some (None, t)
      else if elf_data ! 4 \<noteq> 2 then Some (None, t)
      else do {
        e_phoff \<leftarrow> get_le elf_data 32 8;
        e_phentsize \<leftarrow> get_le elf_data 54 2;
        e_phnum \<leftarrow> get_le elf_data 56 2;
        e_entry \<leftarrow> get_le elf_data 24 8;
        (max_addr, m) \<leftarrow> load_elf_loop elf_data e_phoff e_phentsize [0..<unat e_phnum] 0 (mem t);
        Some (Some e_entry,
              t\<lparr> mem := m, info := (info t)\<lparr> ti_entry := e_entry, task_vm_end := page_ceil max_addr \<rparr> \<rparr>)
      })"

section \<open>Stack and registers of a new task\<close>

definition align8 :: "usize \<Rightarrow> usize" where
  "align8 a = a AND NOT 7"

text \<open>One reserved word, \<^verbatim>\<open>sp -= 8; sp &= !7\<close>, and \<open>n\<close> of them.\<close>

definition push_words :: "nat \<Rightarrow> usize \<Rightarrow> usize" where
  "push_words n sp = ((\<lambda>s. align8 (s - 8)) ^^ n) sp"

text \<open>
  \<^verbatim>\<open>init_stack\<close> computes the stack pointer only: the strings, a terminator and an empty environment,
  five auxiliary pairs, three more words, the argument pointers and \<^verbatim>\<open>argc\<close>.
\<close>

definition init_stack :: "bytes list \<Rightarrow> usize" where
  "init_stack args =
     (let sp1 = foldl (\<lambda>sp arg. align8 (sp - (of_nat (length arg) + 1))) DEF_STACK_TOP (rev args);
          sp2 = push_words 2 sp1;
          sp3 = push_words (2 * 5) sp2;
          sp4 = push_words 3 sp3;
          sp5 = push_words (length args) sp4
      in push_words 1 sp5)"

definition configure_tcb :: "'k kernel \<Rightarrow> sel4_task \<Rightarrow> 'k machine \<Rightarrow> (bool \<times> 'k machine) option" where
  "configure_tcb kern t m =
     do {
       (err1, m1) \<leftarrow> seL4_TCB_Configure kern (tcb t) 0 (cnode t) 0 (vspace t) 0 0 m;
       if err1 \<noteq> 0 then Some (False, seL4_DebugPutString kern (str ''[lcl] TCB_Configure failed\<newline>'') m1)
       else do {
         (err2, m2) \<leftarrow> seL4_TCB_SetSchedParams kern (tcb t) (tcb t) 255 255 m1;
         if err2 \<noteq> 0 then Some (False, seL4_DebugPutString kern (str ''[lcl] SetSchedParams failed\<newline>'') m2)
         else Some (True, m2)
       }
     }"

definition start_regs :: "usize \<Rightarrow> usize \<Rightarrow> usize list" where
  "start_regs entry sp = (replicate 20 0)[7 := sp, 15 := entry, 16 := 0x202]"

definition start_task :: "'k kernel \<Rightarrow> sel4_task \<Rightarrow> usize \<Rightarrow> usize \<Rightarrow> 'k machine \<Rightarrow> (bool \<times> 'k machine) option" where
  "start_task kern t entry sp m =
     do {
       (err, m1) \<leftarrow> seL4_TCB_WriteRegisters kern (tcb t) True 0 20 (start_regs entry sp) m;
       if err \<noteq> 0 then Some (False, seL4_DebugPutString kern (str ''[lcl] WriteRegisters failed\<newline>'') m1)
       else Some (True, m1)
     }"

section \<open>The layer's globals\<close>

datatype timer_type = WaitTime usize u64 | ITimer usize

record 'k lcl =
  TASK_MAP :: "(usize, sel4_task) btree"
  TIME_QUEUE :: "(u64 \<times> timer_type) list"
  CURRENT_TIME_MS :: u64
  FS_CLIENT :: fs_client
  machine :: "'k machine"

definition update_task :: "usize \<Rightarrow> (sel4_task \<Rightarrow> sel4_task) \<Rightarrow> 'k lcl \<Rightarrow> 'k lcl" where
  "update_task k f s =
     (case bt_get (TASK_MAP s) k of
        Some t \<Rightarrow> s\<lparr> TASK_MAP := bt_insert k (f t) (TASK_MAP s) \<rparr>
      | None \<Rightarrow> s)"

section \<open>Timers\<close>

definition advance_time :: "u64 \<Rightarrow> 'k lcl \<Rightarrow> 'k lcl" where
  "advance_time ms s = s\<lparr> CURRENT_TIME_MS := CURRENT_TIME_MS s + ms \<rparr>"

definition timer_init :: "'k kernel \<Rightarrow> 'k lcl \<Rightarrow> 'k lcl" where
  "timer_init kern s = s\<lparr> machine := seL4_DebugPutString kern (str ''[lcl] Timer initialized\<newline>'') (machine s) \<rparr>"

text \<open>
  The effect of one expired entry of the queue: an interval timer raises \<^verbatim>\<open>SIGALRM\<close> (bit 13), a wait
  only looks the task up.
\<close>

definition fire_timer :: "timer_type \<Rightarrow> 'k lcl \<Rightarrow> 'k lcl" where
  "fire_timer ty s =
     (case ty of
        WaitTime _ _ \<Rightarrow> s
      | ITimer p \<Rightarrow> update_task p (\<lambda>t. t\<lparr> signal := (signal t)\<lparr> pending := pending (signal t) OR push_bit 13 1 \<rparr> \<rparr>) s)"

text \<open>\<^verbatim>\<open>retain\<close> visits the queue front to back, firing and dropping the expired entries.\<close>

fun retain_timers :: "u64 \<Rightarrow> (u64 \<times> timer_type) list \<Rightarrow> 'k lcl \<Rightarrow> (u64 \<times> timer_type) list \<times> 'k lcl" where
  "retain_timers now [] s = ([], s)"
| "retain_timers now ((target, ty) # q) s =
     (if now \<ge> target then retain_timers now q (fire_timer ty s)
      else let (kept, s') = retain_timers now q s in ((target, ty) # kept, s'))"

definition handle_timer :: "'k lcl \<Rightarrow> 'k lcl" where
  "handle_timer s =
     (let (kept, s') = retain_timers (CURRENT_TIME_MS s) (TIME_QUEUE s) s in s'\<lparr> TIME_QUEUE := kept \<rparr>)"

text \<open>Pushing at the back and sorting stably by target time.\<close>

definition set_process_timer :: "usize \<Rightarrow> u64 \<Rightarrow> 'k lcl \<Rightarrow> 'k lcl" where
  "set_process_timer p target_ms s =
     s\<lparr> TIME_QUEUE := sort_key fst (TIME_QUEUE s @ [(target_ms, ITimer p)]) \<rparr>"

text \<open>
  \<^verbatim>\<open>sleep_ms\<close> polls the clock, which interrupts advance: \<open>clock k\<close> is what the \<open>k\<close>-th reading returns. The loop is
  partial, and its result is the number of readings it took.
\<close>

partial_function (option) sleep_poll :: "(nat \<Rightarrow> u64) \<Rightarrow> u64 \<Rightarrow> nat \<Rightarrow> nat option" where
  "sleep_poll clock target k = (if clock k < target then sleep_poll clock target (Suc k) else Some k)"

definition sleep_ms :: "(nat \<Rightarrow> u64) \<Rightarrow> u64 \<Rightarrow> nat option" where
  "sleep_ms clock ms = sleep_poll clock (clock 0 + ms) 1"

text \<open>The two wake-up functions of \<^verbatim>\<open>child_test.rs\<close> have empty bodies.\<close>

definition wake_hangs :: "sel4_task \<Rightarrow> 'k lcl \<Rightarrow> 'k lcl" where
  "wake_hangs task s = s"

definition futex_wake :: "(usize \<times> usize) list \<Rightarrow> usize \<Rightarrow> usize \<Rightarrow> 'k lcl \<Rightarrow> 'k lcl" where
  "futex_wake table uaddr n s = s"

section \<open>File descriptor tables and process control blocks\<close>

record file_descriptor =
  fd_path :: bytes
  fd_flags :: u32
  fd_offset :: usize

record rlimit =
  rlim_cur :: u64
  rlim_max :: u64

record task_file_info =
  file_ds :: "(usize, file_descriptor) btree"
  work_dir :: bytes
  tf_rlimit :: rlimit

definition task_file_info_new :: task_file_info where
  "task_file_info_new = \<lparr> file_ds = bt_empty, work_dir = str ''/'', tf_rlimit = \<lparr> rlim_cur = 1024, rlim_max = 1024 \<rparr> \<rparr>"

definition fd_open :: "i32 \<Rightarrow> bytes \<Rightarrow> u32 \<Rightarrow> task_file_info \<Rightarrow> sysresult \<times> task_file_info" where
  "fd_open dirfd path flags f =
     (let ks = bt_keys (file_ds f);
          fd = (if ks = [] then 3 else Max (set ks) + 1)
      in (Inr fd, f\<lparr> file_ds := bt_insert fd \<lparr> fd_path = path, fd_flags = flags, fd_offset = 0 \<rparr> (file_ds f) \<rparr>))"

definition fd_resolve :: "i32 \<Rightarrow> bytes \<Rightarrow> task_file_info \<Rightarrow> i32 + bytes" where
  "fd_resolve dirfd path f =
     (if path \<noteq> [] \<and> hd path = 0x2F then Inr path else Inr (work_dir f @ [0x2F] @ path))"

record process_timer =
  interval_usec :: u64
  value_usec :: u64

record process_control_block =
  itimer :: "process_timer list"

definition pcb_new :: process_control_block where
  "pcb_new = \<lparr> itimer = replicate 3 \<lparr> interval_usec = 0, value_usec = 0 \<rparr> \<rparr>"

section \<open>Lemmas\<close>

lemma sleep_poll_Some:
  assumes "sleep_poll clock target k = Some n"
  shows "k \<le> n \<and> target \<le> clock n \<and> (\<forall>j. k \<le> j \<longrightarrow> j < n \<longrightarrow> clock j < target)"
proof (rule sleep_poll.raw_induct [OF _ assms, where P = "\<lambda>clock target k n. k \<le> n \<and> target \<le> clock n \<and> (\<forall>j. k \<le> j \<longrightarrow> j < n \<longrightarrow> clock j < target)"])
  fix poll :: "(nat \<Rightarrow> u64) \<Rightarrow> u64 \<Rightarrow> nat \<Rightarrow> nat option" and clock target k n
  assume IH: "\<And>c t k n. poll c t k = Some n \<Longrightarrow> k \<le> n \<and> t \<le> c n \<and> (\<forall>j. k \<le> j \<longrightarrow> j < n \<longrightarrow> c j < t)"
    and body: "(if clock k < target then poll clock target (Suc k) else Some k) = Some n"
  show "k \<le> n \<and> target \<le> clock n \<and> (\<forall>j. k \<le> j \<longrightarrow> j < n \<longrightarrow> clock j < target)"
  proof (cases "clock k < target")
    case True
    with body IH [of clock target "Suc k" n] show ?thesis by (metis Suc_leD Suc_leI le_neq_implies_less)
  qed (use body in auto)
qed

lemma sleep_poll_returns:
  assumes "k \<le> n" and "target \<le> clock n"
  shows "\<exists>i \<le> n. sleep_poll clock target k = Some i"
  using assms
proof (induction "n - k" arbitrary: k)
  case 0
  then show ?case by (auto simp: sleep_poll.simps [of _ _ k])
next
  case (Suc d)
  then have "\<exists>i \<le> n. sleep_poll clock target (Suc k) = Some i" by simp
  with Suc.prems show ?case by (auto simp: sleep_poll.simps [of _ _ k])
qed

lemma get_update_task:
  "bt_get (TASK_MAP (update_task k f s)) k' = (if k' = k then map_option f (bt_get (TASK_MAP s) k) else bt_get (TASK_MAP s) k')"
  by (auto simp: update_task_def split: option.splits)

lemma update_task_frame [frame_simps]:
  "TIME_QUEUE (update_task k f s) = TIME_QUEUE s" "CURRENT_TIME_MS (update_task k f s) = CURRENT_TIME_MS s"
  "machine (update_task k f s) = machine s" "FS_CLIENT (update_task k f s) = FS_CLIENT s"
  by (simp_all add: update_task_def split: option.splits)

text \<open>A task with \<^verbatim>\<open>SIGALRM\<close> made pending.\<close>

definition raise_alarm :: "sel4_task \<Rightarrow> sel4_task" where
  "raise_alarm t = t\<lparr> signal := (signal t)\<lparr> pending := pending (signal t) OR push_bit 13 1 \<rparr> \<rparr>"

lemma raise_alarm_idem [simp]: "raise_alarm (raise_alarm t) = raise_alarm t"
  by (simp add: raise_alarm_def or.assoc)

lemma fire_timer_tasks:
  "bt_get (TASK_MAP (fire_timer ty s)) k =
     (if ty = ITimer k then map_option raise_alarm (bt_get (TASK_MAP s) k) else bt_get (TASK_MAP s) k)"
  by (cases ty) (auto simp: fire_timer_def get_update_task raise_alarm_def [abs_def])

lemma fire_timer_frame [frame_simps]:
  "CURRENT_TIME_MS (fire_timer ty s) = CURRENT_TIME_MS s" "machine (fire_timer ty s) = machine s"
  by (cases ty; simp add: fire_timer_def frame_simps)+

lemma retain_timers_frame [frame_simps]:
  "CURRENT_TIME_MS (snd (retain_timers now q s)) = CURRENT_TIME_MS s" "machine (snd (retain_timers now q s)) = machine s"
  by (induction now q s rule: retain_timers.induct) (auto simp: frame_simps split: prod.splits)

lemma retain_timers_kept: "fst (retain_timers now q s) = filter (\<lambda>(t, _). now < t) q"
  by (induction now q s rule: retain_timers.induct) (auto simp: not_le split: prod.splits)

lemma retain_timers_tasks:
  "bt_get (TASK_MAP (snd (retain_timers now q s))) k =
     (if \<exists>t. (t, ITimer k) \<in> set q \<and> t \<le> now then map_option raise_alarm (bt_get (TASK_MAP s) k)
      else bt_get (TASK_MAP s) k)"
proof (induction now q s rule: retain_timers.induct)
  case (2 now target ty q s)
  show ?case
  proof (cases "target \<le> now")
    case True
    then show ?thesis using 2(1) by (auto simp: fire_timer_tasks option.map_comp o_def)
  next
    case False
    then show ?thesis using 2(2) by (auto split: prod.splits)
  qed
qed simp

text \<open>
  C38. A timer interrupt drops exactly the entries whose time has come, in order, and raises
  \<^verbatim>\<open>SIGALRM\<close> for exactly the tasks that have an expired interval timer; every other task, the clock
  and the machine stay as they were.
\<close>

theorem handle_timer_exact:
  "TIME_QUEUE (handle_timer s) = filter (\<lambda>(t, _). CURRENT_TIME_MS s < t) (TIME_QUEUE s) \<and>
   (\<forall>k. bt_get (TASK_MAP (handle_timer s)) k =
     (if \<exists>t. (t, ITimer k) \<in> set (TIME_QUEUE s) \<and> t \<le> CURRENT_TIME_MS s
      then map_option raise_alarm (bt_get (TASK_MAP s) k) else bt_get (TASK_MAP s) k)) \<and>
   CURRENT_TIME_MS (handle_timer s) = CURRENT_TIME_MS s \<and> machine (handle_timer s) = machine s"
proof -
  obtain kept s' where r: "retain_timers (CURRENT_TIME_MS s) (TIME_QUEUE s) s = (kept, s')" by fastforce
  then have "kept = fst (retain_timers (CURRENT_TIME_MS s) (TIME_QUEUE s) s)"
    and s': "s' = snd (retain_timers (CURRENT_TIME_MS s) (TIME_QUEUE s) s)" by simp_all
  then have k: "kept = filter (\<lambda>(t, _). CURRENT_TIME_MS s < t) (TIME_QUEUE s)"
    by (simp only: retain_timers_kept)
  have h: "handle_timer s = s'\<lparr> TIME_QUEUE := kept \<rparr>" by (simp add: handle_timer_def r)
  show ?thesis unfolding h using k s' by (simp add: retain_timers_tasks frame_simps)
qed

text \<open>
  File descriptors are fresh: \<^verbatim>\<open>fd_open\<close> returns a descriptor that was not in the table, at least
  3 in an empty table, and the new entry is the opened path at offset 0, while every existing entry
  stays, as long as the largest descriptor can still be incremented.
\<close>

lemma fd_open_fresh:
  assumes "\<forall>k. bt_get (file_ds f) k \<noteq> None \<longrightarrow> k < - 1"
  shows "\<exists>fd f'. fd_open dirfd path flags f = (Inr fd, f') \<and> bt_get (file_ds f) fd = None \<and>
    bt_get (file_ds f') fd = Some \<lparr> fd_path = path, fd_flags = flags, fd_offset = 0 \<rparr> \<and>
    (\<forall>k. k \<noteq> fd \<longrightarrow> bt_get (file_ds f') k = bt_get (file_ds f) k)"
proof -
  let ?ks = "bt_keys (file_ds f)"
  let ?fd = "if ?ks = [] then 3 else Max (set ?ks) + 1"
  have "?fd \<notin> set ?ks"
  proof (cases "?ks = []")
    case False
    then have m: "Max (set ?ks) \<in> set ?ks" by simp
    then have "Max (set ?ks) < - 1" using assms by (simp add: btree.keys_get)
    then have "unat (Max (set ?ks) + 1) = unat (Max (set ?ks)) + 1" by (rule unat_inc)
    then have "Max (set ?ks) < Max (set ?ks) + 1" by (simp add: word_less_nat_alt)
    then have "Max (set ?ks) + 1 \<notin> set ?ks" by (meson List.finite_set Max_ge not_le)
    with False show ?thesis by simp
  qed simp
  then have "bt_get (file_ds f) ?fd = None" by (simp only: btree.keys_get not_not)
  then show ?thesis by (simp add: fd_open_def Let_def)
qed

end
