(* ===== verification/Syscall_Mm.thy ===== *)
theory Syscall_Mm
  imports Task
begin

text \<open>
  The memory system calls, \<^verbatim>\<open>lcl/src/syscall/mm.rs\<close>.
\<close>

definition sys_brk :: "usize \<Rightarrow> sel4_task \<Rightarrow> sysresult \<times> sel4_task" where
  "sys_brk new_brk t =
     (if new_brk = 0 then (Inr (heap (mem t)), t)
      else
        let old_heap = heap (mem t);
            t1 = on_mem (\<lambda>m. m\<lparr> heap := new_brk \<rparr>) t;
            t2 = (if new_brk > old_heap
                  then on_mem (map_pages (page_steps (page_floor old_heap) (page_ceil new_brk))) t1
                  else t1)
        in (Inr new_brk, t2))"

text \<open>\<^verbatim>\<open>for i in 0..pages\<close> maps \<^verbatim>\<open>start + i * PAGE_SIZE\<close>.\<close>

definition mmap_pages :: "usize \<Rightarrow> usize \<Rightarrow> usize list" where
  "mmap_pages start pages = map (\<lambda>i. start + of_nat i * PAGE_SIZE) [0..<unat pages]"

definition sys_mmap :: "usize \<Rightarrow> usize \<Rightarrow> usize \<Rightarrow> sel4_task \<Rightarrow> sysresult \<times> sel4_task" where
  "sys_mmap addr len prot t =
     (let pages = (len + PAGE_SIZE - 1) div PAGE_SIZE;
          start = (if addr = 0 then find_free_area (task_vm_end (info t)) 0x100000 (pages * PAGE_SIZE) (mem t)
                   else page_floor addr)
      in (Inr start, on_mem (map_pages (mmap_pages start pages)) t))"

definition unmap_step :: "usize \<Rightarrow> task_mem_info \<Rightarrow> task_mem_info" where
  "unmap_step v m = m\<lparr> mapped_page := bt_remove v (mapped_page m), page_data := bt_remove v (page_data m) \<rparr>"

definition sys_munmap :: "usize \<Rightarrow> usize \<Rightarrow> sel4_task \<Rightarrow> sysresult \<times> sel4_task" where
  "sys_munmap addr len t =
     (Inr 0, on_mem (fold unmap_step (page_steps (page_floor addr) (page_ceil (addr + len)))) t)"

section \<open>Lemmas\<close>

lemma on_mem_simps [simp]: "mem (on_mem f t) = f (mem t)" "info (on_mem f t) = info t" "signal (on_mem f t) = signal t"
  "exit_code (on_mem f t) = exit_code t" "tid (on_mem f t) = tid t" "pid (on_mem f t) = pid t" "tcb (on_mem f t) = tcb t"
  by (simp_all add: on_mem_def)

lemma unmap_step_get:
  "bt_get (mapped_page (unmap_step v m)) k = (if k = v then None else bt_get (mapped_page m) k)"
  "bt_get (page_data (unmap_step v m)) k = (if k = v then None else bt_get (page_data m) k)"
  by (simp_all add: unmap_step_def)

lemma unmap_step_ok: "mem_ok m \<Longrightarrow> mem_ok (unmap_step v m)"
  by (auto simp: mem_ok_def unmap_step_get unmap_step_def)

lemma fold_unmap:
  "bt_get (mapped_page (fold unmap_step vs m)) k = (if k \<in> set vs then None else bt_get (mapped_page m) k)"
  "bt_get (page_data (fold unmap_step vs m)) k = (if k \<in> set vs then None else bt_get (page_data m) k)"
  by (induction vs arbitrary: m) (auto simp: unmap_step_get)

lemma fold_unmap_ok: "mem_ok m \<Longrightarrow> mem_ok (fold unmap_step vs m)"
  by (induction vs arbitrary: m) (simp_all add: unmap_step_ok)

text \<open>The number of pages of a length, and the pages of an aligned area.\<close>

lemma page_count:
  assumes "unat len + 4095 < 2 ^ 64"
  shows "unat ((len + PAGE_SIZE - 1) div PAGE_SIZE) = (unat len + 4095) div 4096"
    and "unat ((len + PAGE_SIZE - 1) div PAGE_SIZE * PAGE_SIZE) = (unat len + 4095) div 4096 * 4096"
proof -
  have "len + PAGE_SIZE - 1 = len + 4095" by (simp add: PAGE_SIZE_def)
  moreover have "unat (len + 4095) = unat len + 4095" using assms by (simp add: unat_plus_no_wrap)
  ultimately have "unat (len + PAGE_SIZE - 1) = unat len + 4095" by metis
  then show *: "unat ((len + PAGE_SIZE - 1) div PAGE_SIZE) = (unat len + 4095) div 4096" by (simp only: unat_div unat_PAGE_SIZE)
  have "(unat len + 4095) div 4096 * 4096 < 2 ^ 64" using assms by (meson le_less_trans round_down_le)
  then show "unat ((len + PAGE_SIZE - 1) div PAGE_SIZE * PAGE_SIZE) = (unat len + 4095) div 4096 * 4096"
    by (subst unat_word_ariths(2)) (simp only: * unat_PAGE_SIZE, simp)
qed

lemma in_mmap_pages:
  assumes "page_floor start = start" and "unat start + unat pages * 4096 \<le> 2 ^ 64"
  shows "x \<in> set (mmap_pages start pages) \<longleftrightarrow> page_floor x = x \<and> unat start \<le> unat x \<and> unat x < unat start + unat pages * 4096"
proof
  assume "x \<in> set (mmap_pages start pages)"
  then obtain i where i: "i < unat pages" "x = start + of_nat i * PAGE_SIZE" by (auto simp: mmap_pages_def)
  have lt: "i * 4096 < unat pages * 4096" using i(1) by simp
  then have "unat (of_nat i * PAGE_SIZE) = i * 4096"
    using assms(2) unat_of_nat_small [of "i * 4096", where 'a = 64] by (simp add: PAGE_SIZE_def)
  then have "unat x = unat start + i * 4096"
    using i lt assms(2) unat_plus_no_wrap [of start "of_nat i * PAGE_SIZE"] by simp
  then show "page_floor x = x \<and> unat start \<le> unat x \<and> unat x < unat start + unat pages * 4096"
    using i(2) lt page_floor_add_page [OF assms(1)] by simp
next
  assume x: "page_floor x = x \<and> unat start \<le> unat x \<and> unat x < unat start + unat pages * 4096"
  define i where "i = unat x div 4096 - unat start div 4096"
  have al: "unat x = unat x div 4096 * 4096" "unat start = unat start div 4096 * 4096"
    using x assms(1) unat_page_floor [of x] unat_page_floor [of start] by simp_all
  then have "unat x = unat start + i * 4096" using x unfolding i_def by (simp add: diff_mult_distrib)
  moreover from this have "i < unat pages" using x by simp
  moreover have "unat (of_nat (i * 4096) :: usize) = i * 4096"
    using \<open>unat x = unat start + i * 4096\<close> unat_less_64 [of x] by (intro unat_of_nat_small) simp
  then have "unat (start + of_nat (i * 4096)) = unat start + i * 4096"
    using \<open>unat x = unat start + i * 4096\<close> unat_less_64 [of x] unat_plus_no_wrap [of start "of_nat (i * 4096)"] by simp
  ultimately have "x = start + of_nat i * PAGE_SIZE" by (simp add: word_unat_eq_iff PAGE_SIZE_def)
  with \<open>i < unat pages\<close> show "x \<in> set (mmap_pages start pages)" by (auto simp: mmap_pages_def)
qed

lemma peek_unmapped: "mem_synced m \<Longrightarrow> bt_get (mapped_page m) (page_floor x) = None \<Longrightarrow> peek m x = 0"
  by (simp add: peek_def mem_synced_def)

lemma in_page_steps:
  assumes "page_floor a = a" and "page_floor b = b"
  shows "x \<in> set (page_steps a b) \<longleftrightarrow> page_floor x = x \<and> unat a \<le> unat x \<and> unat x < unat b"
proof (cases "unat a \<le> unat b")
  case True
  define n where "n = (unat b - unat a + 4095) div 4096"
  have "unat b = unat b div 4096 * 4096" "unat a = unat a div 4096 * 4096"
    using assms unat_page_floor [of a] unat_page_floor [of b] by simp_all
  then obtain p q where pq: "unat b = q * 4096" "unat a = p * 4096" by blast
  then have n: "n * 4096 = unat b - unat a" using True unfolding n_def by (simp flip: diff_mult_distrib)
  then have "n < 2 ^ 64" using unat_less_64 [of b] by linarith
  then have u: "unat (of_nat n :: usize) = n" by (intro unat_of_nat_small) simp
  then have "page_steps a b = mmap_pages a (of_nat n)" by (simp only: page_steps_def mmap_pages_def n_def [symmetric])
  moreover have "unat a + unat (of_nat n :: usize) * 4096 = unat b" unfolding u n using True by simp
  ultimately show ?thesis
    using in_mmap_pages [OF assms(1), of "of_nat n" x] unat_less_64 [of b] by simp
next
  case False
  then show ?thesis by (simp add: page_steps_def)
qed

lemma page_ceil_aligned: "page_floor (page_ceil a) = page_ceil a"
  using page_floor_idem [of "a + PAGE_SIZE - 1"] by (simp add: page_ceil_def page_floor_def)

lemma page_ceil_bounds:
  assumes "unat a + 4095 < 2 ^ 64"
  shows "unat a \<le> unat (page_ceil a)" and "unat (page_ceil a) < unat a + 4096"
  using round_up_bounds [of 4096 "unat a"] assms by (simp_all add: unat_page_ceil)

lemma page_floor_between:
  assumes "page_floor s = s" and "unat s \<le> unat x"
  shows "unat s \<le> unat (page_floor x)" and "unat (page_floor x) \<le> unat x" and "unat x < unat (page_floor x) + 4096"
proof -
  have "unat s = unat s div 4096 * 4096" using assms(1) unat_page_floor [of s] by simp
  also have "\<dots> \<le> unat x div 4096 * 4096" using assms(2) by (simp add: div_le_mono)
  finally show "unat s \<le> unat (page_floor x)" by (simp add: unat_page_floor)
  show "unat (page_floor x) \<le> unat x" "unat x < unat (page_floor x) + 4096"
    using page_split [of x] mod_less_divisor [of 4096 "unat x"] by linarith+
qed

section \<open>Properties\<close>

text \<open>
  C11. An anonymous mapping is a fresh area: for a task whose memory is well formed and whose end is page aligned, when the
  rounded length does not overflow and there is room above the end, \<^verbatim>\<open>mmap\<close> with address 0 returns a page-aligned address
  such that no byte of the area was in a mapped page before and every byte of it is afterwards; every page that was mapped
  stays mapped and no byte of memory changes. A byte of the area reads as zero when the page cache holds no page for it,
  which is so for the whole area while the cache and the mappings of the task agree (\<open>mmap_zero\<close>); where the cache still holds a
  page, it reads as the byte of that page: \<^verbatim>\<open>clear_mapped\<close>, called by \<^verbatim>\<open>execve\<close>, forgets the mappings and keeps the
  contents (\<open>mmap_stale\<close>).
\<close>

theorem mmap_fresh_area:
  assumes ok: "mem_ok (mem t)" and al: "page_floor (task_vm_end (info t)) = task_vm_end (info t)"
    and len: "unat len + 4095 < 2 ^ 64"
    and fits: "area_fits (task_vm_end (info t)) 0x100000 ((len + PAGE_SIZE - 1) div PAGE_SIZE * PAGE_SIZE) (mem t)"
    and r: "sys_mmap 0 len prot t = (res, t')"
  shows "\<exists>start. res = Inr start \<and> page_floor start = start \<and>
    (\<forall>x. unat start \<le> unat x \<and> unat x < unat start + unat len \<longrightarrow>
       bt_get (mapped_page (mem t)) (page_floor x) = None \<and> bt_get (mapped_page (mem t')) (page_floor x) \<noteq> None \<and>
       peek (mem t') x = (case bt_get (page_data (mem t)) (page_floor x) of None \<Rightarrow> 0 | Some p \<Rightarrow> p ! page_offset x)) \<and>
    (\<forall>k. bt_get (mapped_page (mem t)) k \<noteq> None \<longrightarrow> bt_get (mapped_page (mem t')) k \<noteq> None) \<and>
    peek (mem t') = peek (mem t) \<and> mem_ok (mem t')"
proof -
  let ?p = "(len + PAGE_SIZE - 1) div PAGE_SIZE" and ?s = "find_free_area (task_vm_end (info t)) 0x100000 ((len + PAGE_SIZE - 1) div PAGE_SIZE * PAGE_SIZE) (mem t)"
  note pc = page_count [OF len]
  have t': "res = Inr ?s" "mem t' = map_pages (mmap_pages ?s ?p) (mem t)" using r by (auto simp: sys_mmap_def Let_def)
  have "page_floor (0x100000 :: usize) = 0x100000" by (simp add: page_floor_def PAGE_SIZE_def)
  then have als: "page_floor ?s = ?s" using find_free_area_aligned [OF ok al] by blast
  have room: "unat ?s + unat ?p * 4096 < 2 ^ 64" using find_free_area_bound [OF ok fits] unfolding pc .
  have enough: "unat len \<le> unat ?p * 4096" unfolding pc using round_up_bounds(1) [of 4096 "unat len"] by simp
  have pages: "k \<in> set (mmap_pages ?s ?p) \<longleftrightarrow> page_floor k = k \<and> unat ?s \<le> unat k \<and> unat k < unat ?s + unat ?p * 4096" for k
    using in_mmap_pages [OF als] room by simp
  then have img: "page_floor ` set (mmap_pages ?s ?p) = set (mmap_pages ?s ?p)" by force
  have peek: "peek (mem t') = peek (mem t)" using t'(2) map_pages_peek [OF ok] by simp
  have "bt_get (mapped_page (mem t)) (page_floor x) = None \<and> bt_get (mapped_page (mem t')) (page_floor x) \<noteq> None \<and>
      peek (mem t') x = (case bt_get (page_data (mem t)) (page_floor x) of None \<Rightarrow> 0 | Some p \<Rightarrow> p ! page_offset x)"
    if x: "unat ?s \<le> unat x" "unat x < unat ?s + unat len" for x
  proof -
    note b = page_floor_between [OF als x(1)]
    have "\<not> (unat ?s + unat (?p * PAGE_SIZE) \<le> unat (page_floor x) \<or> unat (page_floor x) + 4096 \<le> unat ?s)"
      using b x(2) enough unfolding pc by linarith
    then have none: "bt_get (mapped_page (mem t)) (page_floor x) = None"
      using find_free_area_free [OF ok fits, of "page_floor x"] by blast
    moreover have "page_floor x \<in> set (mmap_pages ?s ?p)" using b x(2) enough by (simp add: pages page_floor_idem)
    then have "bt_get (mapped_page (mem t')) (page_floor x) \<noteq> None" by (simp only: t'(2) map_pages_mapped img) blast
    ultimately show ?thesis unfolding peek peek_def by (simp split: option.splits)
  qed
  moreover have "bt_get (mapped_page (mem t')) k \<noteq> None" if "bt_get (mapped_page (mem t)) k \<noteq> None" for k
    using that by (simp only: t'(2) map_pages_mapped) blast
  moreover have "mem_ok (mem t')" using ok by (simp add: t'(2) map_pages_ok)
  ultimately show ?thesis using t'(1) als peek by blast
qed

text \<open>In a task whose page cache and mappings agree the area is zero, and they agree afterwards.\<close>

lemma mmap_zero:
  assumes "mem_ok (mem t)" and "mem_synced (mem t)" and "sys_mmap addr len prot t = (res, t')"
    and "bt_get (mapped_page (mem t)) (page_floor x) = None"
  shows "peek (mem t') x = 0 \<and> mem_synced (mem t')"
  using assms peek_unmapped [OF assms(2,4)] by (auto simp: sys_mmap_def Let_def map_pages_peek map_pages_synced)

text \<open>
  After \<^verbatim>\<open>clear_mapped\<close>, as \<^verbatim>\<open>sys_execve\<close> calls it, the two do not agree: the first area is at the end of the program, and its
  bytes are the ones the old program left there.
\<close>

lemma mmap_stale:
  assumes "mem_ok (mem t)" and "bt_get (page_data (mem t)) (page_floor x) = Some p"
    and "0x100000 \<le> task_vm_end (info t)" and "sys_mmap 0 len prot (on_mem clear_mapped t) = (res, t')"
  shows "res = Inr (task_vm_end (info t)) \<and> peek (mem t') x = p ! page_offset x"
proof -
  have ok: "mem_ok (clear_mapped (mem t))" using assms(1) by (simp add: mem_ok_def clear_mapped_def)
  have "bt_keys (mapped_page (clear_mapped (mem t))) = []" by (simp add: clear_mapped_def bt_keys_def bt_empty_def)
  moreover have "peek (clear_mapped (mem t)) x = p ! page_offset x" using assms(2) by (simp add: peek_def clear_mapped_def)
  ultimately show ?thesis using assms(3,4) map_pages_peek [OF ok] by (auto simp: sys_mmap_def Let_def find_free_area_def max_def)
qed

text \<open>A task with a little memory.\<close>

definition sample_task :: sel4_task where
  "sample_task = \<lparr> pid = 7, ppid = 1, pgid = 0, tid = 7, tcb = 300, cnode = 301, vspace = 302, exit_code = None, futex_table = [],
     clear_child_tid = 0, info = \<lparr> ti_entry = 0x401000, task_vm_end = 0x402000, ti_args = [] \<rparr>,
     mem = snd (map_blank_page_simple 0x401000 task_mem_default), signal = task_signal_new \<rparr>"

lemma sample_task_ok: "mem_ok (mem sample_task)" "mem_synced (mem sample_task)"
proof -
  have "mem_ok task_mem_default" "mem_synced task_mem_default"
    by (simp_all add: mem_ok_def mem_synced_def task_mem_default_def)
  then show "mem_ok (mem sample_task)" "mem_synced (mem sample_task)"
    by (simp_all add: sample_task_def map_blank_ok map_blank_synced)
qed

theorem mmap_fresh_area_witness:
  "\<exists>start t'. sys_mmap 0 5000 3 sample_task = (Inr start, t') \<and> peek (mem t') (start + 4999) = 0"
proof -
  have "bt_keys (mapped_page (mem sample_task)) = [0x401000]"
    by (simp add: sample_task_def map_blank_page_simple_def task_mem_default_def page_floor_def PAGE_SIZE_def bt_or_insert_def bt_contains_def bt_empty_def
        bt_get_empty [unfolded bt_empty_def] bt_keys_def)
  then have fits: "area_fits (task_vm_end (info sample_task)) 0x100000 ((5000 + PAGE_SIZE - 1) div PAGE_SIZE * PAGE_SIZE) (mem sample_task)"
    by (simp add: area_fits_def sample_task_def PAGE_SIZE_def max_def)
  have al: "page_floor (task_vm_end (info sample_task)) = task_vm_end (info sample_task)"
    by (simp add: sample_task_def page_floor_def PAGE_SIZE_def)
  obtain res t' where r: "sys_mmap 0 5000 3 sample_task = (res, t')" by fastforce
  have "unat (5000 :: usize) + 4095 < 2 ^ 64" by simp
  from mmap_fresh_area [OF sample_task_ok(1) al this fits r] obtain start where s: "res = Inr start"
    "\<forall>x. unat start \<le> unat x \<and> unat x < unat start + unat (5000 :: usize) \<longrightarrow>
      peek (mem t') x = (case bt_get (page_data (mem sample_task)) (page_floor x) of None \<Rightarrow> 0 | Some p \<Rightarrow> p ! page_offset x)"
    by blast
  have "start = 0x402000" using r s(1)
    by (auto simp: sys_mmap_def Let_def sample_task_def find_free_area_def \<open>bt_keys (mapped_page (mem sample_task)) = [0x401000]\<close> [unfolded sample_task_def, simplified] PAGE_SIZE_def)
  moreover have "bt_get (page_data (mem sample_task)) (page_floor 0x403387) = None"
    by (simp add: sample_task_def map_blank_page_simple_def Let_def bt_get_or_insert task_mem_default_def page_floor_def PAGE_SIZE_def)
  ultimately have "peek (mem t') (start + 4999) = 0" using s(2) by simp
  then show ?thesis using r s(1) by blast
qed

lemma in_range_pages:
  assumes "page_floor a = a" and "page_floor b = b"
  shows "page_floor x \<in> set (page_steps a b) \<longleftrightarrow> unat a \<le> unat x \<and> unat x < unat b"
proof -
  have "unat (page_floor x) < unat b \<longleftrightarrow> unat x < unat b"
  proof (cases "unat b \<le> unat x")
    case True
    then show ?thesis using page_floor_between(1) [OF assms(2), of x] by simp
  next
    case False
    then show ?thesis using page_floor_le [of x] by (simp add: word_le_nat_alt)
  qed
  moreover have "unat a \<le> unat (page_floor x) \<longleftrightarrow> unat a \<le> unat x"
    using page_floor_between(1) [OF assms(1), of x] page_floor_le [of x] by (auto simp: word_le_nat_alt)
  ultimately show ?thesis by (simp add: in_page_steps [OF assms] page_floor_idem)
qed

text \<open>
  C24. \<^verbatim>\<open>munmap\<close> releases exactly the pages that the range touches: every byte of those pages reads as zero
  afterwards and is in no mapped page, every other byte and mapping stays, and the memory stays well
  formed.
\<close>

theorem munmap_exact:
  assumes ok: "mem_ok (mem t)" "mem_synced (mem t)" and r: "sys_munmap addr len t = (res, t')"
  shows "res = Inr 0 \<and>
    (\<forall>x. if unat (page_floor addr) \<le> unat x \<and> unat x < unat (page_ceil (addr + len))
         then peek (mem t') x = 0 \<and> bt_get (mapped_page (mem t')) (page_floor x) = None
         else peek (mem t') x = peek (mem t) x \<and>
           bt_get (mapped_page (mem t')) (page_floor x) = bt_get (mapped_page (mem t)) (page_floor x)) \<and>
    mem_ok (mem t') \<and> mem_synced (mem t')"
proof -
  let ?ps = "page_steps (page_floor addr) (page_ceil (addr + len))"
  have m: "res = Inr 0" "mem t' = fold unmap_step ?ps (mem t)" using r by (auto simp: sys_munmap_def)
  have "page_floor x \<in> set ?ps \<longleftrightarrow> unat (page_floor addr) \<le> unat x \<and> unat x < unat (page_ceil (addr + len))" for x
    by (rule in_range_pages) (simp_all add: page_floor_idem page_ceil_aligned)
  then have "if unat (page_floor addr) \<le> unat x \<and> unat x < unat (page_ceil (addr + len))
      then peek (mem t') x = 0 \<and> bt_get (mapped_page (mem t')) (page_floor x) = None
      else peek (mem t') x = peek (mem t) x \<and>
        bt_get (mapped_page (mem t')) (page_floor x) = bt_get (mapped_page (mem t)) (page_floor x)" for x
    unfolding m(2) peek_def fold_unmap by auto
  moreover have "mem_synced (mem t')" using ok(2) unfolding m(2) mem_synced_def fold_unmap by auto
  moreover have "mem_ok (mem t')" using fold_unmap_ok [OF ok(1)] by (simp add: m(2))
  ultimately show ?thesis using m(1) by (intro conjI allI)
qed

theorem munmap_exact_witness:
  "\<exists>t'. sys_munmap 0x401234 16 sample_task = (Inr 0, t') \<and> bt_get (mapped_page (mem t')) 0x401000 = None"
proof -
  obtain res t' where r: "sys_munmap 0x401234 16 sample_task = (res, t')" by fastforce
  from munmap_exact [OF sample_task_ok r] have "res = Inr 0" "if unat (page_floor 0x401234) \<le> unat (0x401000 :: usize) \<and>
      unat (0x401000 :: usize) < unat (page_ceil (0x401234 + 16))
      then peek (mem t') 0x401000 = 0 \<and> bt_get (mapped_page (mem t')) (page_floor 0x401000) = None
      else peek (mem t') 0x401000 = peek (mem sample_task) 0x401000 \<and>
        bt_get (mapped_page (mem t')) (page_floor 0x401000) = bt_get (mapped_page (mem sample_task)) (page_floor 0x401000)" by blast+
  then show ?thesis using r by (simp add: page_floor_def page_ceil_def PAGE_SIZE_def)
qed

text \<open>
  C26. \<^verbatim>\<open>brk\<close>: with argument 0 it reports the break and changes nothing; otherwise the break becomes the
  argument, every byte between the old and the new break is in a mapped page, no byte changes its
  value and nothing is unmapped.
\<close>

theorem brk_maps_heap:
  assumes ok: "mem_ok (mem t)" and fits: "unat new_brk + 4095 < 2 ^ 64" and r: "sys_brk new_brk t = (res, t')"
  shows "if new_brk = 0 then res = Inr (heap (mem t)) \<and> t' = t
    else res = Inr new_brk \<and> heap (mem t') = new_brk \<and> peek (mem t') = peek (mem t) \<and> mem_ok (mem t') \<and>
      (\<forall>x. unat (heap (mem t)) \<le> unat x \<and> unat x < unat new_brk \<longrightarrow> bt_get (mapped_page (mem t')) (page_floor x) \<noteq> None) \<and>
      (\<forall>k. bt_get (mapped_page (mem t)) k \<noteq> None \<longrightarrow> bt_get (mapped_page (mem t')) k \<noteq> None)"
proof (cases "new_brk = 0")
  case True
  then show ?thesis using r by (auto simp: sys_brk_def)
next
  case False
  let ?h = "heap (mem t)" and ?m = "(mem t)\<lparr> heap := new_brk \<rparr>"
  let ?ps = "if new_brk > ?h then page_steps (page_floor ?h) (page_ceil new_brk) else []"
  have m: "res = Inr new_brk" "mem t' = map_pages ?ps ?m"
    using r False by (auto simp: sys_brk_def Let_def split: if_splits)
  have ok': "mem_ok ?m" "peek ?m = peek (mem t)" using ok by (simp_all add: mem_ok_def peek_def fun_eq_iff)
  have "bt_get (mapped_page (mem t')) (page_floor x) \<noteq> None" if x: "unat ?h \<le> unat x" "unat x < unat new_brk" for x
  proof -
    have "new_brk > ?h" using x by (simp add: word_less_nat_alt)
    moreover have "page_floor x \<in> set (page_steps (page_floor ?h) (page_ceil new_brk))"
      using in_range_pages [of "page_floor ?h" "page_ceil new_brk" x] x page_floor_le [of ?h] page_ceil_bounds(1) [OF fits]
      by (simp add: page_floor_idem page_ceil_aligned word_le_nat_alt)
    then have "page_floor x \<in> page_floor ` set (page_steps (page_floor ?h) (page_ceil new_brk))" by (metis imageI page_floor_idem)
    ultimately show ?thesis by (simp only: m(2) map_pages_mapped if_True) blast
  qed
  moreover have "bt_get (mapped_page (mem t')) k \<noteq> None" if "bt_get (mapped_page (mem t)) k \<noteq> None" for k
    using that by (simp only: m(2) map_pages_mapped) simp
  moreover have "heap (mem t') = new_brk" by (simp add: m(2))
  ultimately show ?thesis using False m(1) map_pages_peek [OF ok'(1)] ok'(2) map_pages_ok [OF ok'(1)] m(2) by simp
qed

theorem brk_maps_heap_witness:
  "\<exists>t'. sys_brk 0x70002000 sample_task = (Inr 0x70002000, t') \<and> bt_get (mapped_page (mem t')) (page_floor 0x70001fff) \<noteq> None"
proof -
  obtain res t' where r: "sys_brk 0x70002000 sample_task = (res, t')" by fastforce
  have "heap (mem sample_task) = 0x70000000"
    by (simp add: sample_task_def map_blank_page_simple_def task_mem_default_def DEF_HEAP_ADDR_def Let_def)
  then show ?thesis using r brk_maps_heap [OF sample_task_ok(1) _ r] by auto
qed

end
