(* ===== verification/Syscall_Task.thy ===== *)
theory Syscall_Task
  imports Syscall_Mm
begin

text \<open>
  The system calls on signals (\<^verbatim>\<open>lcl/src/syscall/signal.rs\<close>), on system information
  (\<^verbatim>\<open>lcl/src/syscall/sys.rs\<close>) and on threads and processes (\<^verbatim>\<open>lcl/src/syscall/thread.rs\<close>). A call that
  touches only the calling task is a function on that task; \<^verbatim>\<open>kill\<close> and \<^verbatim>\<open>tkill\<close> work on the map of
  all tasks, \<^verbatim>\<open>exit\<close> also enters the kernel.
\<close>

section \<open>Signals\<close>

definition on_signal :: "(task_signal \<Rightarrow> task_signal) \<Rightarrow> sel4_task \<Rightarrow> sel4_task" where
  "on_signal f t = t\<lparr> signal := f (signal t) \<rparr>"

text \<open>\<^verbatim>\<open>read_bytes(addr, &mut buf)\<close> where the result is ignored.\<close>

definition peek_buf :: "usize \<Rightarrow> nat \<Rightarrow> sel4_task \<Rightarrow> bytes" where
  "peek_buf addr n t = snd (read_bytes (mem t) addr (replicate n 0))"

definition sys_sigprocmask :: "i32 \<Rightarrow> usize \<Rightarrow> usize \<Rightarrow> sel4_task \<Rightarrow> sysresult \<times> sel4_task" where
  "sys_sigprocmask how set_addr old_addr t =
     (let t1 = (if old_addr \<noteq> 0 then poke old_addr (to_le 8 (sig_mask (signal t))) t else t)
      in if set_addr \<noteq> 0 then
           let new_mask = from_le (peek_buf set_addr 8 t1)
           in if how = 0 then (Inr 0, on_signal (\<lambda>s. s\<lparr> sig_mask := sig_mask s OR new_mask \<rparr>) t1)
              else if how = 1 then (Inr 0, on_signal (\<lambda>s. s\<lparr> sig_mask := sig_mask s AND NOT new_mask \<rparr>) t1)
              else if how = 2 then (Inr 0, on_signal (\<lambda>s. s\<lparr> sig_mask := new_mask \<rparr>) t1)
              else (Inl 22, t1)
         else (Inr 0, t1))"

text \<open>
  \<open>raw\<close> stands for the 32 bytes of memory that start at an entry of the action table: the structure
  has no fixed layout, and it is only 24 bytes long. Indexing panics past the end of the table.
\<close>

definition sys_rt_sigaction ::
  "(signal_action list \<Rightarrow> nat \<Rightarrow> bytes) \<Rightarrow> usize \<Rightarrow> usize \<Rightarrow> usize \<Rightarrow> usize \<Rightarrow> sel4_task \<Rightarrow> (sysresult \<times> sel4_task) option" where
  "sys_rt_sigaction raw sig act_addr oldact_addr sigsetsize t =
     (if sig = 0 \<or> sig > 64 then Some (Inl 22, t)
      else
        let i = unat (sig - 1)
        in if (oldact_addr \<noteq> 0 \<or> act_addr \<noteq> 0) \<and> length (actions (signal t)) \<le> i then None
           else
             let t1 = (if oldact_addr \<noteq> 0 then poke oldact_addr (raw (actions (signal t)) i) t else t);
                 t2 = (if act_addr \<noteq> 0
                       then on_signal (\<lambda>s. s\<lparr> actions := (actions s)[i := (actions s ! i)\<lparr> sa_handler := from_le (take 8 (peek_buf act_addr 32 t1)) \<rparr>] \<rparr>) t1
                       else t1)
             in Some (Inr 0, t2))"

definition sys_rt_sigprocmask :: "i32 \<Rightarrow> usize \<Rightarrow> usize \<Rightarrow> usize \<Rightarrow> sel4_task \<Rightarrow> sysresult \<times> sel4_task" where
  "sys_rt_sigprocmask how set_addr old_addr sigsetsize t = sys_sigprocmask how set_addr old_addr t"

definition sys_rt_sigreturn :: "sel4_task \<Rightarrow> sysresult \<times> sel4_task" where
  "sys_rt_sigreturn t = (Inr 0, t)"

text \<open>\<^verbatim>\<open>signal.pending |= 1 << (sig - 1)\<close>; the shift amount is taken modulo 64.\<close>

definition pend :: "usize \<Rightarrow> sel4_task \<Rightarrow> sel4_task" where
  "pend sig t = on_signal (\<lambda>s. s\<lparr> pending := pending s OR push_bit (unat (sig - 1) mod 64) 1 \<rparr>) t"

definition sys_kill :: "usize \<Rightarrow> usize \<Rightarrow> 'k lcl \<Rightarrow> sysresult \<times> 'k lcl" where
  "sys_kill p sig s =
     (if sig = 0 then (if bt_contains (TASK_MAP s) p then (Inr 0, s) else (Inl 3, s))
      else case bt_get (TASK_MAP s) p of
             Some target \<Rightarrow> (Inr 0, if sig \<le> 64 then update_task p (pend sig) s else s)
           | None \<Rightarrow> (Inl 3, s))"

definition sys_tkill :: "usize \<Rightarrow> usize \<Rightarrow> 'k lcl \<Rightarrow> sysresult \<times> 'k lcl" where
  "sys_tkill t sig s =
     (case bt_get (TASK_MAP s) t of
        Some target \<Rightarrow> (Inr 0, if sig \<le> 64 then update_task t (pend sig) s else s)
      | None \<Rightarrow> (Inl 3, s))"

section \<open>System information\<close>

definition uts_field :: "string \<Rightarrow> bytes" where
  "uts_field v = copy_slice (replicate 65 0) 0 (str v)"

definition utsname :: bytes where
  "utsname = uts_field ''Linux'' @ uts_field ''lcl'' @ uts_field ''6.1.0-lcl'' @ uts_field ''#1 SMP x86_64'' @
     uts_field ''x86_64'' @ replicate 65 0"

definition sys_uname :: "usize \<Rightarrow> sel4_task \<Rightarrow> sysresult \<times> sel4_task" where
  "sys_uname buf_addr t = (Inr 0, poke buf_addr utsname t)"

definition sys_gettimeofday :: "usize \<Rightarrow> sel4_task \<Rightarrow> sysresult \<times> sel4_task" where
  "sys_gettimeofday tv_addr t = (Inr 0, poke (tv_addr + 8) (to_le 8 (0 :: u64)) (poke tv_addr (to_le 8 (0 :: u64)) t))"

definition sys_clock_gettime :: "usize \<Rightarrow> usize \<Rightarrow> sel4_task \<Rightarrow> sysresult \<times> sel4_task" where
  "sys_clock_gettime clock_id ts_addr t = (Inr 0, poke (ts_addr + 8) (to_le 8 (0 :: u64)) (poke ts_addr (to_le 8 (0 :: u64)) t))"

section \<open>Threads and processes\<close>

definition sys_getpid :: "sel4_task \<Rightarrow> sysresult \<times> sel4_task" where
  "sys_getpid t = (Inr (pid t), t)"

definition sys_gettid :: "sel4_task \<Rightarrow> sysresult \<times> sel4_task" where
  "sys_gettid t = (Inr (tid t), t)"

definition sys_getppid :: "sel4_task \<Rightarrow> sysresult \<times> sel4_task" where
  "sys_getppid t = (Inr (ppid t), t)"

definition sys_set_tid_address :: "usize \<Rightarrow> sel4_task \<Rightarrow> sysresult \<times> sel4_task" where
  "sys_set_tid_address addr t = (Inr (tid t), t\<lparr> clear_child_tid := addr \<rparr>)"

definition sys_exit :: "'k kernel \<Rightarrow> u32 \<Rightarrow> sel4_task \<Rightarrow> 'k machine \<Rightarrow> (sysresult \<times> sel4_task \<times> 'k machine) option" where
  "sys_exit kern code t m = do { (t1, m1) \<leftarrow> exit_with kern (push_bit 8 code) t m; Some (Inr 0, t1, m1) }"

definition sys_exit_group :: "'k kernel \<Rightarrow> u32 \<Rightarrow> sel4_task \<Rightarrow> 'k machine \<Rightarrow> (sysresult \<times> sel4_task \<times> 'k machine) option" where
  "sys_exit_group kern code t m = do { (t1, m1) \<leftarrow> exit_with kern (push_bit 8 code) t m; Some (Inr 0, t1, m1) }"

definition sys_clone :: "sel4_task \<Rightarrow> sysresult \<times> sel4_task" where "sys_clone t = (Inl 38, t)"
definition sys_wait4 :: "sel4_task \<Rightarrow> sysresult \<times> sel4_task" where "sys_wait4 t = (Inl 10, t)"
definition sys_futex :: "sel4_task \<Rightarrow> sysresult \<times> sel4_task" where "sys_futex t = (Inr 0, t)"
definition sys_getrusage :: "sel4_task \<Rightarrow> sysresult \<times> sel4_task" where "sys_getrusage t = (Inr 0, t)"
definition sys_prlimit64 :: "sel4_task \<Rightarrow> sysresult \<times> sel4_task" where "sys_prlimit64 t = (Inr 0, t)"

section \<open>Properties\<close>

lemma poke_simps [simp]:
  "signal (poke a d t) = signal t" "exit_code (poke a d t) = exit_code t" "tcb (poke a d t) = tcb t" "cnode (poke a d t) = cnode t"
  "info (poke a d t) = info t" "clear_child_tid (poke a d t) = clear_child_tid t" "mem (poke a d t) = snd (write_bytes a d (mem t))"
  by (simp_all add: poke_def on_mem_def)

lemma on_signal_simps [simp]: "signal (on_signal f t) = f (signal t)" "mem (on_signal f t) = mem t"
  by (simp_all add: on_signal_def)

lemma pend_pending:
  assumes "0 < sig" and "sig \<le> 64"
  shows "signal (pend sig t) = add_signal sig from_tid (signal t)"
proof -
  have "1 \<le> sig" using assms(1) by (simp add: word_le_nat_alt word_less_nat_alt)
  then have "unat (sig - 1) = unat sig - 1" by (simp add: unat_minus_le)
  then have "unat (sig - 1) < 64" using assms by (simp add: word_le_nat_alt word_less_nat_alt)
  then show ?thesis using assms by (simp add: pend_def add_signal_def)
qed

lemma snd_write_bytes [simp]: "snd (write_bytes a d m) = write_bytes_loop a d m"
  by (simp add: write_bytes_def)

lemma mem_poke: "mem (poke a d t) = write_bytes_loop a d (mem t)"
  by (simp add: write_bytes_def)

text \<open>A read into zeroed memory inside one page sees the bytes of the flat memory, cached or not.\<close>

lemma peek_buf_slice:
  assumes ok: "mem_ok (mem t)" and fits: "page_offset a + n \<le> 4096"
  shows "peek_buf a n t = mem_slice (peek (mem t)) a n"
proof (cases "bt_get (page_data (mem t)) (page_floor a)")
  case None
  have "peek (mem t) (a + of_nat i) = 0" if "i < n" for i
  proof -
    have "unat (of_nat i :: usize) = i" using that fits by (intro unat_of_nat_small) simp
    then have "page_floor (a + of_nat i) = page_floor a" using same_page_iff [OF fits, of "a + of_nat i"] that by simp
    then show ?thesis using None by (simp add: peek_def)
  qed
  then have "mem_slice (peek (mem t)) a n = replicate n 0" by (simp add: mem_slice_def replicate_eq_iff_nth)
  then show ?thesis using None by (simp add: peek_buf_def read_bytes_def)
next
  case (Some p)
  then have "fst (read_bytes (mem t) a (replicate n 0))" by (simp add: read_bytes_def Let_def)
  moreover have "min n (4096 - page_offset a) = n" using fits by linarith
  ultimately show ?thesis using read_bytes_peek [OF ok, of a "replicate n 0"] by (simp add: peek_buf_def copy_slice_def)
qed

text \<open>
  C33. \<^verbatim>\<open>kill\<close> reaches exactly its target: for an existing process it returns 0, makes exactly the given
  signal pending there (none for signal 0 or a number above 64) besides those already pending, and
  leaves the mask, the memory and every other task alone; without such a process it returns \<^verbatim>\<open>ESRCH\<close>
  and changes nothing.
\<close>

theorem kill_marks_pending:
  "case bt_get (TASK_MAP s) p of
     None \<Rightarrow> sys_kill p sig s = (Inl 3, s)
   | Some t \<Rightarrow> fst (sys_kill p sig s) = Inr 0 \<and>
       (\<exists>t'. bt_get (TASK_MAP (snd (sys_kill p sig s))) p = Some t' \<and> mem t' = mem t \<and> sig_mask (signal t') = sig_mask (signal t) \<and>
         (\<forall>n. is_pending (signal t') n \<longleftrightarrow> is_pending (signal t) n \<or> (0 < n \<and> n = unat sig \<and> n \<le> 64))) \<and>
       (\<forall>k. k \<noteq> p \<longrightarrow> bt_get (TASK_MAP (snd (sys_kill p sig s))) k = bt_get (TASK_MAP s) k)"
proof (cases "bt_get (TASK_MAP s) p")
  case None
  then show ?thesis by (simp add: sys_kill_def bt_contains_def)
next
  case (Some t)
  show ?thesis
  proof (cases "0 < sig \<and> sig \<le> 64")
    case True
    then have sp: "signal (pend sig t) = add_signal sig 0 (signal t)" by (simp add: pend_pending)
    have "is_pending (signal (pend sig t)) n \<longleftrightarrow> is_pending (signal t) n \<or> (0 < n \<and> n = unat sig \<and> n \<le> 64)" for n
      unfolding sp using add_signal_pending [of n sig 0 "signal t"] by (cases "0 < n") (auto simp: is_pending_def)
    moreover have "mem (pend sig t) = mem t" "sig_mask (signal (pend sig t)) = sig_mask (signal t)" by (simp_all add: pend_def)
    moreover have "sig \<noteq> 0" using True by auto
    ultimately show ?thesis using True Some by (simp add: sys_kill_def get_update_task)
  next
    case False
    then have "sig = 0 \<or> \<not> unat sig \<le> 64" by (auto simp: word_le_nat_alt word_less_nat_alt unat_eq_zero)
    then show ?thesis using Some by (auto simp: sys_kill_def bt_contains_def word_le_nat_alt)
  qed
qed

definition sample_lcl :: "unit lcl" where
  "sample_lcl = \<lparr> TASK_MAP = bt_insert 7 sample_task bt_empty, TIME_QUEUE = [], CURRENT_TIME_MS = 0, FS_CLIENT = fs_client_new,
     machine = sample_machine \<rparr>"

theorem kill_marks_pending_witness:
  "\<exists>t'. bt_get (TASK_MAP (snd (sys_kill 7 15 sample_lcl))) 7 = Some t' \<and> is_pending (signal t') 15"
  using kill_marks_pending [where s = sample_lcl and p = 7 and sig = 15] by (auto simp: sample_lcl_def)

text \<open>
  C34. \<^verbatim>\<open>sigprocmask\<close> adds, removes or replaces the blocked signals by the set the task passes in memory,
  after storing the old mask where asked; an unknown \<^verbatim>\<open>how\<close> is refused with \<^verbatim>\<open>EINVAL\<close> and leaves the
  mask. The set is taken to lie in one page and apart from the place of the old mask.
\<close>

theorem sigprocmask_exact:
  assumes ok: "mem_ok (mem t)" and "set_addr \<noteq> 0" and page: "page_offset set_addr + 8 \<le> 4096" and sep: "apart set_addr 8 old_addr 8"
    and r: "sys_sigprocmask how set_addr old_addr t = (res, t')"
  shows "let m = sig_mask (signal t); a = from_le (mem_slice (peek (mem t)) set_addr 8) in
    sig_mask (signal t') = (if how = 0 then m OR a else if how = 1 then m AND NOT a else if how = 2 then a else m) \<and>
    res = (if how = 0 \<or> how = 1 \<or> how = 2 then Inr 0 else Inl 22) \<and> pending (signal t') = pending (signal t) \<and>
    (old_addr \<noteq> 0 \<longrightarrow> from_le (mem_slice (peek (mem t')) old_addr 8) = m)"
proof -
  let ?old = "to_le 8 (sig_mask (signal t))"
  let ?t1 = "if old_addr \<noteq> 0 then poke old_addr ?old t else t"
  have "mem_ok (mem ?t1)" using ok task_memory.wr_ok [OF ok] by (simp add: mem_poke)
  moreover have "mem_slice (peek (mem ?t1)) set_addr 8 = mem_slice (peek (mem t)) set_addr 8"
    using task_memory.slice_wr_other [OF ok, of ?old set_addr 8 old_addr] sep by (simp add: mem_poke)
  ultimately have a: "peek_buf set_addr 8 ?t1 = mem_slice (peek (mem t)) set_addr 8"
    using peek_buf_slice [OF _ page, of ?t1] by simp
  have "from_le (mem_slice (peek (mem ?t1)) old_addr 8) = sig_mask (signal t)" if "old_addr \<noteq> 0"
    using that task_memory.slice_wr_same [OF ok, of ?old old_addr] by (simp add: mem_poke from_le_to_le)
  moreover have "signal ?t1 = signal t" by simp
  ultimately show ?thesis using r assms(2) unfolding sys_sigprocmask_def a [symmetric]
    by (auto simp: Let_def split: if_splits)
qed

theorem sigprocmask_exact_witness:
  "\<exists>t'. sys_sigprocmask 0 0x401000 0x401100 sample_task = (Inr 0, t')"
proof -
  obtain res t' where r: "sys_sigprocmask 0 0x401000 0x401100 sample_task = (res, t')" by fastforce
  have "apart 0x401000 8 0x401100 8" by (rule apartI) simp_all
  moreover have "page_offset 0x401000 + 8 \<le> 4096" by (simp add: page_offset_def PAGE_SIZE_def)
  ultimately show ?thesis using sigprocmask_exact [OF sample_task_ok(1) _ _ _ r] r by (simp add: Let_def)
qed

end
