(* ===== verification/Syscall_Fs.thy ===== *)
theory Syscall_Fs
  imports Syscall_Task
begin

text \<open>
  The file system calls (\<^verbatim>\<open>lcl/src/syscall/fs.rs\<close>) and \<^verbatim>\<open>execve\<close> (\<^verbatim>\<open>lcl/src/syscall/exec.rs\<close>). They work
  on the calling task, the file service client and the machine, the record \<open>sysenv\<close>; \<open>None\<close> is a panic.
\<close>

record 'k sysenv =
  se_task :: sel4_task
  se_client :: fs_client
  se_machine :: "'k machine"

section \<open>Strings in task memory\<close>

function read_cstr_loop :: "task_mem_info \<Rightarrow> usize \<Rightarrow> bytes \<Rightarrow> bytes" where
  "read_cstr_loop m a acc =
     (let (ok, buf) = read_bytes m a [0]
      in if \<not> ok \<or> hd buf = 0 then acc
         else let acc' = acc @ [hd buf]
              in if length acc' > 4096 then acc' else read_cstr_loop m (a + 1) acc')"
  by auto
termination
  by (relation "measure (\<lambda>(m, a, acc). 4097 - length acc)") auto

declare read_cstr_loop.simps [simp del]

definition read_cstr_from_task :: "sel4_task \<Rightarrow> usize \<Rightarrow> bytes" where
  "read_cstr_from_task t addr = from_utf8_lossy (read_cstr_loop (mem t) addr [])"

section \<open>Reading and writing\<close>

text \<open>\<^verbatim>\<open>match r { Ok(v) => Ok(v), Err(e) => Err(-e) }\<close> and \<^verbatim>\<open>match r { Ok(_) => Ok(0), .. }\<close>\<close>

definition neg_err :: "sysresult \<Rightarrow> sysresult" where
  "neg_err r = (case r of Inr v \<Rightarrow> Inr v | Inl e \<Rightarrow> Inl (- e))"

definition neg_err0 :: "sysresult \<Rightarrow> sysresult" where
  "neg_err0 r = (case r of Inr v \<Rightarrow> Inr 0 | Inl e \<Rightarrow> Inl (- e))"

text \<open>
  \<^verbatim>\<open>if task.write_bytes(addr, data) { Ok(v) } else { Err(14) }\<close>
\<close>

definition store_result :: "usize \<Rightarrow> bytes \<Rightarrow> usize \<Rightarrow> 'k sysenv \<Rightarrow> sysresult \<times> 'k sysenv" where
  "store_result addr dat v e =
     (let (ok, m) = write_bytes addr dat (mem (se_task e));
          e1 = e\<lparr> se_task := (se_task e)\<lparr> mem := m \<rparr> \<rparr>
      in if ok then (Inr v, e1) else (Inl 14, e1))"

definition sys_read :: "'k kernel \<Rightarrow> usize \<Rightarrow> usize \<Rightarrow> usize \<Rightarrow> 'k sysenv \<Rightarrow> (sysresult \<times> 'k sysenv) option" where
  "sys_read kern fd buf_addr cnt e =
     (if fd = 0 then Some (Inr 0, e)
      else if fd = 1 \<or> fd = 2 then Some (Inl 9, e)
      else if fd = 10 then Some (Inr 0, e)
      else if fd = 11 then do {
        zeros \<leftarrow> zeroed cnt;
        Some (store_result buf_addr zeros cnt e)
      }
      else do {
        buf \<leftarrow> zeroed cnt;
        (r, buf1, m1) \<leftarrow> fs_read kern fd buf (se_client e) (se_machine e);
        (case r of
           Inr n \<Rightarrow> do {
             dat \<leftarrow> sub_slice buf1 0 (unat n);
             Some (store_result buf_addr dat n (e\<lparr> se_machine := m1 \<rparr>))
           }
         | Inl err \<Rightarrow> Some (Inl (- err), e\<lparr> se_machine := m1 \<rparr>))
      })"

text \<open>\<^verbatim>\<open>for i in 0..count\<close> printing each byte that can be read.\<close>

definition put_task_bytes :: "'k kernel \<Rightarrow> task_mem_info \<Rightarrow> usize \<Rightarrow> nat \<Rightarrow> 'k machine \<Rightarrow> 'k machine" where
  "put_task_bytes kern mm buf_addr n m =
     fold (\<lambda>i m. let (ok, byte) = read_bytes mm (buf_addr + of_nat i) [0]
                 in if ok then seL4_DebugPutChar kern (hd byte) m else m) [0..<n] m"

definition sys_write :: "'k kernel \<Rightarrow> usize \<Rightarrow> usize \<Rightarrow> usize \<Rightarrow> 'k sysenv \<Rightarrow> (sysresult \<times> 'k sysenv) option" where
  "sys_write kern fd buf_addr cnt e =
     (if fd = 0 then Some (Inl 9, e)
      else if fd = 1 \<or> fd = 2 then
        Some (Inr cnt, e\<lparr> se_machine := put_task_bytes kern (mem (se_task e)) buf_addr (unat cnt) (se_machine e) \<rparr>)
      else if fd = 10 then Some (Inr cnt, e)
      else if fd = 11 then Some (Inr cnt, e)
      else do {
        buf \<leftarrow> zeroed cnt;
        let (ok, dat) = read_bytes (mem (se_task e)) buf_addr buf;
        if \<not> ok then Some (Inl 14, e)
        else do {
          (r, m1) \<leftarrow> fs_write kern fd dat (se_client e) (se_machine e);
          Some (neg_err r, e\<lparr> se_machine := m1 \<rparr>)
        }
      })"

section \<open>Descriptors and paths\<close>

definition sys_openat :: "'k kernel \<Rightarrow> i32 \<Rightarrow> usize \<Rightarrow> u32 \<Rightarrow> u32 \<Rightarrow> 'k sysenv \<Rightarrow> (sysresult \<times> 'k sysenv) option" where
  "sys_openat kern dirfd path_addr fl mode e =
     (let path = read_cstr_from_task (se_task e) path_addr
      in if path = str ''/dev/null'' then Some (Inr 10, e)
         else if path = str ''/dev/zero'' then Some (Inr 11, e)
         else if path = str ''/dev/urandom'' then Some (Inr 12, e)
         else do {
           (r, c1, m1) \<leftarrow> fs_open kern path fl (se_client e) (se_machine e);
           Some (neg_err r, e\<lparr> se_client := c1, se_machine := m1 \<rparr>)
         })"

definition sys_close :: "'k kernel \<Rightarrow> usize \<Rightarrow> 'k sysenv \<Rightarrow> (sysresult \<times> 'k sysenv) option" where
  "sys_close kern fd e =
     (if fd \<le> 2 then Some (Inr 0, e)
      else if 10 \<le> fd \<and> fd \<le> 12 then Some (Inr 0, e)
      else do {
        (r, c1, m1) \<leftarrow> fs_close kern fd (se_client e) (se_machine e);
        Some (neg_err0 r, e\<lparr> se_client := c1, se_machine := m1 \<rparr>)
      })"

definition sys_lseek :: "'k kernel \<Rightarrow> usize \<Rightarrow> isize \<Rightarrow> i32 \<Rightarrow> 'k sysenv \<Rightarrow> (sysresult \<times> 'k sysenv) option" where
  "sys_lseek kern fd offset whence e =
     (if fd \<le> 2 \<or> (10 \<le> fd \<and> fd \<le> 12) then Some (Inl 29, e)
      else do {
        (r, m1) \<leftarrow> fs_lseek kern fd offset whence (se_client e) (se_machine e);
        Some (neg_err r, e\<lparr> se_machine := m1 \<rparr>)
      })"

definition sys_fstat :: "'k kernel \<Rightarrow> usize \<Rightarrow> usize \<Rightarrow> 'k sysenv \<Rightarrow> (sysresult \<times> 'k sysenv) option" where
  "sys_fstat kern fd stat_addr e =
     (if fd \<le> 2 \<or> (10 \<le> fd \<and> fd \<le> 12) then Some (Inr 0, e)
      else do {
        (r, m1) \<leftarrow> fs_file_size kern fd (se_client e) (se_machine e);
        Some (neg_err0 r, e\<lparr> se_machine := m1 \<rparr>)
      })"

text \<open>The 144 bytes of \<^verbatim>\<open>struct stat\<close>.\<close>

definition stat_buf :: "u32 \<Rightarrow> u64 \<Rightarrow> u64 \<Rightarrow> u32 \<Rightarrow> bytes" where
  "stat_buf mode sz ino nlink =
     (let b0 = replicate 144 0;
          b1 = copy_slice b0 8 (to_le 8 ino);
          b2 = copy_slice b1 16 (to_le 8 (ucast nlink :: u64));
          b3 = copy_slice b2 24 (to_le 4 mode);
          b4 = copy_slice b3 48 (to_le 8 sz);
          b5 = copy_slice b4 56 (to_le 8 (4096 :: u64))
      in copy_slice b5 64 (to_le 8 ((sz + 511) div 512)))"

definition sys_fstatat :: "'k kernel \<Rightarrow> i32 \<Rightarrow> usize \<Rightarrow> usize \<Rightarrow> u32 \<Rightarrow> 'k sysenv \<Rightarrow> (sysresult \<times> 'k sysenv) option" where
  "sys_fstatat kern dirfd path_addr stat_addr fl e =
     (let path = read_cstr_from_task (se_task e) path_addr
      in do {
        (r, m1) \<leftarrow> fs_stat kern path (se_machine e);
        (case r of
           Inr (mode, sz, ino, nlink) \<Rightarrow>
             Some (store_result stat_addr (stat_buf mode sz ino nlink) 0 (e\<lparr> se_machine := m1 \<rparr>))
         | Inl err \<Rightarrow> Some (Inl (- err), e\<lparr> se_machine := m1 \<rparr>))
      })"

definition sys_mkdirat :: "'k kernel \<Rightarrow> i32 \<Rightarrow> usize \<Rightarrow> u32 \<Rightarrow> 'k sysenv \<Rightarrow> (sysresult \<times> 'k sysenv) option" where
  "sys_mkdirat kern dirfd path_addr mode e =
     do {
       (r, m1) \<leftarrow> fs_mkdir kern (read_cstr_from_task (se_task e) path_addr) (se_machine e);
       Some (neg_err0 r, e\<lparr> se_machine := m1 \<rparr>)
     }"

definition sys_unlinkat :: "'k kernel \<Rightarrow> i32 \<Rightarrow> usize \<Rightarrow> u32 \<Rightarrow> 'k sysenv \<Rightarrow> (sysresult \<times> 'k sysenv) option" where
  "sys_unlinkat kern dirfd path_addr fl e =
     do {
       (r, m1) \<leftarrow> fs_unlink kern (read_cstr_from_task (se_task e) path_addr) (se_machine e);
       Some (neg_err0 r, e\<lparr> se_machine := m1 \<rparr>)
     }"

definition sys_faccessat :: "'k kernel \<Rightarrow> i32 \<Rightarrow> usize \<Rightarrow> u32 \<Rightarrow> u32 \<Rightarrow> 'k sysenv \<Rightarrow> (sysresult \<times> 'k sysenv) option" where
  "sys_faccessat kern dirfd path_addr mode fl e =
     do {
       (r, m1) \<leftarrow> fs_access kern (read_cstr_from_task (se_task e) path_addr) mode (se_machine e);
       Some (neg_err0 r, e\<lparr> se_machine := m1 \<rparr>)
     }"

definition sys_getdents64 :: "'k kernel \<Rightarrow> usize \<Rightarrow> usize \<Rightarrow> usize \<Rightarrow> 'k sysenv \<Rightarrow> (sysresult \<times> 'k sysenv) option" where
  "sys_getdents64 kern fd buf_addr cnt e =
     do {
       buf \<leftarrow> zeroed cnt;
       (r, buf1, m1) \<leftarrow> fs_getdents64 kern fd buf (se_client e) (se_machine e);
       (case r of
          Inr n \<Rightarrow>
            if n > 0 then do {
              dat \<leftarrow> sub_slice buf1 0 (unat n);
              Some (store_result buf_addr dat n (e\<lparr> se_machine := m1 \<rparr>))
            }
            else Some (Inr 0, e\<lparr> se_machine := m1 \<rparr>)
        | Inl err \<Rightarrow> Some (Inl (- err), e\<lparr> se_machine := m1 \<rparr>))
     }"

text \<open>The calls that only return a constant.\<close>

definition sys_fcntl :: sysresult where "sys_fcntl = Inr 0"
definition sys_ioctl :: sysresult where "sys_ioctl = Inr 0"
definition sys_renameat :: sysresult where "sys_renameat = Inr 0"
definition sys_ftruncate :: sysresult where "sys_ftruncate = Inr 0"
definition sys_pipe2 :: sysresult where "sys_pipe2 = Inl 38"
definition sys_dup :: sysresult where "sys_dup = Inl 38"
definition sys_dup3 :: sysresult where "sys_dup3 = Inl 38"
definition sys_readv :: sysresult where "sys_readv = Inr 0"
definition sys_writev :: sysresult where "sys_writev = Inr 0"
definition sys_pread64 :: sysresult where "sys_pread64 = Inr 0"
definition sys_pwrite64 :: sysresult where "sys_pwrite64 = Inr 0"
definition sys_sendfile :: sysresult where "sys_sendfile = Inr 0"
definition sys_ppoll :: sysresult where "sys_ppoll = Inr 0"
definition sys_utimensat :: sysresult where "sys_utimensat = Inr 0"
definition sys_statfs :: sysresult where "sys_statfs = Inr 0"
definition sys_mount :: sysresult where "sys_mount = Inl 1"
definition sys_umount2 :: sysresult where "sys_umount2 = Inl 1"

section \<open>execve\<close>

definition read_elf_file ::
  "'k kernel \<Rightarrow> bytes \<Rightarrow> fs_client \<Rightarrow> 'k machine \<Rightarrow> ((i32 + bytes) \<times> fs_client \<times> 'k machine) option" where
  "read_elf_file kern path c m =
     do {
       (r1, c1, m1) \<leftarrow> fs_open kern path 0 c m;
       (case r1 of
          Inl err \<Rightarrow> Some (Inl err, c1, m1)
        | Inr fd \<Rightarrow> do {
            (r2, m2) \<leftarrow> fs_file_size kern fd c1 m1;
            (case r2 of
               Inl err \<Rightarrow> Some (Inl err, c1, m2)
             | Inr sz \<Rightarrow> do {
                 buf \<leftarrow> zeroed sz;
                 (r3, content, m3) \<leftarrow> fs_read kern fd buf c1 m2;
                 (case r3 of
                    Inl err \<Rightarrow> Some (Inl err, c1, m3)
                  | Inr n \<Rightarrow> do {
                      (_, c2, m4) \<leftarrow> fs_close kern fd c1 m3;
                      if n \<noteq> sz then Some (Inl (- 5), c2, m4) else Some (Inr content, c2, m4)
                    })
               })
          })
     }"

definition validate_elf_header :: "bytes \<Rightarrow> i32 + unit" where
  "validate_elf_header dat =
     (if length dat < 64 then Inl (- 8)
      else if take 4 dat \<noteq> [0x7F, 0x45, 0x4C, 0x46] then Inl (- 8)
      else if dat ! 4 \<noteq> 2 then Inl (- 8)
      else if dat ! 5 \<noteq> 1 then Inl (- 8)
      else Inr ())"

text \<open>One iteration of the loop of \<^verbatim>\<open>load_elf_segments\<close> for a \<^verbatim>\<open>PT_LOAD\<close> header.\<close>

definition exec_segment :: "bytes \<Rightarrow> usize \<Rightarrow> usize \<Rightarrow> usize \<Rightarrow> usize \<Rightarrow> usize \<Rightarrow> task_mem_info \<Rightarrow> task_mem_info option" where
  "exec_segment dat reloc_offset p_offset p_vaddr p_filesz p_memsz m =
     (let v = p_vaddr + reloc_offset;
          m1 = map_pages (page_steps (page_floor v) (page_ceil (v + p_memsz))) m
      in if p_filesz > 0 then do {
           seg \<leftarrow> sub_slice dat (unat p_offset) (unat (p_offset + p_filesz));
           Some (snd (write_bytes v seg m1))
         } else Some m1)"

fun exec_segments_loop :: "bytes \<Rightarrow> usize \<Rightarrow> usize \<Rightarrow> usize \<Rightarrow> nat list \<Rightarrow> task_mem_info \<Rightarrow> task_mem_info option" where
  "exec_segments_loop dat reloc e_phoff e_phentsize [] m = Some m"
| "exec_segments_loop dat reloc e_phoff e_phentsize (i # is) m =
     (let ph_off = e_phoff + of_nat i * e_phentsize
      in if ph_off + 56 > of_nat (length dat) then Some m
         else do {
           p_type \<leftarrow> get_le dat (unat ph_off) 4;
           if p_type \<noteq> 1 then exec_segments_loop dat reloc e_phoff e_phentsize is m
           else do {
             p_offset \<leftarrow> get_le dat (unat ph_off + 8) 8;
             p_vaddr \<leftarrow> get_le dat (unat ph_off + 16) 8;
             p_filesz \<leftarrow> get_le dat (unat ph_off + 32) 8;
             p_memsz \<leftarrow> get_le dat (unat ph_off + 40) 8;
             m1 \<leftarrow> exec_segment dat reloc p_offset p_vaddr p_filesz p_memsz m;
             exec_segments_loop dat reloc e_phoff e_phentsize is m1
           }
         })"

definition load_elf_segments :: "bytes \<Rightarrow> usize \<Rightarrow> sel4_task \<Rightarrow> (usize \<times> sel4_task) option" where
  "load_elf_segments dat reloc_offset t =
     do {
       e_phoff \<leftarrow> get_le dat 32 8;
       e_phentsize \<leftarrow> get_le dat 54 2;
       e_phnum \<leftarrow> get_le dat 56 2;
       e_entry \<leftarrow> get_le dat 24 8;
       m \<leftarrow> exec_segments_loop dat reloc_offset e_phoff e_phentsize [0..<unat e_phnum] (mem t);
       Some (e_entry + reloc_offset, t\<lparr> mem := m \<rparr>)
     }"

text \<open>The loop writing NUL-terminated strings, with the pointer to each.\<close>

fun write_strings :: "bytes list \<Rightarrow> usize \<Rightarrow> sel4_task \<Rightarrow> usize list \<times> usize \<times> sel4_task" where
  "write_strings [] p t = ([], p, t)"
| "write_strings (a # as) p t =
     (let t1 = poke (p + of_nat (length a)) [0] (poke p a t);
          (ps, p', t') = write_strings as (p + of_nat (length a) + 1) t1
      in (p # ps, p', t'))"

text \<open>The loop writing a pointer array at \<open>sp\<close>, and its terminator.\<close>

definition write_pointers :: "usize \<Rightarrow> usize list \<Rightarrow> sel4_task \<Rightarrow> sel4_task" where
  "write_pointers sp ps t =
     poke (sp + of_nat (length ps) * 8) (replicate 8 0)
       (fold (\<lambda>i t. poke (sp + of_nat i * 8) (to_le 8 (ps ! i)) t) [0..<length ps] t)"

definition setup_stack :: "usize \<Rightarrow> bytes list \<Rightarrow> bytes list \<Rightarrow> sel4_task \<Rightarrow> usize \<times> sel4_task" where
  "setup_stack stack_top args envp t =
     (let base = stack_top - 4096;
          (arg_ptrs, p1, t1) = write_strings args base t;
          (env_ptrs, p2, t2) = write_strings envp p1 t1;
          str_ptr = (p2 + 15) AND NOT 15;
          sp1 = str_ptr - 16;
          t3 = poke sp1 (replicate 16 0) t2;
          sp2 = sp1 - (of_nat (length envp) + 1) * 8;
          t4 = write_pointers sp2 env_ptrs t3;
          sp3 = sp2 - (of_nat (length args) + 1) * 8;
          t5 = write_pointers sp3 arg_ptrs t4;
          sp4 = sp3 - 8
      in (sp4, poke sp4 (to_le 8 (of_nat (length args) :: usize)) t5))"

fun lowest_vaddr_loop :: "bytes \<Rightarrow> usize \<Rightarrow> usize \<Rightarrow> nat list \<Rightarrow> usize \<Rightarrow> usize option" where
  "lowest_vaddr_loop dat e_phoff e_phentsize [] low = Some low"
| "lowest_vaddr_loop dat e_phoff e_phentsize (i # is) low =
     (let ph_off = e_phoff + of_nat i * e_phentsize
      in if ph_off + 56 > of_nat (length dat) then Some low
         else do {
           p_type \<leftarrow> get_le dat (unat ph_off) 4;
           if p_type = 1 then do {
             p_vaddr \<leftarrow> get_le dat (unat ph_off + 16) 8;
             lowest_vaddr_loop dat e_phoff e_phentsize is (if p_vaddr < low then p_vaddr else low)
           }
           else lowest_vaddr_loop dat e_phoff e_phentsize is low
         })"

definition sys_execve :: "'k kernel \<Rightarrow> usize \<Rightarrow> usize \<Rightarrow> usize \<Rightarrow> 'k sysenv \<Rightarrow> (sysresult \<times> 'k sysenv) option" where
  "sys_execve kern path_addr argv_addr envp_addr e =
     (let path = read_cstr_from_task (se_task e) path_addr
      in if path = [] then Some (Inl (- 2), e)
         else do {
           (r, c1, m1) \<leftarrow> read_elf_file kern path (se_client e) (se_machine e);
           let e1 = e\<lparr> se_client := c1, se_machine := m1 \<rparr>;
           (case r of
              Inl err \<Rightarrow> Some (Inl err, e1)
            | Inr elf_data \<Rightarrow>
                (case validate_elf_header elf_data of
                   Inl err \<Rightarrow> Some (Inl err, e1)
                 | Inr _ \<Rightarrow> do {
                     e_phoff \<leftarrow> get_le elf_data 32 8;
                     e_phentsize \<leftarrow> get_le elf_data 54 2;
                     e_phnum \<leftarrow> get_le elf_data 56 2;
                     lowest \<leftarrow> lowest_vaddr_loop elf_data e_phoff e_phentsize [0..<unat e_phnum] (- 1);
                     if lowest = - 1 then Some (Inl (- 8), e1)
                     else do {
                       let t1 = on_mem clear_mapped (se_task e1);
                       (entry, t2) \<leftarrow> load_elf_segments elf_data (0x400000 - lowest) t1;
                       let (sp, t3) = setup_stack 0x2000000 [str ''busybox''] [str ''PATH=/usr/bin:/bin''] t2;
                       Some (Inr 0, e1\<lparr> se_task := t3\<lparr> info := (info t3)\<lparr> ti_entry := entry \<rparr> \<rparr> \<rparr>)
                     }
                   }))
         })"

section \<open>Strings\<close>

lemma mem_slice_1: "mem_slice f a (Suc 0) = [f a]"
  by (simp add: mem_slice_def)

lemma mem_slice_Suc: "mem_slice f a (Suc n) = f a # mem_slice f (a + 1) n"
  by (simp add: mem_slice_def map_upt_Suc add.assoc del: upt_Suc)

lemma read_byte:
  assumes "mem_ok m"
  shows "fst (read_bytes m a [0]) \<longleftrightarrow> bt_get (page_data m) (page_floor a) \<noteq> None" and "snd (read_bytes m a [0]) = [peek m a]"
proof -
  show c: "fst (read_bytes m a [0]) \<longleftrightarrow> bt_get (page_data m) (page_floor a) \<noteq> None"
    by (simp add: read_bytes_def Let_def split: option.splits)
  have "min (Suc 0) (4096 - page_offset a) = Suc 0" using page_offset_lt [of a] by linarith
  then show "snd (read_bytes m a [0]) = [peek m a]"
    using read_bytes_peek [OF assms, of a "[0]"] c
    by (cases "bt_get (page_data m) (page_floor a)") (auto simp: mem_slice_1 copy_slice_def read_bytes_def peek_def)
qed

lemma read_cstr_loop_step:
  assumes "mem_ok m"
  shows "read_cstr_loop m a acc =
    (if peek m a = 0 then acc
     else if length acc \<ge> 4096 then acc @ [peek m a] else read_cstr_loop m (a + 1) (acc @ [peek m a]))"
proof -
  obtain ok buf where r: "read_bytes m a [0] = (ok, buf)" by fastforce
  with read_byte [OF assms, of a] have "buf = [peek m a]" "ok \<longleftrightarrow> bt_get (page_data m) (page_floor a) \<noteq> None" by simp_all
  moreover have "\<not> ok \<Longrightarrow> peek m a = 0" using calculation(2) by (simp add: peek_def)
  ultimately show ?thesis by (subst read_cstr_loop.simps) (auto simp: r Let_def)
qed

lemma read_cstr_loop_takeWhile:
  "mem_ok m \<Longrightarrow> n + length acc = 4096 \<Longrightarrow> read_cstr_loop m a acc = acc @ takeWhile (\<lambda>b. b \<noteq> 0) (mem_slice (peek m) a (Suc n))"
proof (induction n arbitrary: a acc)
  case 0
  then show ?case by (subst read_cstr_loop_step) (auto simp: mem_slice_1)
next
  case (Suc n)
  then show ?case by (subst read_cstr_loop_step) (auto simp: mem_slice_Suc [of _ _ "Suc n"])
qed

text \<open>
  C31. The layer reads a path argument as a C string: the bytes of the task's memory from the given
  address up to the first NUL, at most 4097 of them, converted to a string by the lossy UTF-8
  conversion; a page that is missing from the page cache ends the string.
\<close>

theorem read_cstr_exact:
  assumes "mem_ok (mem t)"
  shows "read_cstr_from_task t addr = from_utf8_lossy (takeWhile (\<lambda>b. b \<noteq> 0) (mem_slice (peek (mem t)) addr 4097))"
proof -
  have "Suc 4096 = (4097 :: nat)" by simp
  with read_cstr_loop_takeWhile [OF assms, of 4096 "[]" addr] show ?thesis
    by (simp only: read_cstr_from_task_def list.size(3) append_Nil add_0_right)
qed

theorem read_cstr_exact_witness:
  "read_cstr_from_task (poke 0x401ffe (str ''/bin'') sample_task) 0x401ffe = str ''/bin''"
proof -
  let ?t = "poke 0x401ffe (str ''/bin'') sample_task"
  have p: "peek (mem ?t) = mem_store (peek (mem sample_task)) 0x401ffe (str ''/bin'')"
    using task_memory.rd_wr [OF sample_task_ok(1)] by (simp add: mem_poke)
  have z: "peek (mem sample_task) 0x402002 = 0" using peek_unmapped [OF sample_task_ok(2), of "0x402002"]
    by (simp add: sample_task_def map_blank_page_simple_def task_mem_default_def page_floor_def PAGE_SIZE_def bt_get_or_insert)
  have "mem_slice (peek (mem ?t)) 0x401ffe (Suc (Suc (Suc (Suc (Suc 4092))))) =
      str ''/bin'' @ 0 # mem_slice (peek (mem ?t)) 0x402003 4092"
    unfolding mem_slice_Suc p using z by (simp add: mem_store_def str_def)
  then have "takeWhile (\<lambda>b. b \<noteq> 0) (mem_slice (peek (mem ?t)) 0x401ffe 4097) = str ''/bin''" by (simp add: str_def)
  moreover have "from_utf8_lossy (str ''/bin'') = str ''/bin''" by (rule lossy_ascii) (simp add: str_def)
  moreover have "mem_ok (mem ?t)" using task_memory.wr_ok [OF sample_task_ok(1)] by (simp add: mem_poke)
  ultimately show ?thesis using read_cstr_exact [of ?t "0x401ffe"] by simp
qed

section \<open>Reads and writes of a task\<close>

lemma store_result_eq:
  "store_result addr dat v e = (Inr v, e\<lparr> se_task := (se_task e)\<lparr> mem := write_bytes_loop addr dat (mem (se_task e)) \<rparr> \<rparr>)"
  by (simp add: store_result_def write_bytes_def)

lemma read_reply_bounds:
  assumes "read_reply ib status r1 buf = Some (r, buf1)"
  shows "length buf1 = length buf" and "\<And>n. r = Inr n \<Longrightarrow> unat n \<le> length buf"
proof -
  have d: "length b1 = length buf \<and> unat n \<le> length buf" if "data_reply ib r1 buf = Some (n, b1)" for n b1
  proof -
    from that obtain dat where dat: "n = of_nat (min (min (unat r1) (length buf)) (length dat))"
      "b1 = copy_slice buf 0 (take (min (min (unat r1) (length buf)) (length dat)) dat)"
      by (auto simp: data_reply_def Let_def split: bind_splits)
    let ?n = "min (min (unat r1) (length buf)) (length dat)"
    have "?n < 2 ^ 64" using unat_less_64 [of r1] by simp
    then have "unat n = ?n" using dat(1) unat_of_nat_small [of ?n, where 'a = 64] by simp
    then show ?thesis using dat(2) by (simp add: copy_slice_def)
  qed
  show "length buf1 = length buf" "\<And>n. r = Inr n \<Longrightarrow> unat n \<le> length buf"
    using assms d by (auto simp: read_reply_def split: if_splits bind_splits)
qed

lemma fs_read_bounds:
  assumes "fs_read kern fd buf c m = Some (r, buf1, m1)"
  shows "length buf1 = length buf" and "\<And>n. r = Inr n \<Longrightarrow> unat n \<le> length buf"
  using assms by (auto simp: fs_read_def dest: read_reply_bounds split: if_splits option.splits bind_splits)

text \<open>The four outcomes of \<^verbatim>\<open>read\<close>: nothing to read, zeros of a device, data of the file service, an error.\<close>

lemma sys_read_cases:
  assumes r: "sys_read kern fd buf_addr cnt e = Some (res, e')"
  obtains (none) "e' = e" "res = Inr 0 \<or> res = Inl 9"
    | (zeros) "res = Inr cnt" "mem (se_task e') = write_bytes_loop buf_addr (replicate (unat cnt) 0) (mem (se_task e))"
        "se_client e' = se_client e"
    | (data) buf1 m1 n where "fs_read kern fd (replicate (unat cnt) 0) (se_client e) (se_machine e) = Some (Inr n, buf1, m1)" "res = Inr n"
        "mem (se_task e') = write_bytes_loop buf_addr (take (unat n) buf1) (mem (se_task e))" "se_client e' = se_client e"
    | (error) err where "res = Inl err" "mem (se_task e') = mem (se_task e)" "se_client e' = se_client e"
proof (cases "fd = 0 \<or> fd = 1 \<or> fd = 2 \<or> fd = 10 \<or> fd = 11")
  case True
  then show thesis using r none zeros by (auto simp: sys_read_def zeroed_def store_result_eq split: if_splits)
next
  case False
  then obtain rr buf1 m1 where f: "fs_read kern fd (replicate (unat cnt) 0) (se_client e) (se_machine e) = Some (rr, buf1, m1)"
    using r by (auto simp: sys_read_def zeroed_def split: if_splits bind_splits)
  then show thesis using False r data error
    by (cases rr) (auto simp: sys_read_def zeroed_def store_result_eq sub_slice_Some_iff split: if_splits bind_splits)
qed

lemma store_read_data:
  assumes "mem_ok m" and "length dat = unat n" and "unat n \<le> unat (cnt :: usize)"
  shows "\<exists>d. length d \<le> unat cnt \<and> peek (write_bytes_loop a dat m) = mem_store (peek m) a d \<and> n = of_nat (length d) \<and>
    mem_ok (write_bytes_loop a dat m)"
proof -
  have "length dat < 2 ^ 64" using assms(2,3) unat_less_64 [of cnt] by simp
  then show ?thesis using assms task_memory.rd_wr task_memory.wr_ok by (intro exI [of _ dat]) (simp add: word_unat_eq_iff)
qed

text \<open>
  C21. A read cannot damage the task: whatever the file service replies, \<^verbatim>\<open>read\<close> stores at most the
  requested number of bytes, all inside the caller's buffer; the result, when positive, is the
  number stored, and an error stores nothing.
\<close>

theorem sys_read_bounded:
  assumes ok: "mem_ok (mem (se_task e))" and r: "sys_read kern fd buf_addr cnt e = Some (res, e')"
  shows "\<exists>d. length d \<le> unat cnt \<and> peek (mem (se_task e')) = mem_store (peek (mem (se_task e))) buf_addr d \<and>
    (\<forall>n. res = Inr n \<longrightarrow> n = of_nat (length d)) \<and> (\<forall>err. res = Inl err \<longrightarrow> d = []) \<and> mem_ok (mem (se_task e')) \<and>
    se_client e' = se_client e"
proof -
  have nil: "mem_store f buf_addr [] = f" for f by (simp add: mem_store_def fun_eq_iff)
  from r show ?thesis
  proof (cases rule: sys_read_cases)
    case none
    then show ?thesis using ok by (intro exI [of _ "[]"]) (auto simp: nil)
  next
    case zeros
    then show ?thesis using store_read_data [OF ok, of "replicate (unat cnt) 0" cnt cnt buf_addr] by auto
  next
    case (data buf1 m1 n)
    note b = fs_read_bounds [OF data(1)]
    have "unat n \<le> unat cnt" "length (take (unat n) buf1) = unat n" using b(2) [OF refl] b(1) by simp_all
    then show ?thesis using data store_read_data [OF ok, of "take (unat n) buf1" n cnt buf_addr] by auto
  next
    case (error err)
    then show ?thesis using ok by (intro exI [of _ "[]"]) (auto simp: nil)
  qed
qed

definition sample_env :: "unit sysenv" where
  "sample_env = \<lparr> se_task = sample_task, se_client = fs_client_new, se_machine = sample_machine \<rparr>"

theorem sys_read_bounded_witness:
  "\<exists>e'. sys_read echo_kernel 11 0x401008 16 sample_env = Some (Inr 16, e') \<and> mem_ok (mem (se_task e'))"
proof -
  obtain e' where r: "sys_read echo_kernel 11 0x401008 16 sample_env = Some (Inr 16, e')"
    by (simp add: sys_read_def zeroed_def store_result_eq)
  moreover have "mem_ok (mem (se_task sample_env))" by (simp add: sample_env_def sample_task_ok)
  ultimately show ?thesis using sys_read_bounded [OF _ r] by blast
qed

lemma put_task_bytes_snoc:
  "put_task_bytes kern mm a (Suc n) m =
     (let (ok, byte) = read_bytes mm (a + of_nat n) [0]; m' = put_task_bytes kern mm a n m
      in if ok then seL4_DebugPutChar kern (hd byte) m' else m')"
  by (simp add: put_task_bytes_def Let_def split: prod.splits)

text \<open>
  C32. Output to the console: a \<^verbatim>\<open>write\<close> to descriptor 1 or 2 of a buffer whose pages are all in the page
  cache prints exactly the bytes of the task's memory, in order, and returns their number.
\<close>

theorem stdout_prints:
  assumes "mem_ok (mem (se_task e))" and "fd = 1 \<or> fd = 2"
    and "\<forall>i < unat cnt. bt_get (page_data (mem (se_task e))) (page_floor (buf_addr + of_nat i)) \<noteq> None"
  shows "sys_write kern fd buf_addr cnt e =
    Some (Inr cnt, e\<lparr> se_machine := seL4_DebugPutString kern (mem_slice (peek (mem (se_task e))) buf_addr (unat cnt)) (se_machine e) \<rparr>)"
proof -
  let ?mm = "mem (se_task e)"
  have "put_task_bytes kern ?mm buf_addr n m = seL4_DebugPutString kern (mem_slice (peek ?mm) buf_addr n) m"
    if "n \<le> unat cnt" for n m
    using that
  proof (induction n)
    case (Suc n)
    have "fst (read_bytes ?mm (buf_addr + of_nat n) [0])" "snd (read_bytes ?mm (buf_addr + of_nat n) [0]) = [peek ?mm (buf_addr + of_nat n)]"
      using read_byte [OF assms(1)] assms(3) Suc.prems by auto
    then show ?case using Suc
      by (simp add: put_task_bytes_snoc Let_def split_beta mem_slice_def seL4_DebugPutString_def)
  qed (simp add: put_task_bytes_def mem_slice_def seL4_DebugPutString_def)
  then show ?thesis using assms(2) by (auto simp: sys_write_def)
qed

theorem stdout_prints_witness:
  "sys_write echo_kernel 1 0x401000 2 sample_env =
    Some (Inr 2, sample_env\<lparr> se_machine := seL4_DebugPutString echo_kernel (mem_slice (peek (mem sample_task)) 0x401000 2) sample_machine \<rparr>)"
proof -
  have "\<forall>i < unat (2 :: usize). bt_get (page_data (mem sample_task)) (page_floor (0x401000 + of_nat i)) \<noteq> None"
    by (auto simp: less_2_cases_iff sample_task_def map_blank_page_simple_def task_mem_default_def page_floor_def PAGE_SIZE_def bt_get_or_insert)
  then show ?thesis using stdout_prints [of sample_env 1 2 "0x401000" echo_kernel] by (simp add: sample_env_def sample_task_ok)
qed

section \<open>Loading a program\<close>

text \<open>A reference reading of the program headers: offset, address, file size and memory size of each \<^verbatim>\<open>PT_LOAD\<close>.\<close>

definition field :: "bytes \<Rightarrow> nat \<Rightarrow> nat \<Rightarrow> usize" where
  "field dat off n = from_le (take n (drop off dat))"

fun pt_loads :: "bytes \<Rightarrow> usize \<Rightarrow> usize \<Rightarrow> nat list \<Rightarrow> (usize \<times> usize \<times> usize \<times> usize) list" where
  "pt_loads dat e_phoff e_phentsize [] = []"
| "pt_loads dat e_phoff e_phentsize (i # is) =
     (let ph = e_phoff + of_nat i * e_phentsize; o' = unat ph
      in if ph + 56 > of_nat (length dat) then []
         else if field dat o' 4 \<noteq> 1 then pt_loads dat e_phoff e_phentsize is
         else (field dat (o' + 8) 8, field dat (o' + 16) 8, field dat (o' + 32) 8, field dat (o' + 40) 8) #
           pt_loads dat e_phoff e_phentsize is)"

text \<open>The memory after laying the segments over it in order.\<close>

definition overlay :: "bytes \<Rightarrow> usize \<Rightarrow> (usize \<times> usize \<times> usize \<times> usize) list \<Rightarrow> (usize \<Rightarrow> u8) \<Rightarrow> (usize \<Rightarrow> u8)" where
  "overlay dat reloc segs f =
     fold (\<lambda>(off, v, fsz, msz) f. mem_store f (v + reloc) (take (unat fsz) (drop (unat off) dat))) segs f"

lemma get_le_field: "get_le dat off n = Some w \<Longrightarrow> w = field dat off n"
  by (auto simp: get_le_def field_def sub_slice_def split: if_splits)

lemma exec_segment_image:
  assumes "exec_segment dat reloc off v fsz msz m = Some m'" and "mem_ok m"
  shows "peek m' = mem_store (peek m) (v + reloc) (take (unat fsz) (drop (unat off) dat)) \<and> mem_ok m' \<and>
    (\<forall>k. bt_get (mapped_page m) k \<noteq> None \<longrightarrow> bt_get (mapped_page m') k \<noteq> None) \<and>
    (\<forall>x. unat (v + reloc + msz) + 4095 < 2 ^ 64 \<longrightarrow> unat (v + reloc) \<le> unat x \<longrightarrow> unat x < unat (v + reloc + msz) \<longrightarrow>
      bt_get (mapped_page m') (page_floor x) \<noteq> None)"
proof -
  let ?ps = "page_steps (page_floor (v + reloc)) (page_ceil (v + reloc + msz))"
  let ?m1 = "map_pages ?ps m" and ?seg = "take (unat fsz) (drop (unat off) dat)"
  have m': "m' = write_bytes_loop (v + reloc) ?seg ?m1"
  proof (cases "fsz > 0")
    case True
    then have a: "unat off \<le> unat (off + fsz)" "m' = write_bytes_loop (v + reloc) (take (unat (off + fsz) - unat off) (drop (unat off) dat)) ?m1"
      using assms(1) by (auto simp: exec_segment_def Let_def sub_slice_Some_iff split: bind_splits)
    then have "unat (off + fsz) - unat off = unat fsz"
      by (metis add_diff_cancel_left' unat_minus_le word_le_nat_alt)
    with a(2) show ?thesis by simp
  next
    case False
    then show ?thesis using assms(1) by (simp add: exec_segment_def Let_def word_less_nat_alt)
  qed
  have ok: "mem_ok ?m1" using assms(2) by (rule map_pages_ok)
  have len: "length ?seg < 2 ^ 64" using unat_less_64 [of fsz] by simp
  have mono: "bt_get (mapped_page m') k \<noteq> None" if "bt_get (mapped_page ?m1) k \<noteq> None" for k
    using that write_bytes_loop_mapped [of ?m1 k] by (simp add: m')
  have "bt_get (mapped_page m') (page_floor x) \<noteq> None"
    if "unat (v + reloc + msz) + 4095 < 2 ^ 64" "unat (v + reloc) \<le> unat x" "unat x < unat (v + reloc + msz)" for x
  proof (rule mono)
    have "page_floor x \<in> set ?ps"
      using in_range_pages [of "page_floor (v + reloc)" "page_ceil (v + reloc + msz)" x] that page_floor_le [of "v + reloc"]
        page_ceil_bounds(1) [OF that(1)]
      by (simp add: page_floor_idem page_ceil_aligned word_le_nat_alt)
    then have "page_floor x \<in> page_floor ` set ?ps" by (metis imageI page_floor_idem)
    then show "bt_get (mapped_page ?m1) (page_floor x) \<noteq> None" by (simp only: map_pages_mapped) blast
  qed
  moreover have "bt_get (mapped_page m') k \<noteq> None" if "bt_get (mapped_page m) k \<noteq> None" for k
    by (rule mono) (use that in \<open>simp only: map_pages_mapped, blast\<close>)
  moreover have "peek m' = mem_store (peek m) (v + reloc) ?seg"
    using task_memory.rd_wr [OF ok len] map_pages_peek [OF assms(2)] by (simp add: m')
  ultimately show ?thesis using task_memory.wr_ok [OF ok] by (simp add: m')
qed

lemma exec_segments_image:
  "exec_segments_loop dat reloc e_phoff e_phentsize is m = Some m' \<Longrightarrow> mem_ok m \<Longrightarrow>
   peek m' = overlay dat reloc (pt_loads dat e_phoff e_phentsize is) (peek m) \<and> mem_ok m' \<and>
   (\<forall>k. bt_get (mapped_page m) k \<noteq> None \<longrightarrow> bt_get (mapped_page m') k \<noteq> None) \<and>
   (\<forall>(off, v, fsz, msz) \<in> set (pt_loads dat e_phoff e_phentsize is). \<forall>x.
      unat (v + reloc + msz) + 4095 < 2 ^ 64 \<longrightarrow> unat (v + reloc) \<le> unat x \<longrightarrow> unat x < unat (v + reloc + msz) \<longrightarrow>
      bt_get (mapped_page m') (page_floor x) \<noteq> None)"
proof (induction "is" arbitrary: m)
  case (Cons i "is")
  define ph where "ph = e_phoff + of_nat i * e_phentsize"
  consider (stop) "ph + 56 > of_nat (length dat)" | (other) "\<not> ph + 56 > of_nat (length dat)" "field dat (unat ph) 4 \<noteq> 1"
    | (load) "\<not> ph + 56 > of_nat (length dat)" "field dat (unat ph) 4 = 1" by blast
  then show ?case
  proof cases
    case stop
    then show ?thesis using Cons.prems by (simp add: ph_def Let_def overlay_def)
  next
    case other
    then have "exec_segments_loop dat reloc e_phoff e_phentsize is m = Some m'"
      using Cons.prems(1) by (auto simp: ph_def Let_def dest: get_le_field split: bind_splits if_splits)
    with Cons.IH [OF this Cons.prems(2)] other show ?thesis by (simp add: ph_def Let_def)
  next
    case load
    let ?seg = "(field dat (unat ph + 8) 8, field dat (unat ph + 16) 8, field dat (unat ph + 32) 8, field dat (unat ph + 40) 8)"
    from load Cons.prems(1) obtain m1 where m1: "exec_segment dat reloc (field dat (unat ph + 8) 8) (field dat (unat ph + 16) 8)
        (field dat (unat ph + 32) 8) (field dat (unat ph + 40) 8) m = Some m1"
      "exec_segments_loop dat reloc e_phoff e_phentsize is m1 = Some m'"
      by (auto simp: ph_def Let_def dest!: get_le_field split: bind_splits if_splits)
    note seg = exec_segment_image [OF m1(1) Cons.prems(2)]
    note rest = Cons.IH [OF m1(2)]
    have "pt_loads dat e_phoff e_phentsize (i # is) = ?seg # pt_loads dat e_phoff e_phentsize is"
      using load by (simp add: ph_def Let_def)
    then show ?thesis using seg rest by (auto simp: overlay_def)
  qed
qed (simp add: overlay_def)

text \<open>The segments that the headers of an ELF image announce, in the order of its header table.\<close>

definition elf_segments :: "bytes \<Rightarrow> (usize \<times> usize \<times> usize \<times> usize) list" where
  "elf_segments dat = pt_loads dat (field dat 32 8) (field dat 54 2) [0..<unat (field dat 56 2)]"

text \<open>
  C12. Loading a program for \<^verbatim>\<open>execve\<close>: the memory of the task is the old memory overlaid, in header order, with the
  file bytes of every \<^verbatim>\<open>PT_LOAD\<close> segment at its relocated address; every page a segment occupies in memory is mapped
  and no page is lost; the entry point is the relocated \<^verbatim>\<open>e_entry\<close>.
\<close>

theorem load_elf_segments_image:
  assumes "load_elf_segments dat reloc t = Some (entry, t')" and "mem_ok (mem t)"
  shows "entry = field dat 24 8 + reloc \<and> mem_ok (mem t') \<and>
    peek (mem t') = overlay dat reloc (elf_segments dat) (peek (mem t)) \<and>
    (\<forall>k. bt_get (mapped_page (mem t)) k \<noteq> None \<longrightarrow> bt_get (mapped_page (mem t')) k \<noteq> None) \<and>
    (\<forall>(off, v, fsz, msz) \<in> set (elf_segments dat). \<forall>x.
      unat (v + reloc + msz) + 4095 < 2 ^ 64 \<longrightarrow> unat (v + reloc) \<le> unat x \<longrightarrow> unat x < unat (v + reloc + msz) \<longrightarrow>
      bt_get (mapped_page (mem t')) (page_floor x) \<noteq> None)"
proof -
  from assms(1) obtain m where m: "exec_segments_loop dat reloc (field dat 32 8) (field dat 54 2) [0..<unat (field dat 56 2)] (mem t) = Some m"
    and r: "entry = field dat 24 8 + reloc" "t' = t\<lparr> mem := m \<rparr>"
    by (auto simp: load_elf_segments_def dest!: get_le_field split: bind_splits)
  show ?thesis using exec_segments_image [OF m assms(2)] unfolding elf_segments_def r by simp
qed

text \<open>An image with one segment: three bytes at \<open>0x400000\<close>.\<close>

definition tiny_elf :: bytes where
  "tiny_elf = [0x7F, 0x45, 0x4C, 0x46, 2, 1] @ replicate 18 0 @ [0x10, 0, 0x40, 0, 0, 0, 0, 0] @ [64, 0, 0, 0, 0, 0, 0, 0] @
     replicate 14 0 @ [56, 0, 1, 0] @ replicate 6 0 @
     [1, 0, 0, 0, 5, 0, 0, 0] @ [120, 0, 0, 0, 0, 0, 0, 0] @ [0, 0, 0x40, 0, 0, 0, 0, 0] @ replicate 8 0 @
     [3, 0, 0, 0, 0, 0, 0, 0] @ [16, 0, 0, 0, 0, 0, 0, 0] @ replicate 8 0 @ [0xB8, 1, 2]"

theorem load_elf_segments_image_witness:
  "\<exists>t'. load_elf_segments tiny_elf 0 sample_task = Some (0x400010, t') \<and>
     peek (mem t') = overlay tiny_elf 0 [(120, 0x400000, 3, 16)] (peek (mem sample_task))"
proof -
  have flds: "field tiny_elf 24 8 = 0x400010" "elf_segments tiny_elf = [(120, 0x400000, 3, 16)]"
    by code_simp+
  have hdr: "get_le tiny_elf 32 8 = Some 64" "get_le tiny_elf 54 2 = Some 56" "get_le tiny_elf 56 2 = Some 1"
    "get_le tiny_elf 24 8 = Some 0x400010" by code_simp+
  have ph: "get_le tiny_elf 64 4 = Some 1" "get_le tiny_elf 72 8 = Some 120" "get_le tiny_elf 80 8 = Some 0x400000"
    "get_le tiny_elf 96 8 = Some 3" "get_le tiny_elf 104 8 = Some 16" "length tiny_elf = 123" by code_simp+
  obtain t' where "load_elf_segments tiny_elf 0 sample_task = Some (0x400010, t')"
    by (simp add: load_elf_segments_def hdr ph exec_segment_def sub_slice_def Let_def)
  with load_elf_segments_image [OF this sample_task_ok(1)] show ?thesis by (auto simp: flds)
qed

end
