(* ===== verification/Console.thy ===== *)
theory Console
  imports Sel4_Syscalls
begin

text \<open>
  The hexadecimal printer that the exception handlers, the task runner, the loader and the root task each
  have a copy of (\<^verbatim>\<open>print_hex\<close>): sixteen digits, most significant first.
\<close>

definition hex_char :: "usize \<Rightarrow> u8" where
  "hex_char nibble = (if nibble < 10 then 48 + ucast nibble else 97 + ucast (nibble - 10))"

definition print_hex :: "'k kernel \<Rightarrow> usize \<Rightarrow> 'k machine \<Rightarrow> 'k machine" where
  "print_hex kern val m =
     fold (\<lambda>i. seL4_DebugPutChar kern (hex_char (drop_bit (i * 4) val AND 0xF))) (rev [0..<16]) m"

definition print_hex_line :: "'k kernel \<Rightarrow> bytes \<Rightarrow> usize \<Rightarrow> 'k machine \<Rightarrow> 'k machine" where
  "print_hex_line kern s val m = seL4_DebugPutChar kern 10 (print_hex kern val (seL4_DebugPutString kern s m))"

text \<open>The reading of a digit string, the inverse of the printer.\<close>

definition hex_digit_val :: "u8 \<Rightarrow> nat" where
  "hex_digit_val c = (if c < 58 then unat c - 48 else unat c - 87)"

definition hex_val :: "bytes \<Rightarrow> nat" where
  "hex_val s = foldl (\<lambda>acc c. 16 * acc + hex_digit_val c) 0 s"

definition hex_string :: "usize \<Rightarrow> bytes" where
  "hex_string val = map (\<lambda>i. hex_char (drop_bit (i * 4) val AND 0xF)) (rev [0..<16])"

lemma print_hex_string: "print_hex kern val m = seL4_DebugPutString kern (hex_string val) m"
  by (simp add: print_hex_def hex_string_def seL4_DebugPutString_def fold_map comp_def)

lemma hex_nibble: "hex_digit_val (hex_char (drop_bit (i * 4) val AND 0xF)) = unat val div 16 ^ i mod 16"
proof -
  have "drop_bit (i * 4) val AND 0xF = take_bit 4 (drop_bit (i * 4) val)" by (simp add: take_bit_eq_mask mask_eq_exp_minus_1)
  then have m: "unat (drop_bit (i * 4) val AND 0xF) = unat val div 16 ^ i mod 16"
    by (simp only: unsigned_take_bit_eq unat_drop_bit_eq) (simp add: take_bit_eq_mod drop_bit_eq_div power_mult mult.commute [of i])
  have "hex_digit_val (hex_char w) = unat w" if "unat w < 16" for w :: usize
  proof -
    have "w \<in> of_nat ` {..<16}" using that by (metis image_eqI lessThan_iff word_nat_cases unat_of_nat_small unat_less_64 word_unat_eq_iff)
    then have "w \<in> set (map of_nat [0..<16])" by (simp only: set_map atLeast_upt)
    then show ?thesis by (auto simp: hex_digit_val_def hex_char_def upt_rec)
  qed
  then show ?thesis by (simp add: m)
qed

lemma foldl_hex_digits: "foldl (\<lambda>acc i. 16 * acc + v div 16 ^ i mod 16) acc (rev [0..<n]) = 16 ^ n * acc + v mod 16 ^ n" for v :: nat
proof (induction n arbitrary: acc)
  case (Suc n)
  have "v mod 16 ^ Suc n = 16 ^ n * (v div 16 ^ n mod 16) + v mod 16 ^ n" by (simp only: power_Suc2 mod_mult2_eq)
  then have "foldl (\<lambda>acc i. 16 * acc + v div 16 ^ i mod 16) acc (rev [0..<Suc n]) =
    16 ^ n * (16 * acc + v div 16 ^ n mod 16) + v mod 16 ^ n" by (simp add: Suc.IH)
  then show ?case using \<open>v mod 16 ^ Suc n = _\<close> by (simp add: algebra_simps)
qed simp

lemma hex_val_hex_string: "hex_val (hex_string val) = unat val"
proof -
  have "hex_val (hex_string val) = foldl (\<lambda>acc i. 16 * acc + unat val div 16 ^ i mod 16) 0 (rev [0..<16])"
    by (simp add: hex_val_def hex_string_def foldl_map hex_nibble del: upt_Suc)
  also have "\<dots> = unat val mod 16 ^ 16" by (simp only: foldl_hex_digits)
  finally show ?thesis using unat_less_64 [of val] by simp
qed

end
