(* ===== verification/Sysno.thy ===== *)
theory Sysno
  imports Prelude
begin

text \<open>
  The system call numbers the layer knows (\<^verbatim>\<open>Sysno\<close> in \<^verbatim>\<open>lcl/src/syscall/mod.rs\<close>) and their decoding.
\<close>

datatype (plugins only: code) sysno =
    Sysno_Read | Sysno_Write | Sysno_Open | Sysno_Close | Sysno_Stat | Sysno_Fstat | Sysno_Lseek | Sysno_Mmap |
    Sysno_Mprotect | Sysno_Munmap | Sysno_Brk | Sysno_Ioctl | Sysno_Access | Sysno_Pipe | Sysno_Dup | Sysno_Dup2 |
    Sysno_Nanosleep | Sysno_Getpid | Sysno_Fork | Sysno_Execve | Sysno_Exit | Sysno_Wait4 | Sysno_Kill | Sysno_Fcntl |
    Sysno_Mkdir | Sysno_Rmdir | Sysno_Creat | Sysno_Unlink | Sysno_Getcwd | Sysno_Chdir | Sysno_Rename |
    Sysno_Getdents64 | Sysno_Getuid | Sysno_Getgid | Sysno_Geteuid | Sysno_Getegid | Sysno_Futex | Sysno_ClockGettime |
    Sysno_ExitGroup | Sysno_Openat | Sysno_Mkdirat | Sysno_Unlinkat | Sysno_Renameat | Sysno_Faccessat |
    Sysno_Pselect6 | Sysno_Ppoll | Sysno_Readv | Sysno_Writev | Sysno_Pread64 | Sysno_Pwrite64 |
    Sysno_Set_tid_address | Sysno_Ftruncate | Sysno_Sigprocmask | Sysno_RtSigaction | Sysno_RtSigreturn |
    Sysno_SchedYield | Sysno_Uname | Sysno_Shmget | Sysno_Shmat | Sysno_Shmctl | Sysno_Gettimeofday | Sysno_Prlimit64 |
    Sysno_Sendfile | Sysno_Fstatat | Sysno_Utimensat | Sysno_Mount | Sysno_Umount2 | Sysno_Statfs

text \<open>\<^verbatim>\<open>Sysno as usize\<close>\<close>

primrec sysno_num :: "sysno \<Rightarrow> usize" where
  "sysno_num Sysno_Read = 0"
| "sysno_num Sysno_Write = 1"
| "sysno_num Sysno_Open = 2"
| "sysno_num Sysno_Close = 3"
| "sysno_num Sysno_Stat = 4"
| "sysno_num Sysno_Fstat = 5"
| "sysno_num Sysno_Lseek = 8"
| "sysno_num Sysno_Mmap = 9"
| "sysno_num Sysno_Mprotect = 10"
| "sysno_num Sysno_Munmap = 11"
| "sysno_num Sysno_Brk = 12"
| "sysno_num Sysno_Ioctl = 16"
| "sysno_num Sysno_Access = 21"
| "sysno_num Sysno_Pipe = 22"
| "sysno_num Sysno_Dup = 32"
| "sysno_num Sysno_Dup2 = 33"
| "sysno_num Sysno_Nanosleep = 35"
| "sysno_num Sysno_Getpid = 39"
| "sysno_num Sysno_Fork = 57"
| "sysno_num Sysno_Execve = 59"
| "sysno_num Sysno_Exit = 60"
| "sysno_num Sysno_Wait4 = 61"
| "sysno_num Sysno_Kill = 62"
| "sysno_num Sysno_Fcntl = 72"
| "sysno_num Sysno_Mkdir = 83"
| "sysno_num Sysno_Rmdir = 84"
| "sysno_num Sysno_Creat = 85"
| "sysno_num Sysno_Unlink = 87"
| "sysno_num Sysno_Getcwd = 79"
| "sysno_num Sysno_Chdir = 80"
| "sysno_num Sysno_Rename = 82"
| "sysno_num Sysno_Getdents64 = 217"
| "sysno_num Sysno_Getuid = 102"
| "sysno_num Sysno_Getgid = 104"
| "sysno_num Sysno_Geteuid = 107"
| "sysno_num Sysno_Getegid = 108"
| "sysno_num Sysno_Futex = 202"
| "sysno_num Sysno_ClockGettime = 228"
| "sysno_num Sysno_ExitGroup = 231"
| "sysno_num Sysno_Openat = 257"
| "sysno_num Sysno_Mkdirat = 258"
| "sysno_num Sysno_Unlinkat = 263"
| "sysno_num Sysno_Renameat = 264"
| "sysno_num Sysno_Faccessat = 269"
| "sysno_num Sysno_Pselect6 = 270"
| "sysno_num Sysno_Ppoll = 271"
| "sysno_num Sysno_Readv = 19"
| "sysno_num Sysno_Writev = 20"
| "sysno_num Sysno_Pread64 = 17"
| "sysno_num Sysno_Pwrite64 = 18"
| "sysno_num Sysno_Set_tid_address = 218"
| "sysno_num Sysno_Ftruncate = 77"
| "sysno_num Sysno_Sigprocmask = 14"
| "sysno_num Sysno_RtSigaction = 13"
| "sysno_num Sysno_RtSigreturn = 15"
| "sysno_num Sysno_SchedYield = 24"
| "sysno_num Sysno_Uname = 63"
| "sysno_num Sysno_Shmget = 29"
| "sysno_num Sysno_Shmat = 30"
| "sysno_num Sysno_Shmctl = 31"
| "sysno_num Sysno_Gettimeofday = 96"
| "sysno_num Sysno_Prlimit64 = 302"
| "sysno_num Sysno_Sendfile = 40"
| "sysno_num Sysno_Fstatat = 262"
| "sysno_num Sysno_Utimensat = 280"
| "sysno_num Sysno_Mount = 165"
| "sysno_num Sysno_Umount2 = 166"
| "sysno_num Sysno_Statfs = 137"

text \<open>The arms of \<^verbatim>\<open>Sysno::try_from\<close>, in source order.\<close>

definition sysno_table :: "(usize \<times> sysno) list" where
  "sysno_table = [
     (0, Sysno_Read), (1, Sysno_Write), (2, Sysno_Open), (3, Sysno_Close), (4, Sysno_Stat), (5, Sysno_Fstat),
     (8, Sysno_Lseek), (9, Sysno_Mmap), (10, Sysno_Mprotect), (11, Sysno_Munmap), (12, Sysno_Brk),
     (13, Sysno_RtSigaction), (14, Sysno_Sigprocmask), (15, Sysno_RtSigreturn), (16, Sysno_Ioctl), (17, Sysno_Pread64),
     (18, Sysno_Pwrite64), (19, Sysno_Readv), (20, Sysno_Writev), (21, Sysno_Access), (22, Sysno_Pipe),
     (24, Sysno_SchedYield), (32, Sysno_Dup), (33, Sysno_Dup2), (35, Sysno_Nanosleep), (39, Sysno_Getpid),
     (40, Sysno_Sendfile), (57, Sysno_Fork), (59, Sysno_Execve), (60, Sysno_Exit), (61, Sysno_Wait4), (62, Sysno_Kill),
     (63, Sysno_Uname), (72, Sysno_Fcntl), (77, Sysno_Ftruncate), (79, Sysno_Getcwd), (80, Sysno_Chdir),
     (82, Sysno_Rename), (83, Sysno_Mkdir), (84, Sysno_Rmdir), (85, Sysno_Creat), (87, Sysno_Unlink),
     (96, Sysno_Gettimeofday), (98, Sysno_Getuid), (102, Sysno_Getuid), (104, Sysno_Getgid), (107, Sysno_Geteuid),
     (108, Sysno_Getegid), (137, Sysno_Statfs), (165, Sysno_Mount), (166, Sysno_Umount2), (202, Sysno_Futex),
     (217, Sysno_Getdents64), (218, Sysno_Set_tid_address), (228, Sysno_ClockGettime), (231, Sysno_ExitGroup),
     (257, Sysno_Openat), (258, Sysno_Mkdirat), (262, Sysno_Fstatat), (263, Sysno_Unlinkat), (264, Sysno_Renameat),
     (269, Sysno_Faccessat), (270, Sysno_Pselect6), (271, Sysno_Ppoll), (280, Sysno_Utimensat), (29, Sysno_Shmget),
     (30, Sysno_Shmat), (31, Sysno_Shmctl), (302, Sysno_Prlimit64)]"

definition sysno_try_from :: "usize \<Rightarrow> sysno option" where
  "sysno_try_from v = map_of sysno_table v"

lemma sysno_try_from_num: "sysno_try_from (sysno_num n) = Some n"
  by (cases n) (simp_all add: sysno_try_from_def sysno_table_def)

lemma sysno_table_nums: "list_all (\<lambda>(v, n). sysno_num n = v \<or> v = 98) sysno_table"
  by (simp add: sysno_table_def)

lemma sysno_num_try_from:
  assumes "sysno_try_from v = Some n"
  shows "v = sysno_num n \<or> v = 98 \<and> n = Sysno_Getuid"
proof -
  have "(v, n) \<in> set sysno_table" using assms by (simp add: sysno_try_from_def map_of_SomeD)
  then have "v = sysno_num n \<or> v = 98" using sysno_table_nums by (auto simp: list_all_iff)
  then show ?thesis using assms by (auto simp: sysno_try_from_def sysno_table_def)
qed

end
