(* ===== verification/Syscalls.thy ===== *)
theory Syscalls
  imports Syscall_Fs Console Sysno
begin

text \<open>
  The system call dispatcher of the layer (\<^verbatim>\<open>lcl/src/syscall/mod.rs\<close>), the fault handlers that drive it
  (\<^verbatim>\<open>lcl/src/exception.rs\<close>) and the register file they exchange with tasks (\<^verbatim>\<open>lcl/src/arch/x86_64/context.rs\<close>).

  A handler works on the layer's globals, the record \<open>lcl\<close>. The task it serves is an entry of \<open>TASK_MAP\<close>, named by
  its key: the source holds a shared pointer to the same object. \<open>None\<close> is a panic.
\<close>

section \<open>Dispatch\<close>

text \<open>A call that works on the task alone, on the task and the machine, and on the task, the file client and the machine.\<close>

definition on_task :: "usize \<Rightarrow> (sel4_task \<Rightarrow> sysresult \<times> sel4_task) \<Rightarrow> 'k lcl \<Rightarrow> (sysresult \<times> 'k lcl) option" where
  "on_task k f s =
     (case bt_get (TASK_MAP s) k of
        None \<Rightarrow> None
      | Some t \<Rightarrow> (let (r, t') = f t in Some (r, s\<lparr> TASK_MAP := bt_insert k t' (TASK_MAP s) \<rparr>)))"

definition on_task_machine ::
  "usize \<Rightarrow> (sel4_task \<Rightarrow> 'k machine \<Rightarrow> (sysresult \<times> sel4_task \<times> 'k machine) option) \<Rightarrow> 'k lcl \<Rightarrow> (sysresult \<times> 'k lcl) option" where
  "on_task_machine k f s =
     do {
       t \<leftarrow> bt_get (TASK_MAP s) k;
       (r, t', m') \<leftarrow> f t (machine s);
       Some (r, s\<lparr> TASK_MAP := bt_insert k t' (TASK_MAP s), machine := m' \<rparr>)
     }"

definition in_sysenv ::
  "usize \<Rightarrow> ('k sysenv \<Rightarrow> (sysresult \<times> 'k sysenv) option) \<Rightarrow> 'k lcl \<Rightarrow> (sysresult \<times> 'k lcl) option" where
  "in_sysenv k f s =
     do {
       t \<leftarrow> bt_get (TASK_MAP s) k;
       (r, e) \<leftarrow> f \<lparr> se_task = t, se_client = FS_CLIENT s, se_machine = machine s \<rparr>;
       Some (r, s\<lparr> TASK_MAP := bt_insert k (se_task e) (TASK_MAP s), FS_CLIENT := se_client e, machine := se_machine e \<rparr>)
     }"

definition log :: "'k kernel \<Rightarrow> bytes \<Rightarrow> 'k lcl \<Rightarrow> 'k lcl" where
  "log kern line s = s\<lparr> machine := seL4_DebugPutString kern line (machine s) \<rparr>"

text \<open>The arms of \<^verbatim>\<open>match sysno\<close>; \<open>raw\<close> is the parameter of \<open>sys_rt_sigaction\<close>.\<close>

definition run_sysno ::
  "'k kernel \<Rightarrow> (signal_action list \<Rightarrow> nat \<Rightarrow> bytes) \<Rightarrow> usize \<Rightarrow> sysno \<Rightarrow> usize \<Rightarrow> usize \<Rightarrow> usize \<Rightarrow> usize \<Rightarrow> 'k lcl \<Rightarrow>
   (sysresult \<times> 'k lcl) option" where
  "run_sysno kern raw k n a0 a1 a2 a3 s =
     (case n of
        Sysno_Exit \<Rightarrow> on_task_machine k (sys_exit kern (ucast a0)) s
      | Sysno_ExitGroup \<Rightarrow> on_task_machine k (sys_exit_group kern (ucast a0)) s
      | Sysno_Getpid \<Rightarrow> on_task k sys_getpid s
      | Sysno_Execve \<Rightarrow> in_sysenv k (sys_execve kern a0 a1 a2) s
      | Sysno_Getuid \<Rightarrow> Some (Inr 0, s)
      | Sysno_Getgid \<Rightarrow> Some (Inr 0, s)
      | Sysno_Geteuid \<Rightarrow> Some (Inr 0, s)
      | Sysno_Getegid \<Rightarrow> Some (Inr 0, s)
      | Sysno_SchedYield \<Rightarrow> Some (Inr 0, s\<lparr> machine := seL4_Yield kern (machine s) \<rparr>)
      | Sysno_Set_tid_address \<Rightarrow> on_task k (sys_set_tid_address a0) s
      | Sysno_Uname \<Rightarrow> on_task k (sys_uname a0) s
      | Sysno_Brk \<Rightarrow> on_task k (sys_brk a0) s
      | Sysno_Mmap \<Rightarrow> on_task k (sys_mmap a0 a1 a2) s
      | Sysno_Munmap \<Rightarrow> on_task k (sys_munmap a0 a1) s
      | Sysno_Read \<Rightarrow> in_sysenv k (sys_read kern a0 a1 a2) s
      | Sysno_Write \<Rightarrow> in_sysenv k (sys_write kern a0 a1 a2) s
      | Sysno_Openat \<Rightarrow> in_sysenv k (sys_openat kern (ucast a0) a1 (ucast a2) (ucast a3)) s
      | Sysno_Close \<Rightarrow> in_sysenv k (sys_close kern a0) s
      | Sysno_Fstat \<Rightarrow> in_sysenv k (sys_fstat kern a0 a1) s
      | Sysno_Fstatat \<Rightarrow> in_sysenv k (sys_fstatat kern (ucast a0) a1 a2 (ucast a3)) s
      | Sysno_Lseek \<Rightarrow> in_sysenv k (sys_lseek kern a0 a1 (ucast a2)) s
      | Sysno_Ioctl \<Rightarrow> Some (sys_ioctl, s)
      | Sysno_Fcntl \<Rightarrow> Some (sys_fcntl, s)
      | Sysno_Readv \<Rightarrow> Some (sys_readv, s)
      | Sysno_Writev \<Rightarrow> Some (sys_writev, s)
      | Sysno_Pread64 \<Rightarrow> Some (sys_pread64, s)
      | Sysno_Pwrite64 \<Rightarrow> Some (sys_pwrite64, s)
      | Sysno_Mkdirat \<Rightarrow> in_sysenv k (sys_mkdirat kern (ucast a0) a1 (ucast a2)) s
      | Sysno_Unlinkat \<Rightarrow> in_sysenv k (sys_unlinkat kern (ucast a0) a1 (ucast a2)) s
      | Sysno_Renameat \<Rightarrow> Some (sys_renameat, s)
      | Sysno_Ftruncate \<Rightarrow> Some (sys_ftruncate, s)
      | Sysno_Getdents64 \<Rightarrow> in_sysenv k (sys_getdents64 kern a0 a1 a2) s
      | Sysno_Pipe \<Rightarrow> Some (sys_pipe2, s)
      | Sysno_Dup \<Rightarrow> Some (sys_dup, s)
      | Sysno_Dup2 \<Rightarrow> Some (sys_dup3, s)
      | Sysno_Sendfile \<Rightarrow> Some (sys_sendfile, s)
      | Sysno_Faccessat \<Rightarrow> in_sysenv k (sys_faccessat kern (ucast a0) a1 (ucast a2) (ucast a3)) s
      | Sysno_Utimensat \<Rightarrow> Some (sys_utimensat, s)
      | Sysno_Statfs \<Rightarrow> Some (sys_statfs, s)
      | Sysno_Mount \<Rightarrow> Some (sys_mount, s)
      | Sysno_Umount2 \<Rightarrow> Some (sys_umount2, s)
      | Sysno_ClockGettime \<Rightarrow> on_task k (sys_clock_gettime a0 a1) s
      | Sysno_Gettimeofday \<Rightarrow> on_task k (sys_gettimeofday a0) s
      | Sysno_RtSigaction \<Rightarrow> on_task_machine k
          (\<lambda>t m. do { (r, t') \<leftarrow> sys_rt_sigaction raw a0 a1 a2 a3 t; Some (r, t', m) }) s
      | Sysno_Sigprocmask \<Rightarrow> on_task k (sys_sigprocmask (ucast a0) a1 a2) s
      | Sysno_RtSigreturn \<Rightarrow> on_task k sys_rt_sigreturn s
      | Sysno_Kill \<Rightarrow> Some (sys_kill a0 a1 s)
      | Sysno_Mprotect \<Rightarrow> Some (Inr 0, s)
      | Sysno_Nanosleep \<Rightarrow> Some (Inr 0, s)
      | _ \<Rightarrow> Some (Inl 38, log kern (str ''[lcl] Unimplemented syscall\<newline>'') s))"

definition handle_syscall ::
  "'k kernel \<Rightarrow> (signal_action list \<Rightarrow> nat \<Rightarrow> bytes) \<Rightarrow> usize \<Rightarrow> usize list \<Rightarrow> 'k lcl \<Rightarrow> (sysresult \<times> 'k lcl) option" where
  "handle_syscall kern raw k regs s =
     (let a0 = regs ! 5; a1 = regs ! 4; a2 = regs ! 3; a3 = regs ! 10
      in case sysno_try_from (regs ! 0) of
           None \<Rightarrow> Some (Inl 38, log kern (str ''\<newline>'') (log kern (str ''[lcl] Unknown syscall: '') s))
         | Some n \<Rightarrow> run_sysno kern raw k n a0 a1 a2 a3 s)"

section \<open>Fault handlers\<close>

definition TRAP_INST :: u32 where "TRAP_INST = 0xdeadbeef"
definition REG_RAX :: nat where "REG_RAX = 0"
definition REG_RIP :: nat where "REG_RIP = 15"

text \<open>\<^verbatim>\<open>match result { Ok(v) => v, Err(e) => -(e as isize) as usize }\<close>\<close>

definition return_value :: "sysresult \<Rightarrow> usize" where
  "return_value r = (case r of Inr v \<Rightarrow> v | Inl e \<Rightarrow> - scast e)"

text \<open>The twenty registers of a fault message.\<close>

definition fault_regs :: "ipc_buffer \<Rightarrow> usize list" where
  "fault_regs ib = map (\<lambda>i. read_mr ib (of_nat i)) [0..<20]"

text \<open>\<^verbatim>\<open>let _ = seL4_TCB_WriteRegisters(task.tcb, true, 0, 20, &regs)\<close>\<close>

definition resume_with :: "'k kernel \<Rightarrow> sel4_task \<Rightarrow> usize list \<Rightarrow> 'k lcl \<Rightarrow> 'k lcl option" where
  "resume_with kern t regs s =
     do { (_, m) \<leftarrow> seL4_TCB_WriteRegisters kern (tcb t) True 0 20 regs (machine s); Some (s\<lparr> machine := m \<rparr>) }"

definition handle_user_exception ::
  "'k kernel \<Rightarrow> (signal_action list \<Rightarrow> nat \<Rightarrow> bytes) \<Rightarrow> usize \<Rightarrow> usize \<Rightarrow> 'k lcl \<Rightarrow> 'k lcl option" where
  "handle_user_exception kern raw k fault_ip s =
     (case bt_get (TASK_MAP s) k of
        None \<Rightarrow> Some (log kern (str ''[lcl] Unknown task exception\<newline>'') s)
      | Some t \<Rightarrow>
          if read_bytes_u32 (mem t) fault_ip = Some TRAP_INST then do {
            (regs, m1) \<leftarrow> with_ipc_buffer (\<lambda>ib. (fault_regs ib, ib)) (machine s);
            (result, s1) \<leftarrow> handle_syscall kern raw k regs (s\<lparr> machine := m1 \<rparr>);
            t1 \<leftarrow> bt_get (TASK_MAP s1) k;
            let regs1 = regs[REG_RAX := return_value result];
            let regs2 = regs1[REG_RIP := regs1 ! REG_RIP + 4];
            if exit_code t1 \<noteq> None then Some s1
            else resume_with kern t1 regs2 s1
          }
          else Some (s\<lparr> machine := print_hex_line kern (str ''[lcl] Unhandled user exception at '') fault_ip (machine s) \<rparr>))"

definition handle_vmfault :: "'k kernel \<Rightarrow> usize \<Rightarrow> usize \<Rightarrow> 'k lcl \<Rightarrow> 'k lcl option" where
  "handle_vmfault kern k addr s =
     (let vaddr = page_floor addr
      in case bt_get (TASK_MAP s) k of
           None \<Rightarrow> Some s
         | Some t \<Rightarrow>
             let t1 = on_mem (\<lambda>m. snd (map_blank_page_simple vaddr m)) t;
                 s1 = s\<lparr> TASK_MAP := bt_insert k t1 (TASK_MAP s),
                         machine := print_hex_line kern (str ''[lcl] VM fault: mapped page at '') vaddr (machine s) \<rparr>
             in resume_with kern t1 (replicate 20 0) s1)"

definition handle_unknown_syscall ::
  "'k kernel \<Rightarrow> (signal_action list \<Rightarrow> nat \<Rightarrow> bytes) \<Rightarrow> usize \<Rightarrow> usize \<Rightarrow> 'k lcl \<Rightarrow> 'k lcl option" where
  "handle_unknown_syscall kern raw k syscall_no s =
     (case bt_get (TASK_MAP s) k of
        None \<Rightarrow> Some s
      | Some t \<Rightarrow> do {
          let regs = (replicate 20 0)[0 := syscall_no];
          (result, s1) \<leftarrow> handle_syscall kern raw k regs s;
          resume_with kern t (regs[REG_RAX := return_value result]) s1
        })"

definition handle_fault ::
  "'k kernel \<Rightarrow> (signal_action list \<Rightarrow> nat \<Rightarrow> bytes) \<Rightarrow> usize \<Rightarrow> message_info \<Rightarrow> 'k lcl \<Rightarrow> 'k lcl option" where
  "handle_fault kern raw k message s =
     (let label = mi_label message
      in if label = 1 then do {
           (addr, m1) \<leftarrow> with_ipc_buffer (\<lambda>ib. (read_mr ib 0, ib)) (machine s);
           handle_vmfault kern k addr (s\<lparr> machine := m1 \<rparr>)
         }
         else if label = 2 then do {
           (ip, m1) \<leftarrow> with_ipc_buffer (\<lambda>ib. (read_mr ib 0, ib)) (machine s);
           handle_user_exception kern raw k ip (s\<lparr> machine := m1 \<rparr>)
         }
         else if label = 3 then do {
           (no, m1) \<leftarrow> with_ipc_buffer (\<lambda>ib. (read_mr ib 0, ib)) (machine s);
           handle_unknown_syscall kern raw k no (s\<lparr> machine := m1 \<rparr>)
         }
         else Some (log kern (str ''[lcl] Unknown fault type\<newline>'') s))"

lemma fault_regs_nth: "i < 20 \<Longrightarrow> fault_regs ib ! i = read_mr ib (of_nat i)"
  by (simp add: fault_regs_def del: upt_Suc)

section \<open>The register file\<close>

datatype register = Rax | Rbx | Rcx | Rdx | Rsi | Rdi | Rbp | Rsp | R8 | R9 | R10 | R11 | R12 | R13 | R14 | Rip | Rflags

primrec reg_index :: "register \<Rightarrow> nat" where
  "reg_index Rax = 0" | "reg_index Rbx = 1" | "reg_index Rcx = 2" | "reg_index Rdx = 3" | "reg_index Rsi = 4"
| "reg_index Rdi = 5" | "reg_index Rbp = 6" | "reg_index Rsp = 7" | "reg_index R8 = 8" | "reg_index R9 = 9"
| "reg_index R10 = 10" | "reg_index R11 = 11" | "reg_index R12 = 12" | "reg_index R13 = 13" | "reg_index R14 = 14"
| "reg_index Rip = 15" | "reg_index Rflags = 16"

record arch_context =
  ctx_regs :: "usize list"

definition ctx_new :: arch_context where
  "ctx_new = \<lparr> ctx_regs = replicate 20 0 \<rparr>"

definition ctx_get :: "arch_context \<Rightarrow> register \<Rightarrow> usize" where
  "ctx_get c r = ctx_regs c ! reg_index r"

definition ctx_set :: "register \<Rightarrow> usize \<Rightarrow> arch_context \<Rightarrow> arch_context" where
  "ctx_set r v c = c\<lparr> ctx_regs := (ctx_regs c)[reg_index r := v] \<rparr>"

definition ctx_pc :: "arch_context \<Rightarrow> usize" where "ctx_pc c = ctx_get c Rip"
definition ctx_sp :: "arch_context \<Rightarrow> usize" where "ctx_sp c = ctx_get c Rsp"
definition syscall_no :: "arch_context \<Rightarrow> usize" where "syscall_no c = ctx_get c Rax"

definition ctx_new_task :: "usize \<Rightarrow> usize \<Rightarrow> arch_context" where
  "ctx_new_task entry sp = ctx_set Rflags 0x200 (ctx_set Rsp sp (ctx_set Rip entry ctx_new))"

definition syscall_arg :: "arch_context \<Rightarrow> nat \<Rightarrow> usize" where
  "syscall_arg c n =
     (if n = 0 then ctx_get c Rdi else if n = 1 then ctx_get c Rsi else if n = 2 then ctx_get c Rdx
      else if n = 3 then ctx_get c R10 else if n = 4 then ctx_get c R8 else if n = 5 then ctx_get c R9 else 0)"

definition set_return_value :: "usize \<Rightarrow> arch_context \<Rightarrow> arch_context" where
  "set_return_value v c = ctx_set Rax v c"

definition advance_pc :: "arch_context \<Rightarrow> arch_context" where
  "advance_pc c = ctx_set Rip (ctx_get c Rip + 4) c"

section \<open>What every system call keeps\<close>

text \<open>
  An invariant of tasks that the elementary changes of a task keep. Every system call is made of these changes, so it
  keeps the invariant of every task in the map; \<open>I k t\<close> speaks of the task \<open>t\<close> stored under the key \<open>k\<close>.
\<close>

locale task_invariant =
  fixes I :: "usize \<Rightarrow> sel4_task \<Rightarrow> bool"
  assumes I_poke: "I k t \<Longrightarrow> I k (poke a d t)"
    and I_map: "I k t \<Longrightarrow> I k (on_mem (map_pages vs) t)"
    and I_unmap: "I k t \<Longrightarrow> I k (on_mem (fold unmap_step vs) t)"
    and I_heap: "I k t \<Longrightarrow> I k (on_mem (\<lambda>m. m\<lparr> heap := h \<rparr>) t)"
    and I_clear: "I k t \<Longrightarrow> I k (on_mem clear_mapped t)"
    and I_signal: "I k t \<Longrightarrow> I k (on_signal f t)"
    and I_exit: "I k t \<Longrightarrow> I k (t\<lparr> exit_code := c \<rparr>)"
    and I_tid: "I k t \<Longrightarrow> I k (t\<lparr> clear_child_tid := u \<rparr>)"
    and I_info: "I k t \<Longrightarrow> I k (t\<lparr> info := i \<rparr>)"
begin

definition tasks_keep :: "'k lcl \<Rightarrow> bool" where
  "tasks_keep s \<longleftrightarrow> (\<forall>k t. bt_get (TASK_MAP s) k = Some t \<longrightarrow> I k t)"

lemmas I_rules = I_poke I_map I_unmap I_heap I_clear I_signal I_exit I_tid I_info

lemma task_calls:
  assumes "I k t"
  shows "I k (snd (sys_getpid t))" "I k (snd (sys_set_tid_address a t))" "I k (snd (sys_uname a t))" "I k (snd (sys_brk a t))"
    "I k (snd (sys_mmap a b c t))" "I k (snd (sys_munmap a b t))" "I k (snd (sys_clock_gettime a b t))"
    "I k (snd (sys_gettimeofday a t))" "I k (snd (sys_sigprocmask h a b t))" "I k (snd (sys_rt_sigreturn t))"
  using assms by (simp_all add: sys_getpid_def sys_set_tid_address_def sys_uname_def sys_brk_def sys_mmap_def sys_munmap_def
    sys_clock_gettime_def sys_gettimeofday_def sys_sigprocmask_def sys_rt_sigreturn_def Let_def I_rules)

lemma rt_sigaction: "sys_rt_sigaction raw sig act old sz t = Some (r, t') \<Longrightarrow> I k t \<Longrightarrow> I k t'"
  by (auto simp: sys_rt_sigaction_def Let_def I_rules split: if_splits)

lemma exit_calls:
  assumes "I k t"
  shows "sys_exit kern c t m = Some (r, t', m') \<Longrightarrow> I k t'" "sys_exit_group kern c t m = Some (r, t', m') \<Longrightarrow> I k t'"
  using assms by (auto simp: sys_exit_def sys_exit_group_def exit_with_def Let_def I_rules split: bind_splits if_splits)

lemma store_keep: "store_result a d v e = (r, e') \<Longrightarrow> I k (se_task e) \<longrightarrow> I k (se_task e')"
  using I_poke [of k "se_task e" a d] by (auto simp: store_result_eq poke_def on_mem_def snd_write_bytes)

lemma fs_calls:
  assumes "I k (se_task e)"
  shows "sys_read kern fd a n e = Some (r, e') \<Longrightarrow> I k (se_task e')"
    "sys_write kern fd a n e = Some (r, e') \<Longrightarrow> I k (se_task e')"
    "sys_openat kern d a fl mode e = Some (r, e') \<Longrightarrow> I k (se_task e')"
    "sys_close kern fd e = Some (r, e') \<Longrightarrow> I k (se_task e')"
    "sys_lseek kern fd off wh e = Some (r, e') \<Longrightarrow> I k (se_task e')"
    "sys_fstat kern fd a e = Some (r, e') \<Longrightarrow> I k (se_task e')"
    "sys_mkdirat kern d a mode e = Some (r, e') \<Longrightarrow> I k (se_task e')"
    "sys_unlinkat kern d a fl e = Some (r, e') \<Longrightarrow> I k (se_task e')"
    "sys_faccessat kern d a mode fl e = Some (r, e') \<Longrightarrow> I k (se_task e')"
  using assms
  by (auto simp: sys_read_def sys_write_def sys_openat_def sys_close_def sys_lseek_def sys_fstat_def sys_mkdirat_def
      sys_unlinkat_def sys_faccessat_def Let_def
    split: if_splits bind_splits sum.splits prod.splits dest!: store_keep)

lemma stat_calls:
  assumes "I k (se_task e)"
  shows "sys_fstatat kern d a b fl e = Some (r, e') \<Longrightarrow> I k (se_task e')"
    "sys_getdents64 kern fd a n e = Some (r, e') \<Longrightarrow> I k (se_task e')"
  using assms
  by (auto simp: sys_fstatat_def sys_getdents64_def Let_def split: if_splits bind_splits sum.splits prod.splits dest!: store_keep)

lemma exec_segment: "exec_segment dat reloc off v fsz msz (mem t) = Some m \<Longrightarrow> I k t \<Longrightarrow> I k (t\<lparr> mem := m \<rparr>)"
  using I_map [of k t "page_steps (page_floor (v + reloc)) (page_ceil (v + reloc + msz))"]
    I_poke [of k "on_mem (map_pages (page_steps (page_floor (v + reloc)) (page_ceil (v + reloc + msz)))) t" "v + reloc"]
  by (auto simp: exec_segment_def Let_def poke_def on_mem_def split: bind_splits if_splits)

lemma exec_segments: "exec_segments_loop dat reloc ph es is (mem t) = Some m \<Longrightarrow> I k t \<Longrightarrow> I k (t\<lparr> mem := m \<rparr>)"
proof (induction "is" arbitrary: t)
  case (Cons i "is")
  from Cons.prems show ?case
    by (auto simp: Let_def split: if_splits bind_splits dest: Cons.IH dest!: exec_segment [where t = t and k = k]
      Cons.IH [of "t\<lparr> mem := m' \<rparr>" for m', simplified])
qed auto

lemma load_segments: "load_elf_segments dat reloc t = Some (entry, t') \<Longrightarrow> I k t \<Longrightarrow> I k t'"
  by (auto simp: load_elf_segments_def split: bind_splits elim: exec_segments)

lemma write_strings: "write_strings ss p t = (ps, p', t') \<Longrightarrow> I k t \<Longrightarrow> I k t'"
  by (induction ss arbitrary: p t ps p' t') (auto simp: Let_def I_poke split: prod.splits)

lemma write_pointers: "I k t \<Longrightarrow> I k (write_pointers sp ps t)"
proof -
  have "I k t \<Longrightarrow> I k (fold (\<lambda>i t. poke (sp + of_nat i * 8) (to_le 8 (ps ! i)) t) is t)" for "is"
    by (induction "is" arbitrary: t) (simp_all add: I_poke)
  then show "I k t \<Longrightarrow> I k (write_pointers sp ps t)" by (simp add: write_pointers_def I_poke)
qed

lemma setup_stack: "setup_stack sp0 args envp t = (sp, t') \<Longrightarrow> I k t \<Longrightarrow> I k t'"
  by (auto simp: setup_stack_def Let_def intro!: I_poke write_pointers elim: write_strings split: prod.splits)

lemma execve:
  assumes "I k (se_task e)" and "sys_execve kern a b c e = Some (r, e')"
  shows "I k (se_task e')"
  using assms I_clear [OF assms(1)]
  by (auto simp: sys_execve_def Let_def split: if_splits bind_splits sum.splits prod.splits
    intro!: I_info dest: load_segments [where k = k] setup_stack [where k = k])

lemma tasks_keep_insert: "tasks_keep s \<Longrightarrow> I k t \<Longrightarrow> tasks_keep (s\<lparr> TASK_MAP := bt_insert k t (TASK_MAP s) \<rparr>)"
  by (simp add: tasks_keep_def bt_get_insert)

lemma tasks_keep_frame [simp]: "tasks_keep (s\<lparr> machine := m \<rparr>) = tasks_keep s" "tasks_keep (s\<lparr> FS_CLIENT := c \<rparr>) = tasks_keep s"
  "tasks_keep (log kern line s) = tasks_keep s"
  by (simp_all add: tasks_keep_def log_def)

lemma on_task_keep:
  assumes "on_task k f s = Some (r, s')" and "\<And>t. I k t \<Longrightarrow> I k (snd (f t))" and "tasks_keep s"
  shows "tasks_keep s'"
proof -
  obtain t where t: "bt_get (TASK_MAP s) k = Some t" "s' = s\<lparr> TASK_MAP := bt_insert k (snd (f t)) (TASK_MAP s) \<rparr>"
    using assms(1) by (auto simp: on_task_def split: option.splits prod.splits)
  then have "I k t" using assms(3) by (simp add: tasks_keep_def)
  then show ?thesis using assms(2,3) t(2) by (simp add: tasks_keep_insert)
qed

lemma on_task_machine_keep:
  assumes "on_task_machine k f s = Some (r, s')" and "\<And>t m r t' m'. I k t \<Longrightarrow> f t m = Some (r, t', m') \<Longrightarrow> I k t'"
    and "tasks_keep s"
  shows "tasks_keep s'"
proof -
  obtain t t' m' where t: "bt_get (TASK_MAP s) k = Some t" "f t (machine s) = Some (r, t', m')"
    "s' = s\<lparr> TASK_MAP := bt_insert k t' (TASK_MAP s) \<rparr>\<lparr> machine := m' \<rparr>"
    using assms(1) by (auto simp: on_task_machine_def split: bind_splits)
  moreover have "I k t'" using assms(2) [OF _ t(2)] assms(3) t(1) by (simp add: tasks_keep_def)
  ultimately show ?thesis using assms(3) by (simp add: tasks_keep_insert del: lcl.update_convs)
qed

lemma in_sysenv_keep:
  assumes "in_sysenv k f s = Some (r, s')" and "\<And>e r e'. I k (se_task e) \<Longrightarrow> f e = Some (r, e') \<Longrightarrow> I k (se_task e')"
    and "tasks_keep s"
  shows "tasks_keep s'"
proof -
  obtain t e where t: "bt_get (TASK_MAP s) k = Some t"
    "f \<lparr> se_task = t, se_client = FS_CLIENT s, se_machine = machine s \<rparr> = Some (r, e)"
    "s' = s\<lparr> TASK_MAP := bt_insert k (se_task e) (TASK_MAP s) \<rparr>\<lparr> FS_CLIENT := se_client e \<rparr>\<lparr> machine := se_machine e \<rparr>"
    using assms(1) by (auto simp: in_sysenv_def split: bind_splits)
  moreover have "I k (se_task e)" using assms(2) [OF _ t(2)] assms(3) t(1) by (simp add: tasks_keep_def)
  ultimately show ?thesis using assms(3) by (simp add: tasks_keep_insert del: lcl.update_convs)
qed

lemma kill_keep: "sys_kill p sig s = (r, s') \<Longrightarrow> tasks_keep s \<Longrightarrow> tasks_keep s'"
  by (auto simp: sys_kill_def tasks_keep_def get_update_task pend_def I_signal split: if_splits option.splits)

lemma rt_sigaction_machine:
  "I k t \<Longrightarrow> do { (r, t') \<leftarrow> sys_rt_sigaction raw a b c d t; Some (r, t', m) } = Some (r', t'', m') \<Longrightarrow> I k t''"
  by (auto split: bind_splits intro: rt_sigaction)

lemma run_sysno_keep:
  assumes "run_sysno kern raw k n a0 a1 a2 a3 s = Some (r, s')" and "tasks_keep s"
  shows "tasks_keep s'"
proof -
  note run = assms(1) [unfolded run_sysno_def]
  note task = on_task_keep [OF _ _ assms(2)] and machine = on_task_machine_keep [OF _ _ assms(2)]
    and env = in_sysenv_keep [OF _ _ assms(2)]
  show ?thesis using run assms(2)
    by (cases n; simp only: sysno.case)
      (auto simp: assms(2) elim: task [OF _ task_calls(1)] task [OF _ task_calls(2)] task [OF _ task_calls(3)]
        task [OF _ task_calls(4)] task [OF _ task_calls(5)] task [OF _ task_calls(6)] task [OF _ task_calls(7)]
        task [OF _ task_calls(8)] task [OF _ task_calls(9)] task [OF _ task_calls(10)]
        machine [OF _ exit_calls(1)] machine [OF _ exit_calls(2)] machine [OF _ rt_sigaction_machine] env [OF _ execve]
        env [OF _ fs_calls(1)] env [OF _ fs_calls(2)] env [OF _ fs_calls(3)] env [OF _ fs_calls(4)] env [OF _ fs_calls(5)]
        env [OF _ fs_calls(6)] env [OF _ fs_calls(7)] env [OF _ fs_calls(8)] env [OF _ fs_calls(9)]
        env [OF _ stat_calls(1)] env [OF _ stat_calls(2)] kill_keep [OF _ assms(2)])
qed

lemma handle_syscall_keep: "handle_syscall kern raw k regs s = Some (r, s') \<Longrightarrow> tasks_keep s \<Longrightarrow> tasks_keep s'"
  by (auto simp: handle_syscall_def Let_def split: option.splits intro: run_sysno_keep)

lemma resume_keep: "resume_with kern t regs s = Some s' \<Longrightarrow> tasks_keep s' = tasks_keep s"
  by (auto simp: resume_with_def split: bind_splits)

lemma handle_fault_keep:
  assumes "handle_fault kern raw k message s = Some s'" and "tasks_keep s"
  shows "tasks_keep s'"
proof -
  have exc: "tasks_keep s'" if "handle_user_exception kern raw k ip s = Some s'" "tasks_keep s" for ip s
    using that by (auto simp: handle_user_exception_def Let_def split: option.splits if_splits bind_splits
      dest!: resume_keep handle_syscall_keep)
  have vm: "tasks_keep s'" if "handle_vmfault kern k addr s = Some s'" "tasks_keep s" for addr s
  proof (cases "bt_get (TASK_MAP s) k")
    case (Some t)
    then have "I k t" using that(2) by (simp add: tasks_keep_def)
    then have "I k (on_mem (\<lambda>m. snd (map_blank_page_simple (page_floor addr) m)) t)"
      using I_map [of k t "[page_floor addr]"] by (simp add: on_mem_def)
    then have "tasks_keep (s\<lparr> TASK_MAP := bt_insert k (on_mem (\<lambda>m. snd (map_blank_page_simple (page_floor addr) m)) t) (TASK_MAP s) \<rparr>)"
      using that(2) by (simp add: tasks_keep_insert)
    then show ?thesis using that(1) Some by (auto simp: handle_vmfault_def Let_def dest!: resume_keep)
  qed (use that in \<open>simp add: handle_vmfault_def Let_def\<close>)
  have unk: "tasks_keep s'" if "handle_unknown_syscall kern raw k no s = Some s'" "tasks_keep s" for no s
    using that by (auto simp: handle_unknown_syscall_def Let_def split: option.splits bind_splits
      dest!: resume_keep handle_syscall_keep)
  show ?thesis using assms
    by (auto simp: handle_fault_def Let_def split: if_splits bind_splits dest: exc vm unk)
qed

end

text \<open>The memory of every task stays well formed, and what names a task never changes.\<close>

definition identity :: "sel4_task \<Rightarrow> usize list" where
  "identity t = [pid t, ppid t, pgid t, tid t, tcb t, cnode t, vspace t]"

interpretation task_memory_kept: task_invariant "\<lambda>k t. mem_ok (mem t)"
proof
  show "mem_ok (mem t) \<Longrightarrow> mem_ok (mem (poke a d t))" for a d t by (simp add: snd_write_bytes task_memory.wr_ok)
  show "mem_ok (mem t) \<Longrightarrow> mem_ok (mem (on_mem (\<lambda>m. m\<lparr> heap := h \<rparr>) t))" for h t by (simp add: mem_ok_def)
  show "mem_ok (mem t) \<Longrightarrow> mem_ok (mem (on_mem clear_mapped t))" for t by (simp add: mem_ok_def clear_mapped_def)
qed (simp_all add: map_pages_ok fold_unmap_ok on_signal_def)

interpretation task_identity_kept: task_invariant "\<lambda>k t. map_option identity (bt_get (TASK_MAP s0) k) = Some (identity t)" for s0
  by unfold_locales (simp_all add: identity_def on_mem_def on_signal_def poke_def)

text \<open>Other tasks can only receive a signal, and the task served stays in the map.\<close>

definition only_signalled :: "usize \<Rightarrow> 'k lcl \<Rightarrow> 'k lcl \<Rightarrow> bool" where
  "only_signalled k s s' \<longleftrightarrow> (\<forall>j. j \<noteq> k \<longrightarrow> bt_get (TASK_MAP s') j = bt_get (TASK_MAP s) j \<or>
     (\<exists>t sig. bt_get (TASK_MAP s) j = Some t \<and> bt_get (TASK_MAP s') j = Some (pend sig t))) \<and>
     (bt_get (TASK_MAP s) k \<noteq> None \<longrightarrow> bt_get (TASK_MAP s') k \<noteq> None)"

lemma only_signalled_frame [simp]: "only_signalled k s s" "only_signalled k s (s'\<lparr> machine := m \<rparr>) = only_signalled k s s'"
  "only_signalled k (s\<lparr> machine := m \<rparr>) s' = only_signalled k s s'" "only_signalled k s (log kern line s') = only_signalled k s s'"
  by (simp_all add: only_signalled_def log_def)

lemma dispatch_only_signalled:
  "on_task k f s = Some (r, s') \<Longrightarrow> only_signalled k s s'"
  "on_task_machine k g s = Some (r, s') \<Longrightarrow> only_signalled k s s'"
  "in_sysenv k h s = Some (r, s') \<Longrightarrow> only_signalled k s s'"
  "sys_kill p sig s = (r, s') \<Longrightarrow> only_signalled k s s'"
  by (auto simp: on_task_def on_task_machine_def in_sysenv_def sys_kill_def only_signalled_def bt_get_insert get_update_task
    split: option.splits prod.splits bind_splits if_splits)

lemma handle_syscall_only_signalled: "handle_syscall kern raw k regs s = Some (r, s') \<Longrightarrow> only_signalled k s s'"
proof -
  have "only_signalled k s s'" if "run_sysno kern raw k n a0 a1 a2 a3 s = Some (r, s')" for n a0 a1 a2 a3
    using that unfolding run_sysno_def by (cases n; simp only: sysno.case) (auto elim: dispatch_only_signalled)
  then show "handle_syscall kern raw k regs s = Some (r, s') \<Longrightarrow> only_signalled k s s'"
    by (auto simp: handle_syscall_def Let_def split: option.splits)
qed

lemma handle_fault_only_signalled:
  assumes "handle_fault kern raw k message s = Some s'"
  shows "only_signalled k s s'"
proof -
  have res: "only_signalled k s s1 = only_signalled k s s2" if "resume_with kern t regs s1 = Some s2" for s t regs s1 s2
    using that by (auto simp: resume_with_def split: bind_splits)
  have "only_signalled k s s'" if "handle_user_exception kern raw k ip s = Some s'" for ip s
    using that by (auto simp: handle_user_exception_def Let_def split: option.splits if_splits bind_splits
      dest!: res [where s = s] handle_syscall_only_signalled)
  moreover have "only_signalled k s s'" if "handle_vmfault kern k addr s = Some s'" for addr s
    using that by (auto simp: handle_vmfault_def Let_def only_signalled_def bt_get_insert resume_with_def split: option.splits bind_splits)
  moreover have "only_signalled k s s'" if "handle_unknown_syscall kern raw k no s = Some s'" for no s
    using that by (auto simp: handle_unknown_syscall_def Let_def split: option.splits bind_splits
      dest!: res [where s = s] handle_syscall_only_signalled)
  ultimately show ?thesis using assms
    by (auto simp: handle_fault_def with_ipc_buffer_def Let_def split: if_splits bind_splits)
qed

section \<open>Properties\<close>

text \<open>
  C2. Serving a fault of one task: whatever the fault and the system call, the memory of every task stays well formed,
  no task appears or vanishes, every task keeps its identifiers and capabilities, and a task other than the faulting
  one keeps its whole state but for signals made pending.
\<close>

theorem fault_isolation:
  assumes "handle_fault kern raw k message s = Some s'" and "\<forall>j t. bt_get (TASK_MAP s) j = Some t \<longrightarrow> mem_ok (mem t)"
  shows "(\<forall>j. bt_get (TASK_MAP s) j = None \<longrightarrow> bt_get (TASK_MAP s') j = None) \<and>
    (\<forall>j t. bt_get (TASK_MAP s) j = Some t \<longrightarrow> (\<exists>t'. bt_get (TASK_MAP s') j = Some t' \<and> mem_ok (mem t') \<and> identity t' = identity t \<and>
      (j \<noteq> k \<longrightarrow> t' = t\<lparr> signal := (signal t)\<lparr> pending := pending (signal t') \<rparr> \<rparr>)))"
proof (intro conjI allI impI)
  have ident: "map_option identity (bt_get (TASK_MAP s) j) = Some (identity t')" if "bt_get (TASK_MAP s') j = Some t'" for j t'
    using task_identity_kept.handle_fault_keep [OF assms(1), of s, unfolded task_identity_kept.tasks_keep_def] that by simp
  show "bt_get (TASK_MAP s') j = None" if "bt_get (TASK_MAP s) j = None" for j
    using ident [of j] that by (cases "bt_get (TASK_MAP s') j") auto
  fix j t
  assume t: "bt_get (TASK_MAP s) j = Some t"
  note sig = handle_fault_only_signalled [OF assms(1)]
  from t sig obtain t' where t': "bt_get (TASK_MAP s') j = Some t'" by (cases "j = k") (fastforce simp: only_signalled_def)+
  moreover have "mem_ok (mem t')"
    using task_memory_kept.handle_fault_keep [OF assms(1)] assms(2) t' by (auto simp: task_memory_kept.tasks_keep_def)
  moreover have "t' = t\<lparr> signal := (signal t)\<lparr> pending := pending (signal t') \<rparr> \<rparr>" if "j \<noteq> k"
  proof -
    have "t' = t \<or> (\<exists>sg. t' = pend sg t)" using sig t t' that by (fastforce simp: only_signalled_def)
    then show ?thesis by (auto simp: pend_def on_signal_def)
  qed
  ultimately show "\<exists>t'. bt_get (TASK_MAP s') j = Some t' \<and> mem_ok (mem t') \<and> identity t' = identity t \<and>
      (j \<noteq> k \<longrightarrow> t' = t\<lparr> signal := (signal t)\<lparr> pending := pending (signal t') \<rparr> \<rparr>)"
    using ident [OF t'] t by auto
qed

text \<open>
  C3. The result of a system call reaches the task: when the instruction at the faulting address is the trap and the
  call is handled, a task that has exited is left alone; any other is resumed by one kernel entry on its TCB whose
  register frame is the one it faulted with, but for the result (or the negated error) in \<^verbatim>\<open>RAX\<close> and the instruction
  pointer moved past the trap.
\<close>

theorem syscall_result_delivered:
  assumes "bt_get (TASK_MAP s) k = Some t" and "read_bytes_u32 (mem t) ip = Some TRAP_INST" and "ipc_set (machine s)"
    and "handle_syscall kern raw k (fault_regs (ipc_buf (machine s))) s = Some (r, s1)"
    and "bt_get (TASK_MAP s1) k = Some t1" and "ipc_set (machine s1)" and "ipc_buffer_ok (ipc_buf (machine s1))"
  shows "if exit_code t1 \<noteq> None then handle_user_exception kern raw k ip s = Some s1
    else \<exists>c b. handle_user_exception kern raw k ip s = Some (s1\<lparr> machine := enter_kernel kern c b (machine s1) \<rparr>) \<and>
      c_rdi c = tcb t1 \<and> get_syscall_arg c b 0 = 1 \<and> get_syscall_arg c b 1 = 20 \<and>
      (\<forall>i < 20. get_syscall_arg c b (2 + i) =
        (if i = REG_RAX then case r of Inr v \<Rightarrow> v | Inl e \<Rightarrow> - scast e
         else if i = REG_RIP then read_mr (ipc_buf (machine s)) 15 + 4 else read_mr (ipc_buf (machine s)) (of_nat i)))"
proof -
  let ?regs = "fault_regs (ipc_buf (machine s))"
  let ?regs2 = "?regs[REG_RAX := return_value r, REG_RIP := ?regs ! REG_RIP + 4]"
  have m: "s\<lparr> machine := machine s \<rparr> = s" by simp
  have run: "handle_user_exception kern raw k ip s = (if exit_code t1 \<noteq> None then Some s1 else resume_with kern t1 ?regs2 s1)"
    using assms(1-5) by (simp add: handle_user_exception_def with_ipc_buffer_def REG_RAX_def REG_RIP_def)
  have len: "length ?regs2 = unat (20 :: u8)" by (simp add: fault_regs_def)
  from write_registers_delivers [OF assms(6,7) len, of kern "tcb t1" True 0] obtain c b where
    w: "seL4_TCB_WriteRegisters kern (tcb t1) True 0 20 ?regs2 (machine s1) =
      Some (drop_bit 12 (c_rsi (cpu (enter_kernel kern c b (machine s1)))), enter_kernel kern c b (machine s1))"
    and cb: "c_rdi c = tcb t1" "get_syscall_arg c b 0 = 1" "get_syscall_arg c b 1 = 20"
    and args: "\<forall>i < 20. get_syscall_arg c b (2 + i) = ?regs2 ! i" by (auto simp: fault_regs_def)
  have "?regs2 ! i = (if i = REG_RAX then case r of Inr v \<Rightarrow> v | Inl e \<Rightarrow> - scast e
         else if i = REG_RIP then read_mr (ipc_buf (machine s)) 15 + 4 else read_mr (ipc_buf (machine s)) (of_nat i))" if "i < 20" for i
    using that by (simp add: fault_regs_def nth_list_update REG_RAX_def REG_RIP_def return_value_def del: upt_Suc)
  with args have "\<forall>i < 20. get_syscall_arg c b (2 + i) =
        (if i = REG_RAX then case r of Inr v \<Rightarrow> v | Inl e \<Rightarrow> - scast e
         else if i = REG_RIP then read_mr (ipc_buf (machine s)) 15 + 4 else read_mr (ipc_buf (machine s)) (of_nat i))" by simp
  with w cb show ?thesis by (auto simp: run resume_with_def intro!: exI [of _ c] exI [of _ b])
qed

text \<open>A task that faults on the trap with \<^verbatim>\<open>getpid\<close>, and a bystander.\<close>

definition trap_task :: sel4_task where
  "trap_task = poke 0x401000 (to_le 4 TRAP_INST) sample_task"

definition trap_lcl :: "unit lcl" where
  "trap_lcl = sample_lcl\<lparr> TASK_MAP := bt_insert 8 sample_task (bt_insert 7 trap_task bt_empty),
     machine := sample_machine\<lparr> ipc_buf := write_mr (write_mr ipc_buffer_new 0 39) 15 0x401000 \<rparr> \<rparr>"

lemma trap_task_ok: "mem_ok (mem trap_task)" "tcb trap_task = tcb sample_task" "exit_code trap_task = None" "pid trap_task = 7"
  using sample_task_ok by (simp_all add: trap_task_def snd_write_bytes task_memory.wr_ok poke_def on_mem_def sample_task_def)

lemma trap_instruction: "read_bytes_u32 (mem trap_task) 0x401000 = Some TRAP_INST"
proof -
  have "to_le 4 TRAP_INST \<noteq> []" by (metis length_to_le list.size(3) zero_neq_numeral)
  from read_after_write [OF sample_task_ok(1) this, of "replicate 4 0" "0x401000"] show ?thesis
    by (simp add: trap_task_def read_bytes_u32_def page_offset_def PAGE_SIZE_def from_le_to_le)
qed

lemma trap_lcl_tasks: "bt_get (TASK_MAP trap_lcl) j = (if j = 8 then Some sample_task else if j = 7 then Some trap_task else None)"
  by (simp add: trap_lcl_def bt_get_insert)

text \<open>An image of the action table: its handlers, at their distance in memory.\<close>

definition sample_raw :: "signal_action list \<Rightarrow> nat \<Rightarrow> bytes" where
  "sample_raw as i = take 32 (concat (map (\<lambda>a. to_le 8 (sa_handler a) @ replicate 16 0) (drop i as)) @ replicate 32 0)"

lemma trap_getpid:
  "handle_syscall echo_kernel raw 7 (fault_regs (ipc_buf (machine trap_lcl))) trap_lcl =
    Some (Inr 7, trap_lcl\<lparr> TASK_MAP := bt_insert 7 trap_task (TASK_MAP trap_lcl) \<rparr>)"
proof -
  have "fault_regs (ipc_buf (machine trap_lcl)) ! 0 = 39"
    by (simp add: fault_regs_nth trap_lcl_def sample_lcl_def sample_machine_def read_mr_write_mr)
  then show ?thesis
    by (simp add: handle_syscall_def sysno_try_from_def sysno_table_def run_sysno_def on_task_def trap_lcl_tasks
      sys_getpid_def trap_task_ok)
qed

theorem syscall_result_delivered_witness:
  "\<exists>c b m. handle_user_exception echo_kernel sample_raw 7 0x401000 trap_lcl =
      Some (trap_lcl\<lparr> TASK_MAP := bt_insert 7 trap_task (TASK_MAP trap_lcl), machine := enter_kernel echo_kernel c b m \<rparr>) \<and>
    get_syscall_arg c b 2 = 7 \<and> get_syscall_arg c b 17 = 0x401004"
proof -
  let ?s1 = "trap_lcl\<lparr> TASK_MAP := bt_insert 7 trap_task (TASK_MAP trap_lcl) \<rparr>"
  have t: "bt_get (TASK_MAP trap_lcl) 7 = Some trap_task" "bt_get (TASK_MAP ?s1) 7 = Some trap_task"
    by (simp_all add: trap_lcl_tasks bt_get_insert)
  have m: "ipc_set (machine trap_lcl)" "ipc_buffer_ok (ipc_buf (machine ?s1))" "ipc_set (machine ?s1)"
    by (simp_all add: trap_lcl_def write_mr_ok sample_machine_def)
  from syscall_result_delivered [OF t(1) trap_instruction m(1) trap_getpid t(2) m(3,2)] obtain c b where
    r: "handle_user_exception echo_kernel sample_raw 7 0x401000 trap_lcl = Some (?s1\<lparr> machine := enter_kernel echo_kernel c b (machine ?s1) \<rparr>)"
    and args: "\<forall>i < 20. get_syscall_arg c b (2 + i) =
        (if i = REG_RAX then case Inr 7 of Inr v \<Rightarrow> v | Inl e \<Rightarrow> - scast (e :: i32)
         else if i = REG_RIP then read_mr (ipc_buf (machine trap_lcl)) 15 + 4 else read_mr (ipc_buf (machine trap_lcl)) (of_nat i))"
    unfolding trap_task_ok(3) if_False not_True_eq_False simp_thms by blast
  have "get_syscall_arg c b 2 = 7" using args [rule_format, of 0] by (simp add: REG_RAX_def)
  moreover have "get_syscall_arg c b 17 = 0x401004"
    using args [rule_format, of 15] by (simp add: REG_RAX_def REG_RIP_def trap_lcl_def sample_lcl_def sample_machine_def read_mr_write_mr)
  ultimately show ?thesis using r by (intro exI [of _ c] exI [of _ b] exI [of _ "machine ?s1"]) simp
qed

theorem fault_isolation_witness:
  "\<exists>s'. handle_fault echo_kernel sample_raw 7 (mi_new 3 0 1)
      (trap_lcl\<lparr> machine := sample_machine\<lparr> ipc_buf := write_mr ipc_buffer_new 0 39 \<rparr> \<rparr>) = Some s' \<and>
    (\<exists>t'. bt_get (TASK_MAP s') 8 = Some t' \<and> mem t' = mem sample_task)"
proof -
  let ?s = "trap_lcl\<lparr> machine := sample_machine\<lparr> ipc_buf := write_mr ipc_buffer_new 0 39 \<rparr> \<rparr>"
  have l: "mi_label (mi_new 3 0 1) = 3" by code_simp
  have t7: "bt_get (TASK_MAP trap_lcl) 7 = Some trap_task" by (simp add: trap_lcl_tasks)
  obtain s' where r: "handle_fault echo_kernel sample_raw 7 (mi_new 3 0 1) ?s = Some s'"
    using l t7 by (simp add: handle_fault_def with_ipc_buffer_def read_mr_write_mr handle_unknown_syscall_def handle_syscall_def
      sample_machine_def sysno_try_from_def sysno_table_def run_sysno_def on_task_def sys_getpid_def resume_with_def
      seL4_TCB_WriteRegisters_def cap_invoke_def seL4_syscall_with_buf_def Let_def seL4_syscall_def)
  have "\<forall>j t. bt_get (TASK_MAP ?s) j = Some t \<longrightarrow> mem_ok (mem t)" by (auto simp: trap_lcl_tasks trap_task_ok sample_task_ok)
  from fault_isolation [OF r this, THEN conjunct2, rule_format, of 8 sample_task] obtain t' where "bt_get (TASK_MAP s') 8 = Some t'"
    "t' = sample_task\<lparr> signal := (signal sample_task)\<lparr> pending := pending (signal t') \<rparr> \<rparr>"
    by (auto simp: trap_lcl_tasks)
  moreover from this(2) have "mem t' = mem sample_task" by (metis sel4_task.select_convs(12) sel4_task.surjective sel4_task.update_convs(13))
  ultimately show ?thesis using r by blast
qed

text \<open>
  \<^verbatim>\<open>handle_fault\<close> takes the address of a user exception from message register 0, which \<^verbatim>\<open>handle_user_exception\<close> then
  reads again as \<^verbatim>\<open>RAX\<close>: the call number it dispatches on is the address of the trap, unless that address is
  itself a call number the call is unknown.
\<close>

lemma trap_number_is_address:
  assumes "sysno_try_from (read_mr (ipc_buf (machine s)) 0) = None"
  shows "\<exists>s1. handle_syscall kern raw k (fault_regs (ipc_buf (machine s))) s = Some (Inl 38, s1)"
  using assms by (simp add: handle_syscall_def fault_regs_nth)

end
