(* ===== verification/Runtime.thy ===== *)
theory Runtime
  imports Syscall_Fs Console
begin

text \<open>
  The setting of the task loader, the task runner and the root task: code that creates kernel objects from boot
  information, writes the memory of its own address space and leaves with \<^verbatim>\<open>None\<close> at the first failure.

  The state is the object pool of the layer (\<^verbatim>\<open>OBJ_ALLOCATOR\<close>) and the machine. A step returns \<open>None\<close> when the program
  panics and otherwise an optional result, which is \<open>None\<close> after an early \<^verbatim>\<open>return None\<close>, with the state it leaves.

  Memory is part of the world behind the machine, because mapping a frame changes what an address holds. The record
  \<open>ram\<close> gives the loads and stores of mapped addresses of the address space; \<open>ram_ok\<close> is the law of such
  a memory. An access to an address that is not mapped stops the program and is not modelled.
\<close>

section \<open>Steps\<close>

record 'k rt =
  rt_pool :: obj_pool
  rt_machine :: "'k machine"

type_synonym ('a, 'k) step = "'k rt \<Rightarrow> ('a option \<times> 'k rt) option"

definition give :: "'a \<Rightarrow> ('a, 'k) step" where
  "give x s = Some (Some x, s)"

definition leave :: "('a, 'k) step" where
  "leave s = Some (None, s)"

definition and_then :: "('a, 'k) step \<Rightarrow> ('a \<Rightarrow> ('b, 'k) step) \<Rightarrow> ('b, 'k) step" where
  "and_then f g s =
     (case f s of
        None \<Rightarrow> None
      | Some (None, s') \<Rightarrow> Some (None, s')
      | Some (Some x, s') \<Rightarrow> g x s')"

text \<open>A kernel call, which may panic; code that only changes the machine; a value that a slice access computes.\<close>

definition call :: "('k machine \<Rightarrow> ('a \<times> 'k machine) option) \<Rightarrow> ('a, 'k) step" where
  "call f s = (case f (rt_machine s) of None \<Rightarrow> None | Some (x, m) \<Rightarrow> Some (Some x, s\<lparr> rt_machine := m \<rparr>))"

definition put :: "('k machine \<Rightarrow> 'k machine) \<Rightarrow> (unit, 'k) step" where
  "put f s = Some (Some (), s\<lparr> rt_machine := f (rt_machine s) \<rparr>)"

definition look :: "('k machine \<Rightarrow> 'a) \<Rightarrow> ('a, 'k) step" where
  "look f s = Some (Some (f (rt_machine s)), s)"

definition panics :: "'a option \<Rightarrow> ('a, 'k) step" where
  "panics x s = (case x of None \<Rightarrow> None | Some y \<Rightarrow> Some (Some y, s))"

definition say :: "'k kernel \<Rightarrow> string \<Rightarrow> (unit, 'k) step" where
  "say kern txt = put (seL4_DebugPutString kern (str txt))"

definition say_hex :: "'k kernel \<Rightarrow> usize \<Rightarrow> (unit, 'k) step" where
  "say_hex kern v = put (print_hex kern v)"

definition say_all :: "'k kernel \<Rightarrow> (string + usize) list \<Rightarrow> (unit, 'k) step" where
  "say_all kern items = put (fold (\<lambda>x. case x of Inl txt \<Rightarrow> seL4_DebugPutString kern (str txt) | Inr v \<Rightarrow> print_hex kern v) items)"

text \<open>\<^verbatim>\<open>if err != 0 { print; return None; }\<close>\<close>

definition require :: "'k kernel \<Rightarrow> bool \<Rightarrow> (string + usize) list \<Rightarrow> (unit, 'k) step" where
  "require kern ok items = (if ok then give () else and_then (say_all kern items) (\<lambda>_. leave))"

definition whenever :: "bool \<Rightarrow> (unit, 'k) step \<Rightarrow> (unit, 'k) step" where
  "whenever b f = (if b then f else give ())"

text \<open>\<^verbatim>\<open>for x in xs { .. }\<close> whose body may leave the function; the second form threads a local variable.\<close>

primrec each :: "('a \<Rightarrow> (unit, 'k) step) \<Rightarrow> 'a list \<Rightarrow> (unit, 'k) step" where
  "each f [] = give ()"
| "each f (x # xs) = and_then (f x) (\<lambda>_. each f xs)"

primrec each_with :: "('a \<Rightarrow> 'v \<Rightarrow> ('v, 'k) step) \<Rightarrow> 'a list \<Rightarrow> 'v \<Rightarrow> ('v, 'k) step" where
  "each_with f [] v = give v"
| "each_with f (x # xs) v = and_then (f x v) (each_with f xs)"

section \<open>Objects\<close>

text \<open>\<^verbatim>\<open>OBJ_ALLOCATOR.lock().alloc()?\<close> and \<^verbatim>\<open>bi.find_free_untyped(bits)?\<close>\<close>

definition take_slot :: "(usize, 'k) step" where
  "take_slot s = (let (r, p) = op_alloc (rt_pool s) in Some (r, s\<lparr> rt_pool := p \<rparr>))"

definition take_untyped :: "boot_info \<Rightarrow> u8 \<Rightarrow> (usize, 'k) step" where
  "take_untyped bi bits s =
     (case find_free_untyped bi bits of None \<Rightarrow> None | Some r \<Rightarrow> Some (map_option fst r, s))"

text \<open>\<^verbatim>\<open>seL4_Untyped_Retype(ut, ty as usize, bits, CNODE, CNODE, 64, slot, n)\<close>\<close>

definition retype :: "'k kernel \<Rightarrow> usize \<Rightarrow> object_type \<Rightarrow> usize \<Rightarrow> usize \<Rightarrow> usize \<Rightarrow> (usize, 'k) step" where
  "retype kern ut ty bits slot n =
     call (seL4_Untyped_Retype kern ut (object_type_word ty) bits init_CNODE init_CNODE 64 slot n)"

definition map_frame :: "'k kernel \<Rightarrow> usize \<Rightarrow> usize \<Rightarrow> usize \<Rightarrow> (usize, 'k) step" where
  "map_frame kern slot vs vaddr = call (seL4_Frame_Map kern slot vs vaddr (cr_bits CapRights_ALL) 0)"

section \<open>Memory\<close>

record 'k ram =
  ld :: "usize \<Rightarrow> 'k \<Rightarrow> u8"
  st :: "usize \<Rightarrow> u8 \<Rightarrow> 'k \<Rightarrow> 'k"

definition ram_ok :: "'k ram \<Rightarrow> bool" where
  "ram_ok ram \<longleftrightarrow> (\<forall>a v k. ld ram a (st ram a v k) = v) \<and> (\<forall>a b v k. b \<noteq> a \<longrightarrow> ld ram b (st ram a v k) = ld ram b k)"

definition load_byte :: "'k ram \<Rightarrow> 'k machine \<Rightarrow> usize \<Rightarrow> u8" where
  "load_byte ram m a = ld ram a (world m)"

definition store_byte :: "'k ram \<Rightarrow> usize \<Rightarrow> u8 \<Rightarrow> 'k machine \<Rightarrow> 'k machine" where
  "store_byte ram a v m = m\<lparr> world := st ram a v (world m) \<rparr>"

text \<open>\<^verbatim>\<open>for i in 0..n { dest.add(i).write_volatile(bs[i]) }\<close>\<close>

definition store_bytes :: "'k ram \<Rightarrow> usize \<Rightarrow> bytes \<Rightarrow> 'k machine \<Rightarrow> 'k machine" where
  "store_bytes ram a bs m = fold (\<lambda>i. store_byte ram (a + of_nat i) (bs ! i)) [0..<length bs] m"

definition load_bytes :: "'k ram \<Rightarrow> 'k machine \<Rightarrow> usize \<Rightarrow> nat \<Rightarrow> bytes" where
  "load_bytes ram m a n = map (\<lambda>i. load_byte ram m (a + of_nat i)) [0..<n]"

definition store_word :: "'k ram \<Rightarrow> usize \<Rightarrow> usize \<Rightarrow> 'k machine \<Rightarrow> 'k machine" where
  "store_word ram a w = store_bytes ram a (to_le 8 w)"

definition load_word :: "'k ram \<Rightarrow> 'k machine \<Rightarrow> usize \<Rightarrow> usize" where
  "load_word ram m a = from_le (load_bytes ram m a 8)"

definition zero_page :: "'k ram \<Rightarrow> usize \<Rightarrow> 'k machine \<Rightarrow> 'k machine" where
  "zero_page ram a = store_bytes ram a (replicate 4096 0)"

section \<open>Lemmas\<close>

lemma load_store_byte:
  "ram_ok ram \<Longrightarrow> load_byte ram (store_byte ram a v m) = (load_byte ram m)(a := v)"
  by (auto simp: load_byte_def store_byte_def ram_ok_def)

lemma store_byte_frame [simp]: "ipc_set (store_byte ram a v m) = ipc_set m" "ipc_buf (store_byte ram a v m) = ipc_buf m"
  "cpu (store_byte ram a v m) = cpu m"
  by (simp_all add: store_byte_def)

lemma store_bytes_snoc:
  "store_bytes ram a (bs @ [v]) m = store_byte ram (a + of_nat (length bs)) v (store_bytes ram a bs m)"
proof -
  have "fold (\<lambda>i. store_byte ram (a + of_nat i) ((bs @ [v]) ! i)) [0..<length bs] m =
      fold (\<lambda>i. store_byte ram (a + of_nat i) (bs ! i)) [0..<length bs] m"
    by (rule fold_cong) (auto simp: nth_append)
  then show ?thesis by (simp add: store_bytes_def)
qed

lemma store_bytes_Nil [simp]: "store_bytes ram a [] m = m"
  by (simp add: store_bytes_def)

lemma store_bytes_frame [simp]: "ipc_set (store_bytes ram a bs m) = ipc_set m" "ipc_buf (store_bytes ram a bs m) = ipc_buf m"
  "cpu (store_bytes ram a bs m) = cpu m"
  by (induction bs rule: rev_induct) (simp_all add: store_bytes_snoc)

lemma load_store_bytes:
  assumes "ram_ok ram" and "length bs < 2 ^ 64"
  shows "load_byte ram (store_bytes ram a bs m) = mem_store (load_byte ram m) a bs"
  using assms(2)
proof (induction bs rule: rev_induct)
  case (snoc v bs)
  have "load_byte ram (store_bytes ram a (bs @ [v]) m) = (mem_store (load_byte ram m) a bs)(a + of_nat (length bs) := v)"
    using snoc by (simp add: store_bytes_snoc load_store_byte [OF assms(1)])
  also have "\<dots> = mem_store (mem_store (load_byte ram m) a bs) (a + of_nat (length bs)) [v]"
    by (auto simp: mem_store_def fun_eq_iff unat_eq_zero)
  also have "\<dots> = mem_store (load_byte ram m) a (bs @ [v])" using snoc.prems by (subst mem_store_append) simp_all
  finally show ?case .
qed (simp add: mem_store_def)

text \<open>The memory of the address space is a byte memory like the memory of a task.\<close>

interpretation user_mem: byte_memory "load_byte ram" "store_bytes ram" "\<lambda>_. ram_ok ram" for ram
  by unfold_locales (simp_all add: load_store_bytes)

text \<open>The simplest memory: a function.\<close>

definition flat_ram :: "(usize \<Rightarrow> u8) ram" where
  "flat_ram = \<lparr> ld = (\<lambda>a k. k a), st = (\<lambda>a v k. k(a := v)) \<rparr>"

lemma flat_ram_ok [simp]: "ram_ok flat_ram"
  by (simp add: ram_ok_def flat_ram_def)

lemma and_then_simps [simp]:
  "and_then (give x) g1 = g1 x" "and_then leave g2 = leave" "and_then (put f) g3 s = g3 () (s\<lparr> rt_machine := f (rt_machine s) \<rparr>)"
  "and_then (look h) g4 s = g4 (h (rt_machine s)) s"
  by (auto simp: and_then_def give_def leave_def put_def look_def fun_eq_iff)

lemma and_then_assoc: "and_then (and_then f g) h = and_then f (\<lambda>x. and_then (g x) h)"
  by (auto simp: and_then_def fun_eq_iff split: option.splits prod.splits)

lemma and_then_done:
  "and_then f g s = Some (Some y, s') \<longleftrightarrow> (\<exists>x s1. f s = Some (Some x, s1) \<and> g x s1 = Some (Some y, s'))"
  by (auto simp: and_then_def split: option.splits prod.splits)

lemma step_done [simp]:
  "give x s = Some (Some y, s') \<longleftrightarrow> y = x \<and> s' = s" "leave s = Some (Some y1, s') \<longleftrightarrow> False"
  "put f s = Some (Some u, s') \<longleftrightarrow> s' = s\<lparr> rt_machine := f (rt_machine s) \<rparr>"
  "call h s = Some (Some y2, s') \<longleftrightarrow> (\<exists>m. h (rt_machine s) = Some (y2, m) \<and> s' = s\<lparr> rt_machine := m \<rparr>)"
  "panics z s = Some (Some y3, s') \<longleftrightarrow> z = Some y3 \<and> s' = s"
  by (auto simp: give_def leave_def put_def call_def panics_def split: option.splits)

section \<open>What kernel calls do to memory\<close>

text \<open>
  The documented effect of the kernel on the memory of the caller: creating objects, mapping paging structures and
  console output leave it alone, and mapping a frame changes no address outside the page it is mapped at.
\<close>

definition maps_only :: "'k kernel \<Rightarrow> 'k ram \<Rightarrow> bool" where
  "maps_only kern ram \<longleftrightarrow> (\<forall>c b k a.
     c_rdx c = SYS_DEBUG_PUT_CHAR \<or>
     c_rdx c = SYS_CALL \<and> (drop_bit 12 (c_rsi c) \<in> {1, 33, 35, 37} \<or> drop_bit 12 (c_rsi c) = 41 \<and> page_floor a \<noteq> c_r10 c) \<longrightarrow>
     ld ram a (snd (snd (kern c b k))) = ld ram a k)"

lemma load_enter_kernel: "load_byte ram (enter_kernel kern c b m) a = ld ram a (snd (snd (kern c b (world m))))"
  by (simp add: enter_kernel_def load_byte_def split: prod.splits)

lemma cap_invoke_with_extra_enters:
  assumes "cap_invoke_with_extra kern dest label mrs caps m = Some (r, m')"
  shows "\<exists>c b. m' = enter_kernel kern c b m \<and> c_rdx c = SYS_CALL \<and> c_r10 c = mr_or_0 mrs 0 \<and>
    c_rsi c = push_bit 12 (ucast label) OR push_bit 7 (of_nat (length caps)) OR of_nat (length mrs)"
proof -
  let ?c = "(cpu m)\<lparr> c_rdx := SYS_CALL, c_rdi := dest,
    c_rsi := push_bit 12 (ucast label) OR push_bit 7 (of_nat (length caps)) OR of_nat (length mrs),
    c_r10 := mr_or_0 mrs 0, c_r8 := mr_or_0 mrs 1, c_r9 := mr_or_0 mrs 2, c_r12 := 0, c_r13 := 0, c_r15 := mr_or_0 mrs 3 \<rparr>"
  have "\<exists>b. m' = enter_kernel kern ?c b m" using assms
    unfolding cap_invoke_with_extra_def seL4_syscall_with_caps_def seL4_syscall_enter Let_def by (auto split: if_splits)
  then show ?thesis by (elim exE) (rule exI [of _ ?c], rule exI, rule conjI, assumption, simp)
qed

lemma maps_only_call:
  assumes "maps_only kern ram" and "cap_invoke_with_extra kern dest label (v # mrs) [cap] m = Some (r, m')"
    and "drop_bit 12 (push_bit 12 (ucast label) OR push_bit 7 1 OR of_nat (Suc (length mrs)) :: usize) = l"
    and "l \<in> {1, 33, 35, 37} \<or> l = 41 \<and> page_floor a \<noteq> v"
  shows "load_byte ram m' a = load_byte ram m a"
proof -
  obtain c b where m': "m' = enter_kernel kern c b m" and c: "c_rdx c = SYS_CALL" "c_r10 c = v"
    "drop_bit 12 (c_rsi c) = l"
    using cap_invoke_with_extra_enters [OF assms(2)] assms(3) by (auto simp: mr_or_0_def)
  have "ld ram a (snd (snd (kern c b (world m)))) = ld ram a (world m)"
    using assms(1) unfolding maps_only_def by (rule allE [of _ c], elim allE [of _ b] allE [of _ "world m"] allE [of _ a])
      (use c assms(4) in simp)
  then show ?thesis unfolding m' load_enter_kernel by (simp add: load_byte_def)
qed

lemma put_char_mem:
  assumes "maps_only kern ram"
  shows "load_byte ram (seL4_DebugPutChar kern ch m) = load_byte ram m"
proof
  fix a
  have "seL4_DebugPutChar kern ch m = enter_kernel kern ((cpu m)\<lparr> c_rdx := SYS_DEBUG_PUT_CHAR, c_rdi := ucast ch \<rparr>) (ipc_buf m) m"
    by (simp add: seL4_DebugPutChar_def syscall_insn_def enter_kernel_def)
  then show "load_byte ram (seL4_DebugPutChar kern ch m) a = load_byte ram m a"
    using assms unfolding maps_only_def by (simp add: load_enter_kernel) (simp add: load_byte_def)
qed

lemma put_string_mem: "maps_only kern ram \<Longrightarrow> load_byte ram (seL4_DebugPutString kern bs m) = load_byte ram m"
  unfolding seL4_DebugPutString_def by (induction bs arbitrary: m) (simp_all add: put_char_mem)

lemma say_mem:
  assumes "maps_only kern ram" and "say_all kern items s = Some (r, s')"
  shows "load_byte ram (rt_machine s') = load_byte ram (rt_machine s)"
proof -
  have "load_byte ram (fold (\<lambda>x. case x of Inl txt \<Rightarrow> seL4_DebugPutString kern (str txt) | Inr v \<Rightarrow> print_hex kern v) items m) = load_byte ram m" for m
    by (induction items arbitrary: m) (simp_all add: put_string_mem [OF assms(1)] print_hex_string split: sum.splits)
  then show ?thesis using assms(2) by (auto simp: say_all_def put_def)
qed

lemma retype_mem:
  "maps_only kern ram \<Longrightarrow> retype kern ut ty bits slot n s = Some (r, s') \<Longrightarrow> load_byte ram (rt_machine s') = load_byte ram (rt_machine s)"
  by (auto simp: retype_def call_def seL4_Untyped_Retype_def fun_eq_iff split: option.splits intro: maps_only_call [where l = 1])

lemma map_frame_mem:
  "maps_only kern ram \<Longrightarrow> map_frame kern slot vs v s = Some (r, s') \<Longrightarrow> page_floor a \<noteq> v \<Longrightarrow>
   load_byte ram (rt_machine s') a = load_byte ram (rt_machine s) a"
  by (auto simp: map_frame_def call_def seL4_Frame_Map_def split: option.splits intro: maps_only_call [where l = 41])

lemma require_done: "require kern ok items s = Some (Some u, s') \<longleftrightarrow> ok \<and> s' = s"
  by (auto simp: require_def and_then_def leave_def split: option.splits)

text \<open>
  A loop whose body writes the page of its item: afterwards every page of an item has the contents the item gives it,
  and the rest of the memory is as before.
\<close>

lemma each_page:
  assumes step: "\<And>x v s v' s' a. x \<in> set xs \<Longrightarrow> f x v s = Some (Some v', s') \<Longrightarrow>
      load_byte ram (rt_machine s') a = (if page_floor a = pg x then content x a else load_byte ram (rt_machine s) a)"
    and "distinct (map pg xs)" and "each_with f xs v s = Some (Some v', s')"
  shows "(\<forall>x \<in> set xs. \<forall>a. page_floor a = pg x \<longrightarrow> load_byte ram (rt_machine s') a = content x a) \<and>
    (\<forall>a. page_floor a \<notin> pg ` set xs \<longrightarrow> load_byte ram (rt_machine s') a = load_byte ram (rt_machine s) a)"
  using assms
proof (induction xs arbitrary: v s)
  case (Cons x xs)
  from Cons.prems(3) obtain v1 s1 where x: "f x v s = Some (Some v1, s1)" "each_with f xs v1 s1 = Some (Some v', s')"
    by (auto simp: and_then_done)
  have ih: "(\<forall>x \<in> set xs. \<forall>a. page_floor a = pg x \<longrightarrow> load_byte ram (rt_machine s') a = content x a) \<and>
    (\<forall>a. page_floor a \<notin> pg ` set xs \<longrightarrow> load_byte ram (rt_machine s') a = load_byte ram (rt_machine s1) a)"
    using Cons.IH [OF Cons.prems(1) _ x(2)] Cons.prems(2) by simp
  have "load_byte ram (rt_machine s1) a = (if page_floor a = pg x then content x a else load_byte ram (rt_machine s) a)" for a
    using Cons.prems(1) [of x] x(1) by simp
  then show ?case using ih Cons.prems(2) by auto
qed simp

end
