(* ===== verification/Loader.thy ===== *)
theory Loader
  imports Runtime
begin

text \<open>
  The ELF loader of the layer (\<^verbatim>\<open>lcl/src/task/loader.rs\<close>): parsing the program headers, loading the segments into
  frames, and building a separate CSpace, VSpace and TCB for the child. Every step is the whole function of the
  source, its console output included.
\<close>

abbreviation newline :: "(string + usize)" where "newline \<equiv> Inl ''\<newline>''"

definition LOAD_BASE :: usize where "LOAD_BASE = 0x400000"
definition STACK_VADDR :: usize where "STACK_VADDR = 0xF10000"
definition STACK_PAGES :: nat where "STACK_PAGES = 4"
definition IPC_BUF_VADDR :: usize where "IPC_BUF_VADDR = 0xF11000"
definition TLS_BASE :: usize where "TLS_BASE = 0x720000"
definition CHILD_CNODE_BITS :: usize where "CHILD_CNODE_BITS = 12"
definition CHILD_CNODE_SLOTS :: usize where "CHILD_CNODE_SLOTS = push_bit 12 1"

record elf_segment =
  sg_vaddr :: usize
  sg_memsz :: usize
  sg_filesz :: usize
  sg_file_offset :: usize
  sg_flags :: u32

record loaded_elf =
  le_entry :: usize
  le_segments :: "elf_segment list"

section \<open>Parsing\<close>

fun parse_segments :: "bytes \<Rightarrow> usize \<Rightarrow> usize \<Rightarrow> nat list \<Rightarrow> elf_segment list option" where
  "parse_segments dat e_phoff e_phentsize [] = Some []"
| "parse_segments dat e_phoff e_phentsize (i # is) =
     (let ph_off = e_phoff + of_nat i * e_phentsize
      in if ph_off + 56 > of_nat (length dat) then Some []
         else do {
           p_type \<leftarrow> get_le dat (unat ph_off) 4;
           if p_type \<noteq> 1 then parse_segments dat e_phoff e_phentsize is
           else do {
             p_offset \<leftarrow> get_le dat (unat ph_off + 8) 8;
             p_vaddr \<leftarrow> get_le dat (unat ph_off + 16) 8;
             p_filesz \<leftarrow> get_le dat (unat ph_off + 32) 8;
             p_memsz \<leftarrow> get_le dat (unat ph_off + 40) 8;
             p_flags \<leftarrow> get_le dat (unat ph_off + 4) 4;
             rest \<leftarrow> parse_segments dat e_phoff e_phentsize is;
             Some (\<lparr> sg_vaddr = p_vaddr, sg_memsz = p_memsz, sg_filesz = p_filesz, sg_file_offset = p_offset,
                     sg_flags = ucast p_flags \<rparr> # rest)
           }
         })"

text \<open>The test that the loader and the runner start with.\<close>

definition elf64_header :: "bytes \<Rightarrow> bool" where
  "elf64_header dat \<longleftrightarrow> \<not> (length dat < 64 \<or> take 4 dat \<noteq> [0x7F, 0x45, 0x4C, 0x46] \<or> dat ! 4 \<noteq> 2)"

definition parse_elf :: "'k kernel \<Rightarrow> bytes \<Rightarrow> (loaded_elf, 'k) step" where
  "parse_elf kern dat =
     and_then (require kern (elf64_header dat) [Inl ''[loader] Invalid ELF header\<newline>'']) (\<lambda>_.
     and_then (panics (get_le dat 24 8)) (\<lambda>e_entry.
     and_then (panics (get_le dat 32 8)) (\<lambda>e_phoff.
     and_then (panics (get_le dat 54 2)) (\<lambda>e_phentsize.
     and_then (panics (get_le dat 56 2)) (\<lambda>e_phnum.
     and_then (panics (parse_segments dat e_phoff e_phentsize [0..<unat e_phnum])) (\<lambda>segs.
     give \<lparr> le_entry = e_entry, le_segments = segs \<rparr>))))))"

definition page_range :: "usize \<Rightarrow> usize \<Rightarrow> usize \<times> usize" where
  "page_range vaddr sz = (page_floor vaddr, page_ceil (vaddr + sz))"

section \<open>Loading\<close>

definition segment_pages :: "elf_segment \<Rightarrow> usize list" where
  "segment_pages seg = (let (a, b) = page_range (sg_vaddr seg) (sg_memsz seg) in page_steps a b)"

definition count_pages :: "elf_segment list \<Rightarrow> usize" where
  "count_pages segs = foldl (\<lambda>n seg. let (a, b) = page_range (sg_vaddr seg) (sg_memsz seg) in n + (b - a) div PAGE_SIZE) 0 segs"

text \<open>\<^verbatim>\<open>for _ in 0..n { let slot = sm.alloc()?; slots.push(slot); }\<close>\<close>

definition take_slots :: "nat \<Rightarrow> (usize list, 'k) step" where
  "take_slots n = each_with (\<lambda>_ slots. and_then take_slot (\<lambda>slot. give (slots @ [slot]))) [0..<n] []"

text \<open>The ordinary untyped objects, the largest first; the sort is stable.\<close>

fun collect_untyped :: "boot_info \<Rightarrow> nat list \<Rightarrow> (usize \<times> u8) list option" where
  "collect_untyped bi [] = Some []"
| "collect_untyped bi (i # is) =
     do {
       desc \<leftarrow> get_untyped_desc bi i;
       rest \<leftarrow> collect_untyped bi is;
       Some (if ud_is_device desc = 0 \<and> ud_size_bits desc \<ge> 12
             then (untyped_start bi + of_nat i, ud_size_bits desc) # rest else rest)
     }"

definition untyped_by_size :: "boot_info \<Rightarrow> (usize \<times> u8) list option" where
  "untyped_by_size bi =
     map_option (sort_key (\<lambda>(slot, bits). 255 - unat bits)) (collect_untyped bi [0..<unat (untyped_count bi)])"

text \<open>The inner loop: at most \<open>n\<close> frames from one untyped object, until it fails or all frames exist.\<close>

fun drain_untyped :: "'k kernel \<Rightarrow> usize \<Rightarrow> usize list \<Rightarrow> nat \<Rightarrow> nat \<Rightarrow> (nat, 'k) step" where
  "drain_untyped kern ut slots 0 k = give k"
| "drain_untyped kern ut slots (Suc n) k =
     (if k \<ge> length slots then give k
      else and_then (retype kern ut Frame4K 12 (slots ! k) 1) (\<lambda>err.
        if err \<noteq> 0 then give k else drain_untyped kern ut slots n (Suc k)))"

definition frames_of_size :: "u8 \<Rightarrow> nat" where
  "frames_of_size bits = unat (push_bit ((if bits \<ge> 12 then unat bits - 12 else 0) mod 64) 1 :: usize)"

text \<open>The outer loop; \<open>u\<close> counts the untyped objects used.\<close>

fun retype_frames :: "'k kernel \<Rightarrow> usize list \<Rightarrow> (usize \<times> u8) list \<Rightarrow> nat \<Rightarrow> nat \<Rightarrow> (nat \<times> nat, 'k) step" where
  "retype_frames kern slots [] k u = give (k, u)"
| "retype_frames kern slots ((ut, bits) # uts) k u =
     (if k < length slots
      then and_then (drain_untyped kern ut slots (frames_of_size bits) k) (\<lambda>k'. retype_frames kern slots uts k' (Suc u))
      else give (k, u))"

text \<open>The part of the file that belongs to a page, and how much of the page it fills.\<close>

definition page_data_range :: "elf_segment \<Rightarrow> usize \<Rightarrow> usize \<times> usize" where
  "page_data_range seg page_vaddr =
     (let offset_in_seg = page_vaddr - sg_vaddr seg;
          data_start = (if offset_in_seg < sg_filesz seg then sg_file_offset seg + offset_in_seg else 0);
          data_end = (if offset_in_seg < sg_filesz seg
                      then min (data_start + PAGE_SIZE) (sg_file_offset seg + sg_filesz seg) else 0)
      in (data_start, data_end))"

definition fill_page :: "'k ram \<Rightarrow> bytes \<Rightarrow> elf_segment \<Rightarrow> usize \<Rightarrow> 'k machine \<Rightarrow> 'k machine" where
  "fill_page ram dat seg page_vaddr m =
     (let (a, b) = page_data_range seg page_vaddr;
          m1 = (if a < b \<and> b \<le> of_nat (length dat)
                then store_bytes ram page_vaddr (take (unat b - unat a) (drop (unat a) dat)) m else m);
          copy_end = (if a < b then b - a else 0)
      in if copy_end < PAGE_SIZE
         then store_bytes ram (page_vaddr + copy_end) (replicate (unat (PAGE_SIZE - copy_end)) 0) m1 else m1)"

definition load_page ::
  "'k kernel \<Rightarrow> 'k ram \<Rightarrow> bytes \<Rightarrow> usize list \<Rightarrow> elf_segment \<times> usize \<Rightarrow> nat \<times> (usize, usize) btree \<Rightarrow>
   (nat \<times> (usize, usize) btree, 'k) step" where
  "load_page kern ram dat frame_slots sp ip =
     (let (seg, page_vaddr) = sp; (idx, page_map) = ip
      in and_then (panics (index frame_slots idx)) (\<lambda>frame_slot.
         and_then (map_frame kern frame_slot init_VSPACE page_vaddr) (\<lambda>err.
         and_then (require kern (err = 0) [Inl ''[loader] Map failed at 0x'', Inr page_vaddr, Inl '' err='', Inr err, newline]) (\<lambda>_.
         and_then (put (fill_page ram dat seg page_vaddr)) (\<lambda>_.
         give (Suc idx, bt_insert page_vaddr frame_slot page_map))))))"

definition load_elf_to_memory ::
  "'k kernel \<Rightarrow> 'k ram \<Rightarrow> boot_info \<Rightarrow> bytes \<Rightarrow> loaded_elf \<Rightarrow> ((usize, usize) btree, 'k) step" where
  "load_elf_to_memory kern ram bi dat loaded =
     (let total = count_pages (le_segments loaded)
      in and_then (say_all kern [Inl ''[loader] Need '', Inr total, Inl '' pages for ELF segments\<newline>'']) (\<lambda>_.
         and_then (take_slots (unat total)) (\<lambda>frame_slots.
         and_then (say_all kern [Inl ''[loader] Allocated '', Inr (of_nat (length frame_slots)), Inl '' frame slots\<newline>'']) (\<lambda>_.
         and_then (panics (untyped_by_size bi)) (\<lambda>untyped_list.
         and_then (say_all kern ([Inl ''[loader] Found '', Inr (of_nat (length untyped_list)), Inl '' untyped objects, largest size_bits=''] @
           (case untyped_list of [] \<Rightarrow> [] | (_, sz) # _ \<Rightarrow> [Inr (ucast sz)]) @ [newline])) (\<lambda>_.
         and_then (retype_frames kern frame_slots untyped_list 0 0) (\<lambda>(got, used).
         and_then (require kern (\<not> got < unat total) [Inl ''[loader] Out of untyped: got '', Inr (of_nat got), Inl '' of '', Inr total,
           Inl '' frames from '', Inr (of_nat used), Inl '' untyped objects\<newline>'']) (\<lambda>_.
         and_then (say_all kern [Inl ''[loader] Retyped all '', Inr total, Inl '' frames\<newline>'']) (\<lambda>_.
         and_then (each_with (load_page kern ram dat frame_slots)
           (concat (map (\<lambda>seg. map (Pair seg) (segment_pages seg)) (le_segments loaded))) (0, bt_empty)) (\<lambda>(idx, page_map).
         and_then (say_all kern [Inl ''[loader] Loaded '', Inr (of_nat idx), Inl '' pages\<newline>'']) (\<lambda>_.
         give page_map)))))))))))"

section \<open>The child's CSpace and VSpace\<close>

definition create_child_cspace :: "'k kernel \<Rightarrow> boot_info \<Rightarrow> (usize, 'k) step" where
  "create_child_cspace kern bi =
     and_then take_slot (\<lambda>cnode_slot.
     and_then (take_untyped bi (ucast CHILD_CNODE_BITS)) (\<lambda>ut.
     and_then (retype kern ut CNode CHILD_CNODE_BITS cnode_slot 1) (\<lambda>err.
     and_then (require kern (err = 0) [Inl ''[loader] CNode retype failed err='', Inr err, newline]) (\<lambda>_.
     and_then (say_all kern [Inl ''[loader] Child CSpace CNode at slot '', Inr cnode_slot, Inl '' ('', Inr CHILD_CNODE_SLOTS, Inl '' slots)\<newline>'']) (\<lambda>_.
     give cnode_slot)))))"

text \<open>A slot, a 4 KiB untyped object and its retyping, left with the given message on failure.\<close>

definition new_object :: "'k kernel \<Rightarrow> boot_info \<Rightarrow> object_type \<Rightarrow> (string + usize) list \<Rightarrow> (usize, 'k) step" where
  "new_object kern bi ty complaint =
     and_then take_slot (\<lambda>slot.
     and_then (take_untyped bi 12) (\<lambda>ut.
     and_then (retype kern ut ty 12 slot 1) (\<lambda>err.
     and_then (require kern (err = 0) complaint) (\<lambda>_.
     give slot))))"

text \<open>\<^verbatim>\<open>if !regions.contains(&r) { regions.push(r); }\<close> over all addresses, then \<^verbatim>\<open>sort\<close>.\<close>

definition regions :: "usize \<Rightarrow> usize list \<Rightarrow> usize list" where
  "regions msk vs = sort (foldl (\<lambda>rs v. if v AND NOT msk \<in> set rs then rs else rs @ [v AND NOT msk]) [] vs)"

definition map_tables :: "'k kernel \<Rightarrow> boot_info \<Rightarrow> usize \<Rightarrow> usize list \<Rightarrow> usize list \<Rightarrow> (unit, 'k) step" where
  "map_tables kern bi pml4 pds pts =
     and_then (each (\<lambda>region.
       and_then (new_object kern bi PageDirectory [Inl ''[loader] PD retype err\<newline>'']) (\<lambda>pd.
       and_then (call (seL4_PageDirectory_Map kern pd pml4 region 0)) (\<lambda>err.
       require kern (err = 0) [Inl ''[loader] PD map err\<newline>'']))) pds) (\<lambda>_.
     each (\<lambda>region.
       and_then (new_object kern bi PageTable [Inl ''[loader] PT retype err\<newline>'']) (\<lambda>pt.
       and_then (call (seL4_PageTable_Map kern pt pml4 region 0)) (\<lambda>err.
       require kern (err = 0) [Inl ''[loader] PT map err\<newline>'']))) pts)"

text \<open>A failed mapping of a loaded frame is reported and ignored.\<close>

definition map_loaded :: "'k kernel \<Rightarrow> usize \<Rightarrow> usize \<times> usize \<Rightarrow> (unit, 'k) step" where
  "map_loaded kern pml4 vf =
     (let (vaddr, frame_slot) = vf
      in and_then (map_frame kern frame_slot pml4 vaddr) (\<lambda>err.
         whenever (err \<noteq> 0) (say_all kern [Inl ''[loader] Frame map at 0x'', Inr vaddr, Inl '' failed err='', Inr err, newline])))"

definition map_stack_page :: "'k kernel \<Rightarrow> 'k ram \<Rightarrow> boot_info \<Rightarrow> usize \<Rightarrow> nat \<Rightarrow> (unit, 'k) step" where
  "map_stack_page kern ram bi pml4 i =
     (let stack_vaddr = STACK_VADDR + of_nat i * PAGE_SIZE
      in and_then (new_object kern bi Frame4K []) (\<lambda>frame_slot.
         and_then (map_frame kern frame_slot pml4 stack_vaddr) (\<lambda>err.
         and_then (require kern (err = 0) []) (\<lambda>_.
         put (zero_page ram stack_vaddr)))))"

text \<open>The bootstrap TLS block, which the runner writes too: the block points to itself, canaries are set.\<close>

definition init_tls :: "'k ram \<Rightarrow> usize \<Rightarrow> 'k machine \<Rightarrow> 'k machine" where
  "init_tls ram base m =
     store_word ram (base + 48) 0x4242424242424242
      (store_word ram (base + 40) 0x4141414141414141
        (store_word ram (base + 16) base
          (store_word ram base base
            (fold (\<lambda>i. store_word ram (base + of_nat i * 8) 0) [0..<512] m))))"

definition create_child_vspace :: "'k kernel \<Rightarrow> 'k ram \<Rightarrow> boot_info \<Rightarrow> (usize, usize) btree \<Rightarrow> (usize, 'k) step" where
  "create_child_vspace kern ram bi frames =
     and_then take_slot (\<lambda>pml4_slot.
     and_then (take_untyped bi 12) (\<lambda>ut.
     and_then (retype kern ut PML4 12 pml4_slot 1) (\<lambda>err.
     and_then (require kern (err = 0) [Inl ''[loader] PML4 retype failed err='', Inr err, newline]) (\<lambda>_.
     and_then (new_object kern bi PDPT [Inl ''[loader] PDPT retype err\<newline>'']) (\<lambda>pdpt_slot.
     and_then (call (seL4_PDPT_Map kern pdpt_slot pml4_slot 0 0)) (\<lambda>err.
     and_then (require kern (err = 0) [Inl ''[loader] PDPT map err='', Inr err, newline]) (\<lambda>_.
     and_then (map_tables kern bi pml4_slot (regions 0x3FFFFFFF (bt_keys frames)) (regions 0x1FFFFF (bt_keys frames))) (\<lambda>_.
     and_then (each (map_loaded kern pml4_slot) frames) (\<lambda>_.
     and_then (each (map_stack_page kern ram bi pml4_slot) [0..<STACK_PAGES]) (\<lambda>_.
     and_then (say_all kern [Inr STACK_VADDR, Inl '' ('', Inr (of_nat STACK_PAGES), Inl '' pages)\<newline>'']) (\<lambda>_.
     and_then (new_object kern bi Frame4K []) (\<lambda>tls_frame_slot.
     and_then (map_frame kern tls_frame_slot pml4_slot TLS_BASE) (\<lambda>err.
     and_then (require kern (err = 0) []) (\<lambda>_.
     and_then (put (init_tls ram TLS_BASE)) (\<lambda>_.
     and_then (say_all kern [Inl ''[loader] TLS at 0x'', Inr TLS_BASE, newline]) (\<lambda>_.
     and_then (say_all kern [Inl ''[loader] Child VSpace created, PML4 at slot '', Inr pml4_slot, newline]) (\<lambda>_.
     give pml4_slot)))))))))))))))))"

section \<open>The child's TCB\<close>

record child_task =
  ct_tcb :: usize
  ct_fault_ep :: usize
  ct_cnode :: usize
  ct_pml4 :: usize
  ct_ipc_frame :: usize

text \<open>The page image of an IPC buffer: 128 words and padding.\<close>

definition ipc_buffer_image :: "ipc_buffer \<Rightarrow> bytes" where
  "ipc_buffer_image b =
     concat (map (to_le 8) ([ib_tag b] @ msg b @ [user_data b] @ caps_or_badges b @ [receive_cnode b, receive_index b, receive_depth b])) @
     replicate 3072 0"

definition create_child_tcb :: "'k kernel \<Rightarrow> 'k ram \<Rightarrow> boot_info \<Rightarrow> usize \<Rightarrow> usize \<Rightarrow> (child_task, 'k) step" where
  "create_child_tcb kern ram bi cn pml4 =
     and_then take_slot (\<lambda>tcb_slot.
     and_then take_slot (\<lambda>fault_ep_slot.
     and_then take_slot (\<lambda>ipc_frame_slot.
     and_then (take_untyped bi (ucast (size_bits TCB))) (\<lambda>tcb_ut.
     and_then (retype kern tcb_ut TCB (size_bits TCB) tcb_slot 1) (\<lambda>err.
     and_then (require kern (err = 0) [Inl ''[loader] TCB retype failed err='', Inr err, newline]) (\<lambda>_.
     and_then (take_untyped bi (ucast (size_bits Endpoint))) (\<lambda>ep_ut.
     and_then (retype kern ep_ut Endpoint (size_bits Endpoint) fault_ep_slot 1) (\<lambda>err.
     and_then (require kern (err = 0) [Inl ''[loader] Fault EP retype failed err='', Inr err, newline]) (\<lambda>_.
     and_then (new_object kern bi PageTable []) (\<lambda>pt_slot.
     and_then (call (seL4_PageTable_Map kern pt_slot pml4 0xF00000 0)) (\<lambda>err.
     and_then (require kern (err = 0) [Inl ''[loader] PT map for IPC region failed err='', Inr err, newline]) (\<lambda>_.
     and_then (take_untyped bi 12) (\<lambda>ipc_ut.
     and_then (retype kern ipc_ut Frame4K 12 ipc_frame_slot 1) (\<lambda>err.
     and_then (require kern (err = 0) [Inl ''[loader] IPC frame retype failed err='', Inr err, newline]) (\<lambda>_.
     and_then (say_all kern [Inl ''[loader] IPC frame slot='', Inr ipc_frame_slot, Inl '' vspace='', Inr pml4, Inl '' vaddr=0x'',
       Inr IPC_BUF_VADDR, newline]) (\<lambda>_.
     and_then (map_frame kern ipc_frame_slot pml4 IPC_BUF_VADDR) (\<lambda>err.
     and_then (require kern (err = 0) [Inl ''[loader] IPC frame map failed err='', Inr err, newline]) (\<lambda>_.
     and_then (put (store_bytes ram IPC_BUF_VADDR (ipc_buffer_image (set_receive_slot ipc_buffer_new cn 0 64)))) (\<lambda>_.
     and_then (each (\<lambda>i.
       and_then (new_object kern bi Frame4K []) (\<lambda>stack_slot.
       and_then (map_frame kern stack_slot pml4 (STACK_VADDR + of_nat i * PAGE_SIZE)) (\<lambda>err.
       require kern (err = 0) []))) [0..<4]) (\<lambda>_.
     and_then (call (seL4_TCB_Configure kern tcb_slot fault_ep_slot cn 0 pml4 IPC_BUF_VADDR ipc_frame_slot)) (\<lambda>err.
     and_then (require kern (err = 0) [Inl ''[loader] TCB configure failed err='', Inr err, newline]) (\<lambda>_.
     and_then (call (seL4_TCB_SetSchedParams kern tcb_slot init_TCB 255 255)) (\<lambda>err.
     and_then (require kern (err = 0) [Inl ''[loader] SetSchedParams failed err='', Inr err, newline]) (\<lambda>_.
     and_then (say_all kern [Inl ''[loader] TCB at '', Inr tcb_slot, Inl '' fault_ep='', Inr fault_ep_slot, Inl '' ipc_frame='',
       Inr ipc_frame_slot, newline]) (\<lambda>_.
     give \<lparr> ct_tcb = tcb_slot, ct_fault_ep = fault_ep_slot, ct_cnode = cn, ct_pml4 = pml4, ct_ipc_frame = ipc_frame_slot \<rparr>)))))))))))))))))))))))))"

text \<open>The trampoline \<^verbatim>\<open>wrfsbase eax; movabs $entry, %rax; jmp *%rax\<close>.\<close>

definition trampoline :: "usize \<Rightarrow> bytes" where
  "trampoline entry = [0xf3, 0x0f, 0xae, 0xd0, 0x48, 0xb8] @ to_le 8 entry @ [0xff, 0xe0]"

definition child_frame :: "'k ram \<Rightarrow> usize \<Rightarrow> 'k machine \<Rightarrow> 'k machine" where
  "child_frame ram entry m =
     (let str_addr = STACK_VADDR + 512; rsp = STACK_VADDR + PAGE_SIZE - 64;
          m1 = store_bytes ram str_addr (str ''busybox'' @ [0]) m;
          m2 = store_word ram (rsp + 24) 0 (store_word ram (rsp + 16) 0 (store_word ram (rsp + 8) str_addr (store_word ram rsp 1 m1)))
      in store_bytes ram STACK_VADDR (trampoline entry) m2)"

definition start_child_task :: "'k kernel \<Rightarrow> 'k ram \<Rightarrow> child_task \<Rightarrow> usize \<Rightarrow> usize \<Rightarrow> (unit, 'k) step" where
  "start_child_task kern ram task entry tls_base =
     and_then (put (child_frame ram entry)) (\<lambda>_.
     and_then (call (seL4_TCB_WriteRegisters kern (ct_tcb task) True 0 18
       ([STACK_VADDR, STACK_VADDR + PAGE_SIZE - 64, 0x202, tls_base] @ replicate 14 0))) (\<lambda>err.
     if err \<noteq> 0 then say_all kern [Inl ''[loader] WriteRegisters failed err='', Inr err, newline]
     else say_all kern [Inl ''[loader] Child started: entry=0x'', Inr entry, Inl '' stack=0x'', Inr STACK_VADDR, Inl '' tls=0x'',
       Inr tls_base, newline]))"

section \<open>The loaded image\<close>

text \<open>The parser finds the same segments as the reference reading of the headers.\<close>

lemma parse_segments_exact:
  "parse_segments dat ph es is = Some segs \<Longrightarrow>
   map (\<lambda>sg. (sg_file_offset sg, sg_vaddr sg, sg_filesz sg, sg_memsz sg)) segs = pt_loads dat ph es is"
  by (induction "is" arbitrary: segs) (auto simp: Let_def dest!: get_le_field split: if_splits bind_splits)

text \<open>A segment that the loader can place: page aligned, inside the file, not at the end of the address space.\<close>

definition seg_ok :: "bytes \<Rightarrow> elf_segment \<Rightarrow> bool" where
  "seg_ok dat seg \<longleftrightarrow> page_floor (sg_vaddr seg) = sg_vaddr seg \<and> sg_filesz seg \<le> sg_memsz seg \<and>
     unat (sg_vaddr seg) + unat (sg_memsz seg) + 4096 < 2 ^ 64 \<and>
     unat (sg_file_offset seg) + unat (sg_filesz seg) \<le> length dat \<and> length dat < 2 ^ 63"

text \<open>The byte of a segment's image at an address.\<close>

definition seg_byte :: "bytes \<Rightarrow> elf_segment \<Rightarrow> usize \<Rightarrow> u8" where
  "seg_byte dat seg x =
     (let k = unat x - unat (sg_vaddr seg)
      in if k < unat (sg_filesz seg) then dat ! (unat (sg_file_offset seg) + k) else 0)"

text \<open>What a page of a segment holds: the file data that fall on it, then zeros.\<close>

definition page_file_len :: "elf_segment \<Rightarrow> usize \<Rightarrow> nat" where
  "page_file_len seg p = min 4096 (unat (sg_filesz seg) - (unat p - unat (sg_vaddr seg)))"

definition page_file_data :: "bytes \<Rightarrow> elf_segment \<Rightarrow> usize \<Rightarrow> bytes" where
  "page_file_data dat seg p = take (page_file_len seg p) (drop (unat (sg_file_offset seg) + (unat p - unat (sg_vaddr seg))) dat)"

lemma length_page_file_data: "seg_ok dat seg \<Longrightarrow> length (page_file_data dat seg p) = page_file_len seg p"
  by (auto simp: page_file_data_def page_file_len_def seg_ok_def word_le_nat_alt)

lemma page_data_range_nat:
  assumes ok: "seg_ok dat seg" and le: "unat (sg_vaddr seg) \<le> unat p" and pos: "0 < page_file_len seg p"
  obtains a b where "page_data_range seg p = (a, b)" and "unat a = unat (sg_file_offset seg) + (unat p - unat (sg_vaddr seg))"
    and "unat b = unat a + page_file_len seg p"
proof -
  define k where "k = unat p - unat (sg_vaddr seg)"
  let ?off = "unat (sg_file_offset seg)" and ?fs = "unat (sg_filesz seg)"
  have kw: "unat (p - sg_vaddr seg) = k" using le by (simp add: unat_minus_le word_le_nat_alt k_def)
  have fs: "?off + ?fs \<le> length dat" "length dat < 2 ^ 63" using ok by (simp_all add: seg_ok_def)
  have kf: "k < ?fs" using pos by (simp add: page_file_len_def k_def)
  let ?a = "sg_file_offset seg + (p - sg_vaddr seg)"
  have a: "unat ?a = ?off + k" using kf fs by (subst unat_plus_no_wrap) (simp_all add: kw)
  have "unat (?a + PAGE_SIZE) = ?off + k + 4096" using kf fs a by (subst unat_plus_no_wrap) (simp_all add: PAGE_SIZE_def)
  moreover have "unat (sg_file_offset seg + sg_filesz seg) = ?off + ?fs" using fs by (subst unat_plus_no_wrap) simp_all
  ultimately have "unat (min (?a + PAGE_SIZE) (sg_file_offset seg + sg_filesz seg)) = ?off + k + page_file_len seg p"
    using kf by (auto simp: page_file_len_def k_def [symmetric] min_def word_le_nat_alt)
  moreover have "p - sg_vaddr seg < sg_filesz seg" using kf by (simp add: word_less_nat_alt kw)
  ultimately show thesis using that a by (simp add: page_data_range_def Let_def k_def)
qed

lemma fill_page_store:
  assumes "ram_ok ram" and ok: "seg_ok dat seg" and le: "unat (sg_vaddr seg) \<le> unat p"
  shows "load_byte ram (fill_page ram dat seg p m) =
    mem_store (load_byte ram m) p (page_file_data dat seg p @ replicate (4096 - page_file_len seg p) 0)"
proof (cases "page_file_len seg p = 0")
  case True
  then have "unat (sg_filesz seg) \<le> unat (p - sg_vaddr seg)" using le by (simp add: page_file_len_def unat_minus_le word_le_nat_alt)
  then have "\<not> p - sg_vaddr seg < sg_filesz seg" by (simp add: word_less_nat_alt)
  then have "fill_page ram dat seg p m = store_bytes ram p (replicate 4096 0) m"
    by (simp add: fill_page_def page_data_range_def Let_def PAGE_SIZE_def)
  with True show ?thesis by (simp add: load_store_bytes [OF assms(1)] page_file_data_def)
next
  case False
  define n bs where "n = page_file_len seg p" and "bs = page_file_data dat seg p"
  have n: "0 < n" "n \<le> 4096" and len: "length bs = n"
    using False length_page_file_data [OF ok] by (simp_all add: n_def bs_def) (simp add: page_file_len_def)
  obtain a b where range: "page_data_range seg p = (a, b)" and a: "unat a = unat (sg_file_offset seg) + (unat p - unat (sg_vaddr seg))"
    and b: "unat b = unat a + n" using page_data_range_nat [OF ok le] n(1) unfolding n_def by metis
  have "unat b \<le> length dat" using len n(1) a b by (simp add: bs_def page_file_data_def n_def [symmetric])
  then have ab: "a < b" "b \<le> of_nat (length dat)" "unat (b - a) = n"
    using a b n ok by (simp_all add: word_less_nat_alt word_le_nat_alt unat_of_nat_small unat_minus_le seg_ok_def)
  have "fill_page ram dat seg p m = (if b - a < PAGE_SIZE
      then store_bytes ram (p + (b - a)) (replicate (unat (PAGE_SIZE - (b - a))) 0) (store_bytes ram p bs m) else store_bytes ram p bs m)"
    using ab(1,2) by (simp add: fill_page_def range Let_def b a bs_def page_file_data_def n_def)
  moreover have "b - a < PAGE_SIZE \<longleftrightarrow> n < 4096" by (simp add: word_less_nat_alt ab(3) PAGE_SIZE_def)
  moreover have "unat (PAGE_SIZE - (b - a)) = 4096 - n" if "n < 4096"
    using that ab(3) by (subst unat_minus_le) (simp_all add: word_le_nat_alt PAGE_SIZE_def)
  moreover have "b - a = of_nat n" using ab(3) by (metis of_nat_unat ucast_id)
  ultimately have "fill_page ram dat seg p m = store_bytes ram (p + of_nat n) (replicate (4096 - n) 0) (store_bytes ram p bs m)"
    using n(2) by (cases "n < 4096") auto
  then show ?thesis using mem_store_append [of bs "replicate (4096 - n) 0" "load_byte ram m" p] n len
    by (simp add: load_store_bytes [OF assms(1)] n_def bs_def)
qed

lemma fill_page_byte:
  assumes "ram_ok ram" and ok: "seg_ok dat seg" and al: "page_floor p = p" and le: "unat (sg_vaddr seg) \<le> unat p"
  shows "load_byte ram (fill_page ram dat seg p m) x = (if page_floor x = p then seg_byte dat seg x else load_byte ram m x)"
proof -
  let ?bs = "page_file_data dat seg p @ replicate (4096 - page_file_len seg p) 0"
  have len: "length ?bs = 4096" using length_page_file_data [OF ok, of p] by (simp add: page_file_len_def)
  have same: "unat (x - p) < 4096 \<longleftrightarrow> page_floor x = p"
    using same_page_iff [of p 4096 x] page_floor_offset [of p] page_offset_lt [of x] al by simp
  show ?thesis
  proof (cases "page_floor x = p")
    case True
    define k where "k = unat p - unat (sg_vaddr seg)"
    have "p \<le> x" using page_floor_le [of x] True by simp
    then have "unat x - unat (sg_vaddr seg) = k + unat (x - p)" using le by (simp add: unat_minus_le word_le_nat_alt k_def)
    moreover have "?bs ! unat (x - p) = (if k + unat (x - p) < unat (sg_filesz seg)
        then dat ! (unat (sg_file_offset seg) + (k + unat (x - p))) else 0)"
      using True same ok length_page_file_data [OF ok, of p]
      by (auto simp: page_file_data_def page_file_len_def k_def [symmetric] nth_append add.assoc seg_ok_def)
    ultimately show ?thesis using True same by (simp only: fill_page_store [OF assms(1) ok le] mem_store_def len seg_byte_def Let_def if_True simp_thms)
  qed (simp add: fill_page_store [OF assms(1) ok le] mem_store_def len [simplified] same)
qed

lemma load_page_byte:
  assumes "ram_ok ram" and "maps_only kern ram" and "seg_ok dat seg" and "p \<in> set (segment_pages seg)"
    and "load_page kern ram dat slots (seg, p) ip s = Some (Some ip', s')"
  shows "load_byte ram (rt_machine s') x = (if page_floor x = p then seg_byte dat seg x else load_byte ram (rt_machine s) x)"
proof -
  obtain idx pm where "ip = (idx, pm)" by (cases ip)
  with assms(5) obtain slot err s1 where s1: "map_frame kern slot init_VSPACE p s = Some (Some err, s1)"
    and s': "s' = s1\<lparr> rt_machine := fill_page ram dat seg p (rt_machine s1) \<rparr>"
    by (auto simp: load_page_def and_then_done require_done)
  have al: "page_floor (sg_vaddr seg) = sg_vaddr seg" using assms(3) by (simp add: seg_ok_def)
  then have "p \<in> set (page_steps (sg_vaddr seg) (page_ceil (sg_vaddr seg + sg_memsz seg)))"
    using assms(4) by (simp add: segment_pages_def page_range_def)
  then have b: "page_floor p = p" "unat (sg_vaddr seg) \<le> unat p" using in_page_steps [OF al page_ceil_aligned] by auto
  show ?thesis using fill_page_byte [OF assms(1,3) b, of "rt_machine s1" x] map_frame_mem [OF assms(2) s1, of x] by (auto simp: s')
qed

lemma steps_keep_mem:
  assumes "maps_only kern ram"
  shows "take_slots n s = Some (r, s') \<Longrightarrow> rt_machine s' = rt_machine s"
    and "retype_frames kern slots uts k u s = Some (r', s') \<Longrightarrow> load_byte ram (rt_machine s') = load_byte ram (rt_machine s)"
proof -
  have ts: "each_with (\<lambda>_ slots. and_then take_slot (\<lambda>slot. give (slots @ [slot]))) is acc s = Some (r, s') \<Longrightarrow> rt_machine s' = rt_machine s"
    for "is" acc s by (induction "is" arbitrary: acc s) (auto simp: and_then_def give_def take_slot_def split: option.splits prod.splits)
  then show "take_slots n s = Some (r, s') \<Longrightarrow> rt_machine s' = rt_machine s" by (simp add: take_slots_def)
  have drain: "drain_untyped kern ut slots n k s = Some (r, s') \<Longrightarrow> load_byte ram (rt_machine s') = load_byte ram (rt_machine s)"
    for ut n k s r s'
  proof (induction n arbitrary: k s)
    case (Suc n)
    then show ?case using retype_mem [OF assms, of ut Frame4K 12 "slots ! k" 1 s]
      by (auto simp: and_then_def give_def split: if_splits option.splits prod.splits)
  qed (simp add: give_def)
  show "retype_frames kern slots uts k u s = Some (r', s') \<Longrightarrow> load_byte ram (rt_machine s') = load_byte ram (rt_machine s)"
  proof (induction uts arbitrary: k u s)
    case (Cons x uts)
    obtain ut bits where "x = (ut, bits)" by (cases x)
    with Cons show ?case using drain [of ut "frames_of_size bits" k s]
      by (auto simp: and_then_def give_def split: if_splits option.splits prod.splits)
  qed (simp add: give_def)
qed

text \<open>
  C5. The loader builds the image of the program: when the segments are page aligned, lie in the file and share no page,
  a load that succeeds leaves in memory, over the whole memory size of every segment, the segment's file bytes followed by
  zeros, and changes no byte outside the segments' pages.
\<close>

theorem load_elf_to_memory_image:
  assumes "ram_ok ram" and "maps_only kern ram" and "\<forall>seg \<in> set (le_segments loaded). seg_ok dat seg"
    and "distinct (concat (map segment_pages (le_segments loaded)))"
    and "load_elf_to_memory kern ram bi dat loaded s = Some (Some frames, s')"
  shows "(\<forall>seg \<in> set (le_segments loaded). \<forall>x. page_floor x \<in> set (segment_pages seg) \<longrightarrow>
      load_byte ram (rt_machine s') x = seg_byte dat seg x) \<and>
    (\<forall>x. (\<forall>seg \<in> set (le_segments loaded). page_floor x \<notin> set (segment_pages seg)) \<longrightarrow>
      load_byte ram (rt_machine s') x = load_byte ram (rt_machine s) x)"
proof -
  let ?items = "concat (map (\<lambda>seg. map (Pair seg) (segment_pages seg)) (le_segments loaded))"
  from assms(5) obtain slots idx pm s1 s2 where
    before: "load_byte ram (rt_machine s1) = load_byte ram (rt_machine s)"
    and run: "each_with (load_page kern ram dat slots) ?items (0, bt_empty) s1 = Some (Some (idx, pm), s2)"
    and after: "load_byte ram (rt_machine s') = load_byte ram (rt_machine s2)"
    unfolding load_elf_to_memory_def Let_def
    by (auto simp: and_then_done require_done split: prod.splits dest!: say_mem [OF assms(2)] steps_keep_mem [OF assms(2)])
  have pages: "map snd ?items = concat (map segment_pages (le_segments loaded))" by (simp add: map_concat comp_def)
  have step: "load_byte ram (rt_machine s') a = (if page_floor a = snd x then seg_byte dat (fst x) a else load_byte ram (rt_machine s) a)"
    if "x \<in> set ?items" "load_page kern ram dat slots x v s = Some (Some v', s')" for x v s v' s' a
  proof -
    from that(1) obtain seg p where x: "x = (seg, p)" "seg \<in> set (le_segments loaded)" "p \<in> set (segment_pages seg)" by auto
    then show ?thesis using load_page_byte [OF assms(1,2) _ x(3), of dat slots v s v' s' a] assms(3) that(2) by simp
  qed
  have "(\<forall>x \<in> set ?items. \<forall>a. page_floor a = snd x \<longrightarrow> load_byte ram (rt_machine s2) a = seg_byte dat (fst x) a) \<and>
    (\<forall>a. page_floor a \<notin> snd ` set ?items \<longrightarrow> load_byte ram (rt_machine s2) a = load_byte ram (rt_machine s1) a)"
    by (rule each_page [where f = "load_page kern ram dat slots", OF step _ run]) (use assms(4) in \<open>simp_all add: pages\<close>)
  then show ?thesis unfolding before after by (auto simp: image_iff)
qed

text \<open>A kernel on which every call succeeds and memory is left alone, and a program of one small segment.\<close>

definition quiet_kernel :: "(usize \<Rightarrow> u8) kernel" where
  "quiet_kernel c b k = (c\<lparr> c_rsi := 0 \<rparr>, b, k)"

lemma quiet_maps_only: "maps_only quiet_kernel flat_ram"
  by (simp add: maps_only_def quiet_kernel_def)

definition quiet_rt :: "usize list \<Rightarrow> (usize \<Rightarrow> u8) rt" where
  "quiet_rt slots = \<lparr> rt_pool = \<lparr> op_recycled = slots \<rparr>,
     rt_machine = \<lparr> ipc_set = True, ipc_buf = ipc_buffer_new, cpu = zero_regs, world = (\<lambda>_. 0xFF) \<rparr> \<rparr>"

text \<open>The state after a step that only used the machine, whose buffer stays set.\<close>

definition ready :: "usize list \<Rightarrow> (usize \<Rightarrow> u8) rt \<Rightarrow> bool" where
  "ready slots s \<longleftrightarrow> op_recycled (rt_pool s) = slots \<and> ipc_set (rt_machine s)"

lemma quiet_put_char: "ipc_set (seL4_DebugPutChar quiet_kernel ch m) = ipc_set m"
  by (simp add: seL4_DebugPutChar_def syscall_insn_def quiet_kernel_def)

lemma quiet_put_string: "ipc_set (seL4_DebugPutString quiet_kernel bs m) = ipc_set m"
  unfolding seL4_DebugPutString_def by (induction bs arbitrary: m) (simp_all add: quiet_put_char)

lemma quiet_say: "ready slots s \<Longrightarrow> \<exists>s'. say_all quiet_kernel items s = Some (Some (), s') \<and> ready slots s'"
proof -
  have "ipc_set (fold (\<lambda>x. case x of Inl txt \<Rightarrow> seL4_DebugPutString quiet_kernel (str txt) | Inr v \<Rightarrow> print_hex quiet_kernel v) items m) = ipc_set m"
    for m by (induction items arbitrary: m) (simp_all add: quiet_put_string print_hex_string split: sum.splits)
  then show "ready slots s \<Longrightarrow> \<exists>s'. say_all quiet_kernel items s = Some (Some (), s') \<and> ready slots s'"
    by (simp add: say_all_def put_def ready_def)
qed

lemma quiet_invoke: "ipc_set m \<Longrightarrow> \<exists>m'. cap_invoke_with_extra quiet_kernel d l mrs caps m = Some (0, m') \<and> ipc_set m'"
  by (simp add: cap_invoke_with_extra_def seL4_syscall_with_caps_def seL4_syscall_def syscall_insn_def quiet_kernel_def Let_def)

lemma quiet_retype: "ready slots s \<Longrightarrow> \<exists>s'. retype quiet_kernel ut ty bits slot n s = Some (Some 0, s') \<and> ready slots s'"
proof -
  assume s: "ready slots s"
  then obtain m' where "cap_invoke_with_extra quiet_kernel ut 1 [object_type_word ty, bits, init_CNODE, 64, slot, n] [init_CNODE] (rt_machine s) = Some (0, m')"
    "ipc_set m'" using quiet_invoke [of "rt_machine s" ut 1] by (auto simp: ready_def)
  with s show ?thesis by (auto simp: retype_def seL4_Untyped_Retype_def ready_def)
qed

lemma quiet_map: "ready slots s \<Longrightarrow> \<exists>s'. map_frame quiet_kernel slot vs v s = Some (Some 0, s') \<and> ready slots s'"
proof -
  assume s: "ready slots s"
  then obtain m' where "cap_invoke_with_extra quiet_kernel slot 41 [v, cr_bits CapRights_ALL, 0] [vs] (rt_machine s) = Some (0, m')"
    "ipc_set m'" using quiet_invoke [of "rt_machine s" slot 41] by (auto simp: ready_def)
  with s show ?thesis by (auto simp: map_frame_def seL4_Frame_Map_def ready_def)
qed

lemma and_then_run:
  assumes "\<exists>s1. f s = Some (Some x, s1) \<and> P s1" and "\<And>s1. P s1 \<Longrightarrow> \<exists>s2. g x s1 = Some (Some y, s2) \<and> Q s2"
  shows "\<exists>s2. and_then f g s = Some (Some y, s2) \<and> Q s2"
  using assms by (auto simp: and_then_done)

lemma quiet_slots: "ready [a] s \<Longrightarrow> \<exists>s'. take_slots 1 s = Some (Some [a], s') \<and> ready [] s'"
  by (simp add: take_slots_def and_then_def take_slot_def op_alloc_def ready_def give_def upt_rec)

definition small_segment :: elf_segment where
  "small_segment = \<lparr> sg_vaddr = 0x400000, sg_memsz = 16, sg_filesz = 3, sg_file_offset = 1, sg_flags = 5 \<rparr>"

lemma small_segment_facts: "segment_pages small_segment = [0x400000]" "count_pages [small_segment] = 1" "seg_ok [9, 1, 2, 3] small_segment"
  by (simp_all add: segment_pages_def count_pages_def page_range_def small_segment_def page_floor_def page_ceil_def PAGE_SIZE_def
    page_steps_def seg_ok_def)

lemma sample_untyped: "untyped_by_size sample_boot_info = Some [(41, 24)]"
  by (simp add: untyped_by_size_def sample_boot_info_def untyped_count_def sr_count_def MAX_UNTYPED_CAPS_def untyped_start_def
    upt_rec index_def get_untyped_desc_def)

lemma one_frame: "retype_frames kern [50] [(41, 24)] 0 0 = and_then (retype kern 41 Frame4K 12 50 1) (\<lambda>err. give (if err = 0 then Suc 0 else 0, Suc 0))"
proof -
  have full: "drain_untyped kern ut [50] n (Suc 0) = give (Suc 0)" for ut n by (cases n) simp_all
  have drain: "drain_untyped kern 41 [50] (Suc n) 0 = and_then (retype kern 41 Frame4K 12 50 1) (\<lambda>err. give (if err = 0 then Suc 0 else 0))" for n
    by (auto simp: full intro!: arg_cong [where f = "and_then _"])
  show ?thesis using drain [of 4095] by (simp add: frames_of_size_def and_then_assoc)
qed

lemma fill_page_set: "ipc_set (fill_page ram dat seg p m) = ipc_set m"
  by (simp add: fill_page_def Let_def split: prod.splits)

theorem load_elf_to_memory_image_witness:
  "\<exists>frames s'. load_elf_to_memory quiet_kernel flat_ram sample_boot_info [9, 1, 2, 3] \<lparr> le_entry = 0, le_segments = [small_segment] \<rparr> (quiet_rt [50]) =
      Some (Some frames, s') \<and> load_byte flat_ram (rt_machine s') 0x400002 = 3 \<and> load_byte flat_ram (rt_machine s') 0x400003 = 0"
proof -
  let ?e = "\<lparr> le_entry = 0, le_segments = [small_segment] \<rparr>"
  have page: "\<exists>s'. load_page quiet_kernel flat_ram [9, 1, 2, 3] [50] (small_segment, 0x400000) (0, bt_empty) s =
      Some (Some (1, bt_insert 0x400000 50 bt_empty), s') \<and> ready [] s'" if "ready [] s" for s
    unfolding load_page_def Let_def prod.case
    by (rule and_then_run [where P = "ready []" and x = 50], simp add: panics_def index_def that,
        rule and_then_run [where P = "ready []", OF quiet_map], assumption)
      (simp add: require_def fill_page_set ready_def give_def)
  have "\<exists>s'. load_elf_to_memory quiet_kernel flat_ram sample_boot_info [9, 1, 2, 3] ?e (quiet_rt [50]) =
      Some (Some (bt_insert 0x400000 50 bt_empty), s') \<and> ready [] s'"
    unfolding load_elf_to_memory_def Let_def sample_untyped
    apply (simp only: small_segment_facts one_frame and_then_assoc loaded_elf.simps unat_1 list.map concat.simps append_Nil2)
    apply (rule and_then_run [where P = "ready [50]", OF quiet_say], simp add: ready_def quiet_rt_def)
    apply (rule and_then_run [where P = "ready []", OF quiet_slots], assumption)
    apply (rule and_then_run [where P = "ready []", OF quiet_say], assumption)
    apply (rule and_then_run [where P = "ready []" and x = "[(41, 24)]"], simp add: panics_def)
    apply (rule and_then_run [where P = "ready []", OF quiet_say], assumption)
    apply (simp only: one_frame and_then_assoc)
    apply (rule and_then_run [where P = "ready []", OF quiet_retype], assumption)
    apply (simp add: require_def)
    apply (rule and_then_run [where P = "ready []", OF quiet_say], assumption)
    apply (simp only: and_then_assoc)
    apply (rule and_then_run [where P = "ready []", OF page], assumption)
    apply simp
    apply (rule and_then_run [where P = "ready []", OF quiet_say], assumption)
    by (simp add: give_def)
  then obtain s' where run: "load_elf_to_memory quiet_kernel flat_ram sample_boot_info [9, 1, 2, 3] ?e (quiet_rt [50]) =
      Some (Some (bt_insert 0x400000 50 bt_empty), s')"
    by blast
  have "load_byte flat_ram (rt_machine s') x = seg_byte [9, 1, 2, 3] small_segment x" if "page_floor x = 0x400000" for x
    using load_elf_to_memory_image [OF flat_ram_ok quiet_maps_only _ _ run] small_segment_facts that by simp
  then show ?thesis using run by (intro exI [of _ "bt_insert 0x400000 50 bt_empty"] exI [of _ s'])
    (simp add: seg_byte_def small_segment_def page_floor_def PAGE_SIZE_def)
qed

section \<open>Two defects\<close>

text \<open>The second stack page is mapped where the IPC buffer goes.\<close>

lemma stack_page_is_ipc_buffer: "STACK_VADDR + of_nat 1 * PAGE_SIZE = IPC_BUF_VADDR"
  by (simp add: STACK_VADDR_def PAGE_SIZE_def IPC_BUF_VADDR_def)

text \<open>On the first page of a segment that does not start on a page boundary the offset wraps: none of its file bytes is copied.\<close>

lemma unaligned_first_page_lost:
  "page_data_range (small_segment\<lparr> sg_vaddr := 0x400100 \<rparr>) (page_floor 0x400100) = (0, 0)"
  by (simp add: page_data_range_def small_segment_def page_floor_def PAGE_SIZE_def)

end
