(* ===== verification/Runner.thy ===== *)
theory Runner
  imports Loader
begin

text \<open>
  The task runner (\<^verbatim>\<open>lcl/src/task/runner.rs\<close>), which starts a program in the address space of the root task: the plan of
  the pages of an unaligned program, their frames, the stack with its extra pages, the thread-local block, the initial
  stack of the Linux ABI and the registers. \<open>create_user_task\<close> is the whole function.

  The source walks the program headers four times. Every walk stops at the first header outside the file and reads
  inside the file only, so all see the list that \<open>parse_segments\<close> returns, and the first walk panics if any does.
\<close>

section \<open>The plan of the pages\<close>

definition lowest_vaddr :: "elf_segment list \<Rightarrow> usize" where
  "lowest_vaddr segs = foldl (\<lambda>low seg. if sg_vaddr seg < low then sg_vaddr seg else low) (- 1) segs"

definition pages_needed :: "elf_segment list \<Rightarrow> usize" where
  "pages_needed segs = foldl (\<lambda>n seg. n + (sg_memsz seg + PAGE_SIZE - 1) div PAGE_SIZE) 0 segs + 3"

text \<open>The part of the file inside one page: its offset in the file, its offset in the page, its length.\<close>

definition page_slice :: "usize \<Rightarrow> elf_segment \<Rightarrow> usize \<Rightarrow> usize \<times> usize \<times> usize" where
  "page_slice reloc seg page_vaddr =
     (let seg_start = sg_vaddr seg + reloc;
          seg_file_end = seg_start + sg_filesz seg;
          page_end = page_vaddr + PAGE_SIZE;
          copy_vstart = max seg_start page_vaddr;
          copy_vend = min seg_file_end page_end
      in if copy_vstart < copy_vend
         then (sg_file_offset seg + (copy_vstart - seg_start), copy_vstart - page_vaddr, copy_vend - copy_vstart)
         else (0, 0, 0))"

type_synonym page_entry = "usize \<times> usize \<times> usize \<times> usize"

text \<open>A page an earlier segment has recorded is skipped.\<close>

definition plan_page :: "usize \<Rightarrow> elf_segment \<Rightarrow> usize \<Rightarrow> page_entry list \<Rightarrow> page_entry list" where
  "plan_page reloc seg page_vaddr page_info =
     (if list_ex (\<lambda>(pv, _). pv = page_vaddr) page_info then page_info
      else page_info @ [(page_vaddr, page_slice reloc seg page_vaddr)])"

definition reloc_pages :: "usize \<Rightarrow> elf_segment \<Rightarrow> usize list" where
  "reloc_pages reloc seg =
     page_steps (page_floor (sg_vaddr seg + reloc)) (page_ceil (sg_vaddr seg + reloc + sg_memsz seg))"

definition page_plan :: "usize \<Rightarrow> elf_segment list \<Rightarrow> page_entry list" where
  "page_plan reloc segs = fold (\<lambda>seg. fold (plan_page reloc seg) (reloc_pages reloc seg)) segs []"

section \<open>Page tables and frames\<close>

text \<open>\<^verbatim>\<open>(a..b).step_by(0x200000)\<close>\<close>

definition region_steps :: "usize \<Rightarrow> usize \<Rightarrow> usize list" where
  "region_steps a b = map (\<lambda>k. a + of_nat k * 0x200000) [0..<(unat b - unat a + 0x1FFFFF) div 0x200000]"

definition map_region :: "'k kernel \<Rightarrow> boot_info \<Rightarrow> usize \<Rightarrow> usize list \<Rightarrow> (usize list, 'k) step" where
  "map_region kern bi region mapped_pts =
     (if region \<in> set mapped_pts then give mapped_pts
      else
        and_then (new_object kern bi PageTable [Inl ''[runner] PT extra retype failed\<newline>'']) (\<lambda>new_pt.
        and_then (call (seL4_PageTable_Map kern new_pt init_VSPACE region 0)) (\<lambda>err.
        and_then (whenever (err \<noteq> 0) (say_all kern [Inl ''[runner] PT map at 0x'', Inr region, Inl '': err='', Inr err, Inl '' (continuing)\<newline>''])) (\<lambda>_.
        give (mapped_pts @ [region])))))"

definition say_segment :: "'k kernel \<Rightarrow> usize \<Rightarrow> elf_segment \<Rightarrow> (unit, 'k) step" where
  "say_segment kern reloc seg =
     say_all kern [Inl ''[runner] PT_LOAD: 0x'', Inr (sg_vaddr seg), Inl '' -> 0x'', Inr (sg_vaddr seg + reloc),
       Inl '' filesz=0x'', Inr (sg_filesz seg), Inl '' memsz=0x'', Inr (sg_memsz seg), newline]"

definition map_segment_regions :: "'k kernel \<Rightarrow> boot_info \<Rightarrow> usize \<Rightarrow> elf_segment \<Rightarrow> usize list \<Rightarrow> (usize list, 'k) step" where
  "map_segment_regions kern bi reloc seg mapped_pts =
     (let relocated_start = sg_vaddr seg + reloc;
          relocated_end = relocated_start + sg_memsz seg
      in and_then (say_segment kern reloc seg) (\<lambda>_.
         each_with (map_region kern bi)
           (region_steps (relocated_start AND NOT 0x1FFFFF) ((relocated_end + 0x1FFFFF) AND NOT 0x1FFFFF)) mapped_pts))"

text \<open>\<^verbatim>\<open>match sm.alloc() { None => { print; return None } .. }\<close>\<close>

definition or_else :: "('a, 'k) step \<Rightarrow> ('a, 'k) step \<Rightarrow> ('a, 'k) step" where
  "or_else f g s = (case f s of Some (None, s') \<Rightarrow> g s' | r \<Rightarrow> r)"

definition MAX_RETYPE :: nat where "MAX_RETYPE = 256"

function retype_batches :: "'k kernel \<Rightarrow> usize \<Rightarrow> usize list \<Rightarrow> nat \<Rightarrow> (unit, 'k) step" where
  "retype_batches kern ut frame_slots frames_allocated =
     (if frames_allocated < length frame_slots
      then
        let batch_size = min (length frame_slots - frames_allocated) MAX_RETYPE;
            slot = frame_slots ! frames_allocated
        in and_then (say_all kern [Inl ''[runner] Retype batch: '', Inr (of_nat batch_size), Inl '' at slot '', Inr slot, newline]) (\<lambda>_.
           and_then (retype kern ut Frame4K (size_bits Frame4K) slot (of_nat batch_size)) (\<lambda>err.
           and_then (require kern (err = 0) [Inl ''[runner] Batch frame retype failed err='', Inr err, Inl '' batch='', Inr (of_nat batch_size),
             Inl '' offset='', Inr (of_nat frames_allocated), newline]) (\<lambda>_.
           retype_batches kern ut frame_slots (frames_allocated + batch_size))))
      else give ())"
  by auto
termination
  by (relation "measure (\<lambda>(kern, ut, slots, k). length slots - k)") (auto simp: MAX_RETYPE_def)

definition populate_page :: "'k kernel \<Rightarrow> 'k ram \<Rightarrow> bytes \<Rightarrow> usize list \<Rightarrow> page_entry \<Rightarrow> nat \<Rightarrow> (nat, 'k) step" where
  "populate_page kern ram dat frame_slots entry idx =
     (let (page_vaddr, file_off, copy_off_in_page, copy_len) = entry
      in and_then (panics (index frame_slots idx)) (\<lambda>frame_slot.
         and_then (map_frame kern frame_slot init_VSPACE page_vaddr) (\<lambda>err.
         and_then (require kern (err = 0) [Inl ''[runner] Frame map err at 0x'', Inr page_vaddr, Inl '' err='', Inr err, newline]) (\<lambda>_.
         and_then (put (zero_page ram page_vaddr)) (\<lambda>_.
         and_then (whenever (copy_len > 0 \<and> file_off + copy_len \<le> of_nat (length dat))
           (and_then (panics (sub_slice dat (unat file_off) (unat (file_off + copy_len)))) (\<lambda>bs.
            put (store_bytes ram (page_vaddr + copy_off_in_page) bs)))) (\<lambda>_.
         give (Suc idx)))))))"

section \<open>Patching\<close>

text \<open>An immediate operand of the entry code, moved by the relocation.\<close>

definition patch_imm :: "'k kernel \<Rightarrow> 'k ram \<Rightarrow> usize \<Rightarrow> string \<Rightarrow> usize \<Rightarrow> (unit, 'k) step" where
  "patch_imm kern ram reloc what imm_ptr =
     and_then (look (\<lambda>m. from_le (load_bytes ram m imm_ptr 4) :: u32)) (\<lambda>old_val.
     let new_val = old_val + ucast reloc
     in and_then (put (store_bytes ram imm_ptr (to_le 4 new_val))) (\<lambda>_.
        say_all kern [Inl (''[runner] Patched '' @ what @ '': 0x''), Inr (ucast old_val), Inl '' -> 0x'', Inr (ucast new_val), newline]))"

definition patch_busybox :: "'k kernel \<Rightarrow> 'k ram \<Rightarrow> usize \<Rightarrow> usize \<Rightarrow> (unit, 'k) step" where
  "patch_busybox kern ram e_entry lowest =
     (let patch_addr = LOAD_BASE + (e_entry - lowest); reloc = LOAD_BASE - lowest
      in whenever (e_entry = 0x4038b1)
        (and_then (patch_imm kern ram reloc ''main'' (patch_addr + (0x20 + 2))) (\<lambda>_.
         and_then (patch_imm kern ram reloc ''init'' (patch_addr + (0x26 + 1))) (\<lambda>_.
         patch_imm kern ram reloc ''fini'' (patch_addr + (0x2b + 1))))))"

section \<open>The initial stack\<close>

definition random_bytes :: bytes where
  "random_bytes = map (\<lambda>i. of_nat i XOR 0xA5) [0..<16]"

definition platform :: bytes where
  "platform = str ''x86_64'' @ [0]"

text \<open>The addresses of the argument strings, each below the one before, and the end of the data area.\<close>

fun place_args :: "usize \<Rightarrow> bytes list \<Rightarrow> usize \<times> usize list" where
  "place_args addr [] = (addr, [])"
| "place_args addr (arg # args) =
     (let a = addr - (of_nat (length arg) + 1);
          (e, as) = place_args a args
      in (e, a # as))"

definition auxv :: "usize \<Rightarrow> usize \<Rightarrow> usize \<Rightarrow> usize \<Rightarrow> usize \<Rightarrow> usize \<Rightarrow> (usize \<times> usize) list" where
  "auxv random_addr platform_addr at_entry at_phnum at_phent at_phdr =
     [(25, random_addr), (23, 0), (17, 100), (16, 0), (15, platform_addr), (14, 0), (13, 0), (12, 0), (11, 0),
      (9, at_entry), (7, 0), (6, PAGE_SIZE), (5, at_phnum), (4, at_phent), (3, at_phdr), (0, 0)]"

definition stack_words :: "usize list \<Rightarrow> (usize \<times> usize) list \<Rightarrow> usize list" where
  "stack_words argv aux = [of_nat (length argv)] @ argv @ [0] @ [0] @ concat (map (\<lambda>(t, v). [t, v]) aux)"

text \<open>\<^verbatim>\<open>push\<close> over the words of the array.\<close>

definition store_words :: "'k ram \<Rightarrow> usize \<Rightarrow> usize list \<Rightarrow> 'k machine \<Rightarrow> 'k machine" where
  "store_words ram a ws m = fold (\<lambda>i. store_word ram (a + of_nat i * 8) (ws ! i)) [0..<length ws] m"

definition default_args :: "bytes list \<Rightarrow> bytes list" where
  "default_args args = (if args = [] then [str ''busybox''] else args)"

text \<open>The data area, the array below it at a multiple of 16, and the stack pointer.\<close>

definition initial_stack ::
  "'k ram \<Rightarrow> bytes list \<Rightarrow> usize \<Rightarrow> usize \<Rightarrow> usize \<Rightarrow> usize \<Rightarrow> 'k machine \<Rightarrow> (usize \<times> usize list) \<times> 'k machine" where
  "initial_stack ram args at_entry e_phoff at_phent at_phnum m =
     (let random_addr = STACK_VADDR + PAGE_SIZE - 16;
          m1 = store_bytes ram random_addr random_bytes m;
          platform_addr = random_addr - of_nat (length platform);
          m2 = store_bytes ram platform_addr platform m1;
          (e, argv) = place_args platform_addr args;
          m3 = fold (\<lambda>(a, arg). store_bytes ram a (arg @ [0])) (zip argv args) m2;
          ws = stack_words argv (auxv random_addr platform_addr at_entry at_phnum at_phent (LOAD_BASE + e_phoff));
          rsp = (e - of_nat (length ws) * 8) AND NOT 0xF
      in ((rsp, argv), store_words ram rsp ws m3))"

section \<open>The stages of the function\<close>

text \<open>\<^verbatim>\<open>if err != 0 { print(text); print_hex(err); newline; return None }\<close>\<close>

abbreviation require_ok :: "'k kernel \<Rightarrow> string \<Rightarrow> usize \<Rightarrow> (unit, 'k) step" where
  "require_ok kern txt err \<equiv> require kern (err = 0) [Inl txt, Inr err, newline]"

definition rn_print_slots :: "'k kernel \<Rightarrow> slot_region \<Rightarrow> usize \<Rightarrow> usize \<Rightarrow> (unit, 'k) step" where
  "rn_print_slots kern empt tcb_slot fault_ep_slot =
     and_then (say_all kern [Inl ''[runner] Empty slots: '', Inr (sr_start empt), Inl ''..'', Inr (sr_end empt), newline]) (\<lambda>_.
     say_all kern [Inl ''[runner] fault_ep_slot='', Inr fault_ep_slot, Inl '' tcb_slot='', Inr tcb_slot, newline])"

text \<open>The slots after the six the runner keeps go to the pool, the smallest last.\<close>

definition give_pool :: "usize \<Rightarrow> usize \<Rightarrow> (unit, 'k) step" where
  "give_pool a b s =
     Some (Some (), s\<lparr> rt_pool := fold (\<lambda>i. extend_slot (a + of_nat i)) (rev [0..<unat b - unat a]) (rt_pool s) \<rparr>)"

text \<open>The page tables of the program and of the stack.\<close>

definition runner_tables :: "'k kernel \<Rightarrow> boot_info \<Rightarrow> usize \<Rightarrow> elf_segment list \<Rightarrow> usize \<Rightarrow> (unit, 'k) step" where
  "runner_tables kern bi reloc segs pt_stack_slot =
     and_then take_slot (\<lambda>pt_load_slot.
     and_then (take_untyped bi 12) (\<lambda>pt_untyped.
     and_then (retype kern pt_untyped PageTable (size_bits PageTable) pt_load_slot 1) (\<lambda>err.
     and_then (whenever (err \<noteq> 0) (say_all kern [Inl ''[runner] PT load retype failed err='', Inr err, newline])) (\<lambda>_.
     and_then (call (seL4_PageTable_Map kern pt_load_slot init_VSPACE LOAD_BASE 0)) (\<lambda>err.
     and_then (whenever (err \<noteq> 0) (say_all kern [Inl ''[runner] PT load map: err='', Inr err, Inl '' (continuing)\<newline>''])) (\<lambda>_.
     and_then (each_with (map_segment_regions kern bi reloc) segs [LOAD_BASE AND NOT 0x1FFFFF]) (\<lambda>_.
     and_then (take_untyped bi 12) (\<lambda>pt_stack_ut.
     and_then (retype kern pt_stack_ut PageTable (size_bits PageTable) pt_stack_slot 1) (\<lambda>err.
     and_then (require kern (err = 0) [Inl ''[runner] PT stack failed\<newline>'']) (\<lambda>_.
     and_then (call (seL4_PageTable_Map kern pt_stack_slot init_VSPACE 0xF00000 0)) (\<lambda>err.
     require kern (err = 0) [Inl ''[runner] PT stack map failed\<newline>''])))))))))))"

text \<open>The frames of the program and their contents.\<close>

definition runner_image :: "'k kernel \<Rightarrow> 'k ram \<Rightarrow> usize \<Rightarrow> bytes \<Rightarrow> usize \<Rightarrow> elf_segment list \<Rightarrow> (unit, 'k) step" where
  "runner_image kern ram big_untyped dat reloc segs =
     (let page_info = page_plan reloc segs; total = length page_info
      in and_then (each (say_segment kern reloc) segs) (\<lambda>_.
         and_then (say_all kern [Inl ''[runner] Total ELF pages: '', Inr (of_nat total), newline]) (\<lambda>_.
         and_then (or_else (take_slots total) (and_then (say_all kern [Inl ''[runner] No slots for frames\<newline>'']) (\<lambda>_. leave))) (\<lambda>frame_slots.
         and_then (panics (index frame_slots 0)) (\<lambda>first.
         and_then (say_all kern [Inl ''[runner] First frame slot: '', Inr first, Inl '' total: '', Inr (of_nat total), newline]) (\<lambda>_.
         and_then (retype_batches kern big_untyped frame_slots 0) (\<lambda>_.
         and_then (each_with (populate_page kern ram dat frame_slots) page_info 0) (\<lambda>segments_loaded.
         say_all kern [Inl ''[runner] Loaded '', Inr (of_nat segments_loaded), Inl '' pages\<newline>'']))))))))"

definition STACK_EXTRA_PAGES :: nat where "STACK_EXTRA_PAGES = 32"

text \<open>One of the pages below the stack; it is skipped when no untyped object is left.\<close>

definition extra_stack_page :: "'k kernel \<Rightarrow> 'k ram \<Rightarrow> boot_info \<Rightarrow> nat \<Rightarrow> (unit, 'k) step" where
  "extra_stack_page kern ram bi i =
     (let vaddr = STACK_VADDR - of_nat i * PAGE_SIZE
      in and_then (panics (find_free_untyped bi 12)) (\<lambda>found.
         case found of
           None \<Rightarrow> give ()
         | Some (ut, _) \<Rightarrow>
             and_then take_slot (\<lambda>slot.
             and_then (retype kern ut Frame4K (size_bits Frame4K) slot 1) (\<lambda>e.
             and_then (require kern (e = 0) [Inl ''[runner] extra stack retype fail\<newline>'']) (\<lambda>_.
             and_then (map_frame kern slot init_VSPACE vaddr) (\<lambda>e.
             and_then (require kern (e = 0) [Inl ''[runner] extra stack map fail\<newline>'']) (\<lambda>_.
             put (zero_page ram vaddr))))))))"

definition runner_stack :: "'k kernel \<Rightarrow> 'k ram \<Rightarrow> boot_info \<Rightarrow> usize \<Rightarrow> usize \<Rightarrow> (unit, 'k) step" where
  "runner_stack kern ram bi stack_frame_slot ipc_frame_slot =
     and_then (take_untyped bi 12) (\<lambda>stack_untyped.
     and_then (retype kern stack_untyped Frame4K (size_bits Frame4K) stack_frame_slot 1) (\<lambda>err.
     and_then (require_ok kern ''[runner] Stack frame failed err='' err) (\<lambda>_.
     and_then (map_frame kern stack_frame_slot init_VSPACE STACK_VADDR) (\<lambda>err.
     and_then (require kern (err = 0) [Inl ''[runner] Stack map failed err='', Inr err, Inl '' slot='', Inr stack_frame_slot,
       Inl '' vaddr=0x'', Inr STACK_VADDR, newline]) (\<lambda>_.
     and_then (say_all kern [Inl ''[runner] Stack mapped OK at 0x'', Inr STACK_VADDR, Inl '' slot='', Inr stack_frame_slot, newline]) (\<lambda>_.
     and_then (each (extra_stack_page kern ram bi) [1..<Suc STACK_EXTRA_PAGES]) (\<lambda>_.
     and_then (say_all kern [Inl ''[runner] Extra stack pages mapped\<newline>'']) (\<lambda>_.
     and_then (take_untyped bi 12) (\<lambda>ipc_untyped.
     and_then (retype kern ipc_untyped Frame4K (size_bits Frame4K) ipc_frame_slot 1) (\<lambda>err.
     and_then (require_ok kern ''[runner] IPC frame failed err='' err) (\<lambda>_.
     and_then (map_frame kern ipc_frame_slot init_VSPACE IPC_BUF_VADDR) (\<lambda>err.
     require kern (err = 0) [Inl ''[runner] IPC map failed\<newline>'']))))))))))))"

text \<open>A page for thread-local storage or for the trampoline: the untyped object is found before the slot is taken.\<close>

definition runner_page :: "'k kernel \<Rightarrow> 'k ram \<Rightarrow> boot_info \<Rightarrow> usize \<Rightarrow> string \<Rightarrow> string \<Rightarrow> (unit, 'k) step" where
  "runner_page kern ram bi vaddr what told =
     and_then (take_untyped bi 12) (\<lambda>ut.
     and_then take_slot (\<lambda>slot.
     and_then (retype kern ut Frame4K (size_bits Frame4K) slot 1) (\<lambda>err.
     and_then (require kern (err = 0) [Inl (''[runner] '' @ what @ '' frame failed\<newline>'')]) (\<lambda>_.
     and_then (map_frame kern slot init_VSPACE vaddr) (\<lambda>err.
     and_then (require kern (err = 0) [Inl (''[runner] '' @ what @ '' map failed\<newline>'')]) (\<lambda>_.
     and_then (put (zero_page ram vaddr)) (\<lambda>_.
     say_all kern [Inl (''[runner] '' @ told @ '' at 0x''), Inr vaddr, newline])))))))"

definition TRAMPOLINE_PAGE :: usize where "TRAMPOLINE_PAGE = 0x730000"

definition runner_start ::
  "'k kernel \<Rightarrow> 'k ram \<Rightarrow> boot_info \<Rightarrow> bytes list \<Rightarrow> usize \<Rightarrow> usize \<Rightarrow> usize \<Rightarrow> usize \<Rightarrow> usize \<Rightarrow> usize \<Rightarrow> usize \<Rightarrow> (unit, 'k) step" where
  "runner_start kern ram bi args entry e_phoff e_phentsize e_phnum tcb_slot fault_ep_slot ipc_frame_slot =
     and_then (call (seL4_TCB_Configure kern tcb_slot fault_ep_slot init_CNODE 0 init_VSPACE IPC_BUF_VADDR ipc_frame_slot)) (\<lambda>err.
     and_then (require_ok kern ''[runner] TCB configure failed err='' err) (\<lambda>_.
     and_then (call (seL4_TCB_SetSchedParams kern tcb_slot init_TCB 255 255)) (\<lambda>err.
     and_then (require kern (err = 0) [Inl ''[runner] Sched params failed\<newline>'']) (\<lambda>_.
     and_then (put (zero_page ram STACK_VADDR)) (\<lambda>_.
     and_then (runner_page kern ram bi TLS_BASE ''TLS'' ''TLS mapped'') (\<lambda>_.
     and_then (runner_page kern ram bi TRAMPOLINE_PAGE ''Trampoline'' ''Trampoline page'') (\<lambda>_.
     and_then (put (init_tls ram TLS_BASE)) (\<lambda>_.
     and_then (say_all kern [Inl ''[runner] TLS initialized at 0x'', Inr TLS_BASE, newline]) (\<lambda>_.
     and_then (look (initial_stack ram (default_args args) entry e_phoff e_phentsize e_phnum)) (\<lambda>((rsp, argv), m).
     and_then (put (\<lambda>_. m)) (\<lambda>_.
     and_then (say_all kern [Inl ''[runner] rsp=0x'', Inr rsp, Inl '' argc='', Inr (of_nat (length argv)), Inl '' argv0=0x'', Inr (argv ! 0), newline]) (\<lambda>_.
     and_then (call (seL4_TCB_SetTLSBase kern tcb_slot TLS_BASE)) (\<lambda>_.
     and_then (call (seL4_TCB_SetFlags kern tcb_slot 1 0)) (\<lambda>fe.
     and_then (whenever (fe \<noteq> 0) (say_all kern [Inl ''[runner] SetFlags(enable FPU) err='', Inr fe, newline])) (\<lambda>_.
     and_then (call (seL4_TCB_WriteRegisters kern tcb_slot True 0 18 ([entry, rsp, 0x202] @ replicate 15 0))) (\<lambda>err.
     and_then (require_ok kern ''[runner] WriteRegs failed err='' err) (\<lambda>_.
     say_all kern [Inl ''[runner] Task started!\<newline>''])))))))))))))))))"

definition create_user_task :: "'k kernel \<Rightarrow> 'k ram \<Rightarrow> boot_info \<Rightarrow> bytes \<Rightarrow> bytes list \<Rightarrow> (usize \<times> usize, 'k) step" where
  "create_user_task kern ram bi dat args =
     and_then (require kern (elf64_header dat) [Inl ''[runner] Invalid ELF\<newline>'']) (\<lambda>_.
     and_then (panics (get_le dat 24 8)) (\<lambda>e_entry.
     and_then (panics (get_le dat 32 8)) (\<lambda>e_phoff.
     and_then (panics (get_le dat 54 2)) (\<lambda>e_phentsize.
     and_then (panics (get_le dat 56 2)) (\<lambda>e_phnum.
     and_then (panics (parse_segments dat e_phoff e_phentsize [0..<unat e_phnum])) (\<lambda>segs.
     let lowest = lowest_vaddr segs; reloc = LOAD_BASE - lowest; entry = e_entry + reloc; empt = bi_empty bi;
         tcb_slot = sr_start empt; fault_ep_slot = tcb_slot + 1; stack_frame_slot = tcb_slot + 2;
         ipc_frame_slot = tcb_slot + 3; pt_stack_slot = tcb_slot + 5
     in and_then (require kern (lowest \<noteq> - 1) []) (\<lambda>_.
        and_then (say_all kern [Inl ''[runner] Entry=0x'', Inr e_entry, Inl '' -> 0x'', Inr entry, newline]) (\<lambda>_.
        and_then (say_all kern [Inl ''[runner] Pages needed: '', Inr (pages_needed segs), newline]) (\<lambda>_.
        and_then (take_untyped bi 21) (\<lambda>big_untyped.
        and_then (take_untyped bi 12) (\<lambda>small_untyped.
        and_then (rn_print_slots kern empt tcb_slot fault_ep_slot) (\<lambda>_.
        and_then (give_pool (tcb_slot + 6) (sr_end empt)) (\<lambda>_.
        and_then (retype kern small_untyped Endpoint (size_bits Endpoint) fault_ep_slot 1) (\<lambda>err.
        and_then (require_ok kern ''[runner] Endpoint failed err='' err) (\<lambda>_.
        and_then (retype kern small_untyped TCB (size_bits TCB) tcb_slot 1) (\<lambda>err.
        and_then (require kern (err = 0) [Inl ''[runner] TCB failed\<newline>'']) (\<lambda>_.
        and_then (runner_tables kern bi reloc segs pt_stack_slot) (\<lambda>_.
        and_then (runner_image kern ram big_untyped dat reloc segs) (\<lambda>_.
        and_then (patch_busybox kern ram e_entry lowest) (\<lambda>_.
        and_then (runner_stack kern ram bi stack_frame_slot ipc_frame_slot) (\<lambda>_.
        and_then (runner_start kern ram bi args entry e_phoff e_phentsize e_phnum tcb_slot fault_ep_slot ipc_frame_slot) (\<lambda>_.
        give (fault_ep_slot, tcb_slot)))))))))))))))))))))))"

section \<open>The loaded image\<close>

lemma mem_store_between:
  assumes "unat a + length bs \<le> 2 ^ 64"
  shows "mem_store M a bs x = (if unat a \<le> unat x \<and> unat x < unat a + length bs then bs ! (unat x - unat a) else M x)"
  using assms by (auto simp: mem_store_def unat_diff_cases)

lemma word_diff_nat: "(b :: usize) \<le> a \<Longrightarrow> a - b = of_nat (unat a - unat b)"
  by (metis unat_minus_le of_nat_unat ucast_id)

text \<open>A segment that the runner can place: inside the file, not at the end of the address space; it need not be aligned.\<close>

definition placeable :: "bytes \<Rightarrow> usize \<Rightarrow> elf_segment \<Rightarrow> bool" where
  "placeable dat reloc seg \<longleftrightarrow> sg_filesz seg \<le> sg_memsz seg \<and>
     unat (sg_vaddr seg + reloc) + unat (sg_memsz seg) + 4096 < 2 ^ 64 \<and>
     unat (sg_file_offset seg) + unat (sg_filesz seg) \<le> length dat \<and> length dat < 2 ^ 63"

definition placed_byte :: "bytes \<Rightarrow> usize \<Rightarrow> elf_segment \<Rightarrow> usize \<Rightarrow> u8" where
  "placed_byte dat reloc seg x =
     (let start = unat (sg_vaddr seg + reloc)
      in if start \<le> unat x \<and> unat x < start + unat (sg_filesz seg) then dat ! (unat (sg_file_offset seg) + (unat x - start)) else 0)"

lemma page_slice_nat:
  assumes "placeable dat reloc seg" and "unat p + 4096 < 2 ^ 64"
    and v: "V = unat (sg_vaddr seg + reloc)" "F = unat (sg_filesz seg)" "P = unat p"
  shows "page_slice reloc seg p =
    (if max V P < min (V + F) (P + 4096)
     then (sg_file_offset seg + of_nat (max V P - V), of_nat (max V P - P), of_nat (min (V + F) (P + 4096) - max V P))
     else (0, 0, 0))"
proof -
  let ?v = "sg_vaddr seg + reloc" and ?vs = "max (sg_vaddr seg + reloc) p" and ?ve = "min (sg_vaddr seg + reloc + sg_filesz seg) (p + PAGE_SIZE)"
  have "unat ?v + unat (sg_filesz seg) < 2 ^ 64" using assms(1) by (simp add: placeable_def word_le_nat_alt)
  then have "unat (?v + sg_filesz seg) = V + F" using v by (simp add: unat_plus_no_wrap)
  moreover have "unat (p + PAGE_SIZE) = P + 4096" using assms(2) v by (subst unat_plus_no_wrap) simp_all
  ultimately have e: "unat ?ve = min (V + F) (P + 4096)" by (auto simp: min_def word_le_nat_alt)
  have s: "unat ?vs = max V P" using v by (auto simp: max_def word_le_nat_alt)
  have "?vs - ?v = of_nat (max V P - V)" "?vs - p = of_nat (max V P - P)" using s v by (simp_all add: word_diff_nat)
  moreover have "?ve - ?vs = of_nat (min (V + F) (P + 4096) - max V P)" if "?vs < ?ve"
    using word_diff_nat [OF less_imp_le [OF that]] by (simp only: e s)
  moreover have "?vs < ?ve \<longleftrightarrow> max V P < min (V + F) (P + 4096)" by (simp only: word_less_nat_alt e s)
  ultimately show ?thesis unfolding page_slice_def Let_def by (auto simp del: max_less_iff_conj min_less_iff_conj)
qed

lemma page_floor_eq_iff:
  assumes "page_floor p = p"
  shows "page_floor x = p \<longleftrightarrow> unat p \<le> unat x \<and> unat x < unat p + 4096"
proof
  assume "page_floor x = p"
  then show "unat p \<le> unat x \<and> unat x < unat p + 4096" using page_split [of x] mod_less_divisor [of 4096 "unat x"] by simp
next
  have d: "unat p = unat p div 4096 * 4096" using assms unat_page_floor [of p] by simp
  assume "unat p \<le> unat x \<and> unat x < unat p + 4096"
  then have "unat x div 4096 = unat p div 4096" using d by (intro div_nat_eqI) simp_all
  then show "page_floor x = p" using d by (simp add: word_unat_eq_iff unat_page_floor)
qed

text \<open>
  The memory after a page was filled: \<open>V\<close> and \<open>F\<close> are the start and the file size of the segment, \<open>P\<close> the page, and the file
  data that fall on the page are copied over zeros.
\<close>

definition page_filled :: "bytes \<Rightarrow> nat \<Rightarrow> nat \<Rightarrow> nat \<Rightarrow> usize \<Rightarrow> (usize \<Rightarrow> u8) \<Rightarrow> usize \<Rightarrow> u8" where
  "page_filled dat off V F p M =
     (let P = unat p; lo = max V P; hi = min (V + F) (P + 4096); Z = mem_store M p (replicate 4096 0)
      in if lo < hi then mem_store Z (of_nat lo) (take (hi - lo) (drop (off + (lo - V)) dat)) else Z)"

lemma page_filled_byte:
  assumes "V + F < 2 ^ 64" and "unat p + 4096 < 2 ^ 64" and "off + F \<le> length dat"
  shows "page_filled dat off V F p M x =
    (if unat p \<le> unat x \<and> unat x < unat p + 4096 then (if V \<le> unat x \<and> unat x < V + F then dat ! (off + (unat x - V)) else 0) else M x)"
proof -
  define lo hi where lh: "lo = max V (unat p)" "hi = min (V + F) (unat p + 4096)"
  let ?Z = "mem_store M p (replicate 4096 0)" and ?bs = "take (hi - lo) (drop (off + (lo - V)) dat)"
  have Z: "?Z x = (if unat p \<le> unat x \<and> unat x < unat p + 4096 then 0 else M x)" using assms(2) by (auto simp: mem_store_between)
  show ?thesis
  proof (cases "lo < hi")
    case True
    have w: "unat (of_nat lo :: usize) = lo" using assms(1,2) True by (intro unat_of_nat_small) (simp add: lh)
    have len: "length ?bs = hi - lo" using True assms(3) by (auto simp: lh)
    have "mem_store ?Z (of_nat lo) ?bs x = (if lo \<le> unat x \<and> unat x < hi then ?bs ! (unat x - lo) else ?Z x)"
    proof (subst mem_store_between)
      show "unat (of_nat lo :: usize) + length ?bs \<le> 2 ^ 64" unfolding w len using True assms(1) by (simp add: lh)
      show "(if unat (of_nat lo :: usize) \<le> unat x \<and> unat x < unat (of_nat lo :: usize) + length ?bs then ?bs ! (unat x - unat (of_nat lo :: usize)) else ?Z x) =
        (if lo \<le> unat x \<and> unat x < hi then ?bs ! (unat x - lo) else ?Z x)" unfolding w len using True by simp
    qed
    moreover have "?bs ! (unat x - lo) = dat ! (off + (unat x - V))" if x: "lo \<le> unat x" "unat x < hi"
    proof -
      have "unat x - lo < hi - lo" "off + (lo - V) \<le> length dat" "off + (lo - V) + (unat x - lo) = off + (unat x - V)"
        using x True assms(3) by (auto simp: lh)
      then show ?thesis by (simp only: nth_take nth_drop)
    qed
    ultimately show ?thesis using True Z by (auto simp: page_filled_def Let_def lh)
  next
    case False
    then show ?thesis using Z by (auto simp: page_filled_def Let_def lh)
  qed
qed

lemma populate_page_store:
  assumes "ram_ok ram" and ok: "placeable dat reloc seg" and p: "unat p + 4096 < 2 ^ 64"
    and run: "populate_page kern ram dat slots (p, page_slice reloc seg p) idx s = Some (Some idx', s')"
  obtains slot err s1 where "map_frame kern slot init_VSPACE p s = Some (Some err, s1)"
    and "load_byte ram (rt_machine s') =
      page_filled dat (unat (sg_file_offset seg)) (unat (sg_vaddr seg + reloc)) (unat (sg_filesz seg)) p (load_byte ram (rt_machine s1))"
proof -
  define V F P where v: "V = unat (sg_vaddr seg + reloc)" "F = unat (sg_filesz seg)" "P = unat p"
  define d q n where dq: "d = max V P - V" "q = max V P - P" "n = min (V + F) (P + 4096) - max V P"
  let ?off = "unat (sg_file_offset seg) + d"
  have b: "?off + n \<le> length dat \<or> n = 0" "length dat < 2 ^ 63" using ok by (auto simp: placeable_def dq v)
  have sl: "page_slice reloc seg p = (if max V P < min (V + F) (P + 4096)
     then (sg_file_offset seg + of_nat d, of_nat q, of_nat n) else (0, 0, 0))"
    unfolding dq by (rule page_slice_nat [OF ok p v])
  show thesis
  proof (cases "max V P < min (V + F) (P + 4096)")
    case True
    then have n: "0 < n" "?off + n \<le> length dat" "n \<le> 4096" using b by (auto simp: dq)
    have o: "unat (sg_file_offset seg + of_nat d) = ?off"
      using n b by (subst unat_plus_no_wrap) (simp_all add: unat_of_nat_small)
    moreover have "unat (sg_file_offset seg + of_nat d + of_nat n) = ?off + n"
      using n b o by (subst unat_plus_no_wrap) (simp_all add: unat_of_nat_small)
    moreover have "(of_nat n :: usize) > 0" using n by (simp add: word_less_nat_alt unat_of_nat_small)
    moreover have "p + of_nat q = of_nat (max V P)" using v(3) by (simp add: dq of_nat_diff)
    ultimately show ?thesis using run True that n b unfolding populate_page_def sl page_filled_def v [symmetric] Let_def dq(1,3) [symmetric]
      by (auto simp: and_then_done require_done whenever_def word_le_nat_alt unat_of_nat_small sub_slice_def zero_page_def
        load_store_bytes [OF assms(1)] split: if_splits)
  next
    case False
    then show ?thesis using run that unfolding populate_page_def sl page_filled_def v [symmetric] Let_def
      by (auto simp: and_then_done require_done whenever_def zero_page_def load_store_bytes [OF assms(1)])
  qed
qed

lemma populate_page_byte:
  assumes "ram_ok ram" and "maps_only kern ram" and "placeable dat reloc seg" and "unat p + 4096 < 2 ^ 64" and "page_floor p = p"
    and "populate_page kern ram dat slots (p, page_slice reloc seg p) idx s = Some (Some idx', s')"
  shows "load_byte ram (rt_machine s') x = (if page_floor x = p then placed_byte dat reloc seg x else load_byte ram (rt_machine s) x)"
proof -
  obtain slot err s1 where s1: "map_frame kern slot init_VSPACE p s = Some (Some err, s1)"
    and s': "load_byte ram (rt_machine s') =
      page_filled dat (unat (sg_file_offset seg)) (unat (sg_vaddr seg + reloc)) (unat (sg_filesz seg)) p (load_byte ram (rt_machine s1))"
    using populate_page_store [OF assms(1,3,4,6)] .
  have "unat (sg_vaddr seg + reloc) + unat (sg_filesz seg) < 2 ^ 64" "unat (sg_file_offset seg) + unat (sg_filesz seg) \<le> length dat"
    using assms(3) by (auto simp: placeable_def word_le_nat_alt)
  from page_filled_byte [OF this(1) assms(4) this(2)] show ?thesis using map_frame_mem [OF assms(2) s1, of x]
    unfolding s' page_floor_eq_iff [OF assms(5)] placed_byte_def Let_def by simp
qed

text \<open>The plan never lists a page twice; when no page is shared it lists the pages of the segments in order.\<close>

lemma plan_page_distinct: "distinct (map fst plan) \<Longrightarrow> distinct (map fst (plan_page reloc seg p plan))"
  by (auto simp: plan_page_def list_ex_iff)

lemma page_plan_distinct: "distinct (map fst (page_plan reloc segs))"
proof -
  have ps: "distinct (map fst plan) \<Longrightarrow> distinct (map fst (fold (plan_page reloc seg) ps plan))" for ps plan seg
    by (induction ps arbitrary: plan) (simp_all add: plan_page_distinct)
  have "distinct (map fst plan) \<Longrightarrow> distinct (map fst (fold (\<lambda>seg. fold (plan_page reloc seg) (reloc_pages reloc seg)) segs plan))" for plan
    by (induction segs arbitrary: plan) (simp_all add: ps)
  then show ?thesis by (simp add: page_plan_def)
qed

lemma plan_pages_fresh:
  "distinct ps \<Longrightarrow> set ps \<inter> fst ` set plan = {} \<Longrightarrow>
   fold (plan_page reloc seg) ps plan = plan @ map (\<lambda>p. (p, page_slice reloc seg p)) ps"
  by (induction ps arbitrary: plan) (auto simp: plan_page_def list_ex_iff image_iff)

lemma page_plan_concat:
  assumes "distinct (concat (map (reloc_pages reloc) segs))"
  shows "page_plan reloc segs = concat (map (\<lambda>seg. map (\<lambda>p. (p, page_slice reloc seg p)) (reloc_pages reloc seg)) segs)"
proof -
  have "distinct (concat (map (reloc_pages reloc) segs)) \<Longrightarrow>
      fst ` set plan \<inter> set (concat (map (reloc_pages reloc) segs)) = {} \<Longrightarrow>
      fold (\<lambda>seg. fold (plan_page reloc seg) (reloc_pages reloc seg)) segs plan =
      plan @ concat (map (\<lambda>seg. map (\<lambda>p. (p, page_slice reloc seg p)) (reloc_pages reloc seg)) segs)" for plan
  proof (induction segs arbitrary: plan)
    case (Cons seg segs)
    from Cons.prems have "fold (plan_page reloc seg) (reloc_pages reloc seg) plan =
        plan @ map (\<lambda>p. (p, page_slice reloc seg p)) (reloc_pages reloc seg)"
      by (intro plan_pages_fresh) auto
    then show ?case using Cons.prems by (subst fold_Cons, unfold comp_def, subst Cons.IH) (auto simp: image_Un image_image)
  qed simp
  then show ?thesis using assms by (simp add: page_plan_def)
qed

lemma distinct_concat_owner:
  "distinct (concat (map g xs)) \<Longrightarrow> x \<in> set xs \<Longrightarrow> y \<in> set xs \<Longrightarrow> p \<in> set (g x) \<Longrightarrow> p \<in> set (g y) \<Longrightarrow> x = y"
  by (induction xs) auto

lemma reloc_pages_bounds:
  assumes "placeable dat reloc seg" and "p \<in> set (reloc_pages reloc seg)"
  shows "page_floor p = p" and "unat p + 4096 < 2 ^ 64"
proof -
  let ?e = "sg_vaddr seg + reloc + sg_memsz seg"
  have b: "unat (sg_vaddr seg + reloc) + unat (sg_memsz seg) + 4096 < 2 ^ 64" using assms(1) by (simp add: placeable_def)
  then have e: "unat ?e = unat (sg_vaddr seg + reloc) + unat (sg_memsz seg)" by (subst unat_plus_no_wrap) simp_all
  have p: "page_floor p = p" "unat p < unat (page_ceil ?e)"
    using assms(2) in_page_steps [OF page_floor_idem page_ceil_aligned] by (auto simp: reloc_pages_def)
  then show "page_floor p = p" by simp
  have c: "unat (page_ceil ?e) = (unat ?e + 4095) div 4096 * 4096" using b e by (intro unat_page_ceil) simp
  have "unat p = unat p div 4096 * 4096" using p(1) unat_page_floor [of p] by simp
  moreover from this have "Suc (unat p div 4096) \<le> (unat ?e + 4095) div 4096" using p(2) unfolding c by linarith
  ultimately have "unat p + 4096 \<le> unat (page_ceil ?e)" unfolding c by linarith
  then show "unat p + 4096 < 2 ^ 64" using page_ceil_bounds(2) [of ?e] b e by simp
qed

declare retype_batches.simps [simp del]

lemma or_else_done: "or_else f (and_then g (\<lambda>_. leave)) s = Some (Some y, s') \<longleftrightarrow> f s = Some (Some y, s')"
  by (auto simp: or_else_def and_then_def leave_def split: option.splits prod.splits)

lemma batches_keep_mem:
  assumes "maps_only kern ram"
  shows "retype_batches kern ut slots k s = Some (Some u, s') \<Longrightarrow> load_byte ram (rt_machine s') = load_byte ram (rt_machine s)"
proof (induction "length slots - k" arbitrary: k s rule: less_induct)
  case less
  let ?b = "min (length slots - k) MAX_RETYPE"
  show ?case
  proof (cases "k < length slots")
    case True
    then have "length slots - (k + ?b) < length slots - k" by (simp add: MAX_RETYPE_def)
    note ih = less.hyps [OF this]
    have "retype_batches kern ut slots k s = Some (Some u, s')" by (rule less.prems)
    with True ih show ?thesis unfolding retype_batches.simps [of kern ut slots k]
      by (fastforce simp: Let_def and_then_done require_done dest: say_mem [OF assms] retype_mem [OF assms])
  next
    case False
    then show ?thesis using less.prems unfolding retype_batches.simps [of kern ut slots k] by simp
  qed
qed

text \<open>
  C6. The runner builds the image of a program whose segments need not be aligned: when the segments lie in the file and
  share no page, a run of the loading stage that succeeds leaves in every page of a segment the segment's file bytes at
  their relocated addresses and zeros around them, and changes no other byte.
\<close>

theorem runner_image_exact:
  assumes "ram_ok ram" and "maps_only kern ram" and "\<forall>seg \<in> set segs. placeable dat reloc seg"
    and "distinct (concat (map (reloc_pages reloc) segs))" and "runner_image kern ram ut dat reloc segs s = Some (Some (), s')"
  shows "(\<forall>seg \<in> set segs. \<forall>x. page_floor x \<in> set (reloc_pages reloc seg) \<longrightarrow>
      load_byte ram (rt_machine s') x = placed_byte dat reloc seg x) \<and>
    (\<forall>x. (\<forall>seg \<in> set segs. page_floor x \<notin> set (reloc_pages reloc seg)) \<longrightarrow>
      load_byte ram (rt_machine s') x = load_byte ram (rt_machine s) x)"
proof -
  let ?plan = "page_plan reloc segs" and ?owner = "\<lambda>p. SOME seg. seg \<in> set segs \<and> p \<in> set (reloc_pages reloc seg)"
  have owner: "?owner p = seg" if "seg \<in> set segs" "p \<in> set (reloc_pages reloc seg)" for p seg
    using that distinct_concat_owner [OF assms(4)] by (intro some_equality) auto
  have says: "load_byte ram (rt_machine s') = load_byte ram (rt_machine s)" if "each (say_segment kern reloc) xs s = Some (Some u, s')" for xs u s s'
    using that by (induction xs arbitrary: s) (auto simp: and_then_done say_segment_def dest!: say_mem [OF assms(2)])
  from assms(5) obtain slots n s1 s2 where
    before: "load_byte ram (rt_machine s1) = load_byte ram (rt_machine s)"
    and run: "each_with (populate_page kern ram dat slots) ?plan 0 s1 = Some (Some n, s2)"
    and after: "load_byte ram (rt_machine s') = load_byte ram (rt_machine s2)"
    unfolding runner_image_def Let_def
    by (auto simp: and_then_done or_else_done dest!: says say_mem [OF assms(2)] steps_keep_mem(1) [OF assms(2)] batches_keep_mem [OF assms(2)])
  have step: "load_byte ram (rt_machine s') a = (if page_floor a = fst x then placed_byte dat reloc (?owner (fst x)) a else load_byte ram (rt_machine s) a)"
    if "x \<in> set ?plan" "populate_page kern ram dat slots x v s = Some (Some v', s')" for x v s v' s' a
  proof -
    from that(1) obtain seg p where x: "x = (p, page_slice reloc seg p)" "seg \<in> set segs" "p \<in> set (reloc_pages reloc seg)"
      by (auto simp: page_plan_concat [OF assms(4)])
    then show ?thesis using populate_page_byte [OF assms(1,2) _ _ _ that(2) [unfolded x(1)]] reloc_pages_bounds assms(3) owner by auto
  qed
  have "(\<forall>x \<in> set ?plan. \<forall>a. page_floor a = fst x \<longrightarrow> load_byte ram (rt_machine s2) a = placed_byte dat reloc (?owner (fst x)) a) \<and>
    (\<forall>a. page_floor a \<notin> fst ` set ?plan \<longrightarrow> load_byte ram (rt_machine s2) a = load_byte ram (rt_machine s1) a)"
    by (rule each_page [where f = "populate_page kern ram dat slots", OF step page_plan_distinct run])
  then show ?thesis unfolding before after using owner by (auto simp: page_plan_concat [OF assms(4)] image_iff)
qed

definition odd_segment :: elf_segment where
  "odd_segment = small_segment\<lparr> sg_vaddr := 0x1010 \<rparr>"

lemma odd_segment_facts: "reloc_pages 0x3FF000 odd_segment = [0x400000]" "placeable [9, 1, 2, 3] 0x3FF000 odd_segment"
  "page_plan 0x3FF000 [odd_segment] = [(0x400000, 1, 0x10, 3)]"
  by (simp_all add: reloc_pages_def placeable_def odd_segment_def small_segment_def page_floor_def page_ceil_def PAGE_SIZE_def
    page_steps_def page_plan_def plan_page_def page_slice_def max_def min_def)

theorem runner_image_exact_witness:
  "\<exists>s'. runner_image quiet_kernel flat_ram 41 [9, 1, 2, 3] 0x3FF000 [odd_segment] (quiet_rt [50]) = Some (Some (), s') \<and>
    load_byte flat_ram (rt_machine s') 0x40000F = 0 \<and> load_byte flat_ram (rt_machine s') 0x400010 = 1"
proof -
  have slots: "\<exists>s'. take_slots 1 s = Some (Some [50], s') \<and> ready [] s'" if "ready [50] s" for s :: "(usize \<Rightarrow> u8) rt"
    using that by (simp add: take_slots_def and_then_def take_slot_def op_alloc_def ready_def give_def upt_rec)
  have page: "\<exists>s'. populate_page quiet_kernel flat_ram [9, 1, 2, 3] [50] (0x400000, 1, 0x10, 3) 0 s = Some (Some 1, s') \<and> ready [] s'"
    if "ready [] s" for s
    unfolding populate_page_def Let_def prod.case
    by (rule and_then_run [where P = "ready []" and x = 50], simp add: panics_def index_def that,
        rule and_then_run [where P = "ready []", OF quiet_map], assumption)
      (simp add: require_def ready_def give_def whenever_def sub_slice_def panics_def and_then_def put_def zero_page_def)
  have "\<exists>s'. runner_image quiet_kernel flat_ram 41 [9, 1, 2, 3] 0x3FF000 [odd_segment] (quiet_rt [50]) = Some (Some (), s') \<and> ready [] s'"
    unfolding runner_image_def Let_def odd_segment_facts
    apply (simp only: each.simps say_segment_def and_then_assoc)
    apply (rule and_then_run [where P = "ready [50]", OF quiet_say], simp add: ready_def quiet_rt_def)
    apply simp
    apply (rule and_then_run [where P = "ready [50]", OF quiet_say], assumption)
    apply (rule and_then_run [where P = "ready []" and x = "[50]"])
     apply (drule quiet_slots, simp add: or_else_def split: option.splits prod.splits, fastforce)
    apply (rule and_then_run [where P = "ready []" and x = 50], simp add: panics_def index_def)
    apply (rule and_then_run [where P = "ready []", OF quiet_say], assumption)
    apply (simp add: retype_batches.simps [of _ _ _ 0] MAX_RETYPE_def and_then_assoc require_def)
    apply (rule and_then_run [where P = "ready []", OF quiet_say], assumption)
    apply (rule and_then_run [where P = "ready []", OF quiet_retype], assumption)
    apply (simp add: retype_batches.simps)
    apply (rule and_then_run [where P = "ready []", OF page], assumption)
    apply (simp)
    by (rule quiet_say)
  then obtain s' where run: "runner_image quiet_kernel flat_ram 41 [9, 1, 2, 3] 0x3FF000 [odd_segment] (quiet_rt [50]) = Some (Some (), s')"
    by blast
  have "load_byte flat_ram (rt_machine s') x = placed_byte [9, 1, 2, 3] 0x3FF000 odd_segment x" if "page_floor x = 0x400000" for x
    using runner_image_exact [OF flat_ram_ok quiet_maps_only _ _ run] odd_segment_facts that by simp
  then show ?thesis using run by (intro exI [of _ s'])
    (simp add: placed_byte_def odd_segment_def small_segment_def page_floor_def PAGE_SIZE_def)
qed

section \<open>The initial stack follows the ABI\<close>

lemma mem_slice_store_sub:
  assumes "i + n \<le> length bs" and "length bs < 2 ^ 64"
  shows "mem_slice (mem_store M a bs) (a + of_nat i) n = take n (drop i bs)"
proof (rule nth_equalityI)
  fix j
  assume "j < length (mem_slice (mem_store M a bs) (a + of_nat i) n)"
  then have j: "j < n" by simp
  have "mem_store M a bs (a + of_nat i + of_nat j) = bs ! (i + j)"
    using mem_store_nth [of "i + j" bs M a] j assms by (simp add: add.assoc)
  then show "mem_slice (mem_store M a bs) (a + of_nat i) n ! j = take n (drop i bs) ! j"
    using j assms by (simp add: mem_slice_def)
qed (use assms in simp)

lemma mem_slice_frame:
  assumes "\<And>x. unat a \<le> unat x \<Longrightarrow> unat x < unat a + n \<Longrightarrow> M' x = M x" and "unat a + n \<le> 2 ^ 64"
  shows "mem_slice M' a n = mem_slice M a n"
proof -
  have "M' (a + of_nat i) = M (a + of_nat i)" if "i < n" for i
  proof -
    have "i < 2 ^ 64" using that assms(2) by simp
    then have "unat (of_nat i :: usize) = i" by (intro unat_of_nat_small) simp
    then have "unat (a + of_nat i) = unat a + i" using that assms(2) unat_plus_no_wrap [of a "of_nat i"] by simp
    with that show ?thesis by (intro assms(1)) simp_all
  qed
  then show ?thesis by (simp add: mem_slice_def)
qed

lemma word_of_concat: "i < length ws \<Longrightarrow> take 8 (drop (i * 8) (concat (map (to_le 8) ws))) = to_le 8 (ws ! i)"
  by (induction ws arbitrary: i) (auto simp: nth_Cons drop_append split: nat.splits)

lemma length_concat_words: "length (concat (map (to_le 8) ws)) = length ws * 8"
  by (induction ws) simp_all

lemma load_store_words:
  assumes "ram_ok ram" and "length ws * 8 < 2 ^ 64"
  shows "load_byte ram (store_words ram a ws m) = mem_store (load_byte ram m) a (concat (map (to_le 8) ws))"
  using assms(2)
proof (induction ws rule: rev_induct)
  case (snoc w ws)
  have "store_words ram a (ws @ [w]) m = store_word ram (a + of_nat (length ws) * 8) w (store_words ram a ws m)"
    unfolding store_words_def by (simp, rule arg_cong, rule fold_cong) (auto simp: nth_append)
  then have "load_byte ram (store_words ram a (ws @ [w]) m) =
      mem_store (mem_store (load_byte ram m) a (concat (map (to_le 8) ws))) (a + of_nat (length (concat (map (to_le 8) ws)))) (to_le 8 w)"
    using snoc by (simp add: store_word_def load_store_bytes [OF assms(1)] length_concat_words)
  then show ?case using snoc.prems mem_store_append [of "concat (map (to_le 8) ws)" "to_le 8 w" "load_byte ram m" a]
    by (simp add: length_concat_words)
qed (simp add: store_words_def mem_store_def)

text \<open>The multiple of 16 below an array of words.\<close>

lemma align_below:
  assumes "n * 8 + 15 \<le> unat e"
  defines "a \<equiv> (e - of_nat n * 8) AND NOT 0xF :: usize"
  shows "unat a mod 16 = 0" and "unat a + n * 8 \<le> unat e" and "unat e \<le> unat a + n * 8 + 15"
proof -
  have w: "unat (of_nat n * 8 :: usize) = n * 8"
    using assms(1) unat_less_64 [of e] unat_of_nat_small [of "n * 8", where 'a = 64] by simp
  have "unat a = (unat e - n * 8) div 16 * 16"
    using w assms(1) unat_minus_le [of "of_nat n * 8" e] unat_and_not_mask [of "e - of_nat n * 8" 4]
    by (simp add: a_def word_le_nat_alt mask_eq_exp_minus_1)
  moreover have "(unat e - n * 8) div 16 * 16 + (unat e - n * 8) mod 16 = unat e - n * 8" "(unat e - n * 8) mod 16 < 16" by simp_all
  ultimately show "unat a mod 16 = 0" "unat a + n * 8 \<le> unat e" "unat e \<le> unat a + n * 8 + 15" using assms(1) by (simp, linarith, linarith)
qed

lemma aligned_16:
  assumes "unat (a :: usize) mod 16 = 0"
  shows "a AND 0xF = 0"
proof -
  have "unat (a AND mask 4) = unat a mod 16"
    unfolding take_bit_eq_mask [symmetric] unsigned_take_bit_eq by (simp add: take_bit_eq_mod)
  then show ?thesis using assms by (simp add: unat_eq_zero mask_eq_exp_minus_1)
qed

definition args_size :: "bytes list \<Rightarrow> nat" where
  "args_size args = sum_list (map (\<lambda>a. length a + 1) args)"

lemma place_args_store:
  assumes "ram_ok ram" and "args_size args \<le> unat addr" and "place_args addr args = (e, argv)"
    and "M' = load_byte ram (fold (\<lambda>(a, arg). store_bytes ram a (arg @ [0])) (zip argv args) m)"
  shows "length argv = length args \<and> unat e = unat addr - args_size args \<and>
    (\<forall>x. \<not> (unat e \<le> unat x \<and> unat x < unat addr) \<longrightarrow> M' x = load_byte ram m x) \<and>
    (\<forall>i < length args. mem_slice M' (argv ! i) (length (args ! i) + 1) = args ! i @ [0] \<and>
      unat e \<le> unat (argv ! i) \<and> unat (argv ! i) + length (args ! i) + 1 \<le> unat addr)"
  using assms(2-)
proof (induction args arbitrary: addr argv m)
  case (Cons arg args)
  let ?n = "length arg + 1" and ?a = "addr - (of_nat (length arg) + 1)"
  obtain argv' where r: "place_args ?a args = (e, argv')" "argv = ?a # argv'"
    using Cons.prems(2) by (auto simp: Let_def split: prod.splits)
  have n: "unat (of_nat ?n :: usize) = ?n" using Cons.prems(1) unat_less_64 [of addr]
    by (intro unat_of_nat_small) (simp add: args_size_def)
  have a: "unat ?a = unat addr - ?n" "?n \<le> unat addr"
    using unat_minus_le [of "of_nat ?n" addr] n Cons.prems(1) by (simp_all add: word_le_nat_alt args_size_def add.commute)
  let ?m = "store_bytes ram ?a (arg @ [0]) m"
  have ih: "length argv' = length args \<and> unat e = unat ?a - args_size args \<and>
    (\<forall>x. \<not> (unat e \<le> unat x \<and> unat x < unat ?a) \<longrightarrow> M' x = load_byte ram ?m x) \<and>
    (\<forall>i < length args. mem_slice M' (argv' ! i) (length (args ! i) + 1) = args ! i @ [0] \<and>
      unat e \<le> unat (argv' ! i) \<and> unat (argv' ! i) + length (args ! i) + 1 \<le> unat ?a)"
    using Cons.prems(1,3) a r by (intro Cons.IH) (simp_all add: args_size_def)
  have st: "load_byte ram ?m = mem_store (load_byte ram m) ?a (arg @ [0])"
    using a unat_less_64 [of addr] by (intro load_store_bytes [OF assms(1)]) simp
  have "mem_slice M' ?a ?n = mem_slice (load_byte ram ?m) ?a ?n"
    using ih a unat_less_64 [of addr] by (intro mem_slice_frame) auto
  also have "\<dots> = arg @ [0]" using mem_slice_store_same [of "arg @ [0]"] a unat_less_64 [of addr] by (simp add: st)
  finally have s: "mem_slice M' ?a ?n = arg @ [0]" .
  have out: "load_byte ram ?m x = load_byte ram m x" if "\<not> (unat ?a \<le> unat x \<and> unat x < unat addr)" for x
    using that a unat_less_64 [of addr] unfolding st by (subst mem_store_between) auto
  have le: "unat e \<le> unat ?a" "unat e = unat addr - args_size (arg # args)" using ih a by (simp_all add: args_size_def)
  have frame: "M' x = load_byte ram m x" if "\<not> (unat e \<le> unat x \<and> unat x < unat addr)" for x
  proof -
    have "\<not> (unat e \<le> unat x \<and> unat x < unat ?a)" "\<not> (unat ?a \<le> unat x \<and> unat x < unat addr)" using that le(1) a by auto
    then show ?thesis using ih out by simp
  qed
  have strings: "mem_slice M' (argv ! i) (length ((arg # args) ! i) + 1) = (arg # args) ! i @ [0] \<and>
      unat e \<le> unat (argv ! i) \<and> unat (argv ! i) + length ((arg # args) ! i) + 1 \<le> unat addr" if "i < length (arg # args)" for i
    using that ih s le(1) a unfolding r(2) by (cases i) fastforce+
  show ?case using ih frame strings le(2) unfolding r(2) by simp
qed (simp add: args_size_def)

text \<open>
  The stack page from its top: the random bytes and the platform name, the argument strings down to \<open>e\<close>, and the words of the
  array, which end at or below \<open>e\<close>.
\<close>

definition stack_data :: "(usize \<Rightarrow> u8) \<Rightarrow> usize \<Rightarrow> u8" where
  "stack_data M = mem_store (mem_store M 0xF10FF0 random_bytes) 0xF10FE9 platform"

lemma initial_stack_layout:
  assumes "ram_ok ram" and "args_size args + 8 * (35 + length args) + 38 \<le> 4096"
    and "initial_stack ram args entry phoff phent phnum m = ((top_sp, argv), m')"
    and ws: "ws = stack_words argv (auxv 0xF10FF0 0xF10FE9 entry phnum phent (LOAD_BASE + phoff))"
  obtains e :: usize and M3 where "length argv = length args" and "unat e \<le> 0xF10FE9"
    and "unat top_sp mod 16 = 0" and "unat top_sp + length ws * 8 \<le> unat e" and "0xF10000 \<le> unat top_sp"
    and "load_byte ram m' = mem_store M3 top_sp (concat (map (to_le 8) ws))"
    and "\<And>x. \<not> (unat e \<le> unat x \<and> unat x < 0xF10FE9) \<Longrightarrow> M3 x = stack_data (load_byte ram m) x"
    and "\<And>i. i < length args \<Longrightarrow> mem_slice M3 (argv ! i) (length (args ! i) + 1) = args ! i @ [0] \<and>
      unat e \<le> unat (argv ! i) \<and> unat (argv ! i) + length (args ! i) + 1 \<le> 0xF10FE9"
proof -
  have addrs: "STACK_VADDR + PAGE_SIZE - 16 = 0xF10FF0" "(0xF10FF0 :: usize) - of_nat (length platform) = 0xF10FE9"
    by (simp_all add: STACK_VADDR_def PAGE_SIZE_def platform_def)
  define m2 where "m2 = store_bytes ram 0xF10FE9 platform (store_bytes ram 0xF10FF0 random_bytes m)"
  have M2: "load_byte ram m2 = stack_data (load_byte ram m)"
    unfolding m2_def stack_data_def by (simp add: load_store_bytes [OF assms(1)] random_bytes_def platform_def)
  obtain e where pl: "place_args 0xF10FE9 args = (e, argv)"
    using assms(3) addrs by (auto simp: initial_stack_def Let_def split: prod.splits)
  define m3 where "m3 = fold (\<lambda>(a, arg). store_bytes ram a (arg @ [0])) (zip argv args) m2"
  have m': "top_sp = (e - of_nat (length ws) * 8) AND NOT 0xF" "m' = store_words ram top_sp ws m3"
    using assms(3) addrs pl by (auto simp: initial_stack_def Let_def ws m3_def m2_def split: prod.splits)
  note args = place_args_store [OF assms(1) _ pl m3_def [THEN arg_cong [where f = "load_byte ram"]]]
  have e: "length argv = length args" "unat e = 0xF10FE9 - args_size args" using args assms(2) by auto
  have len: "length ws = 35 + length args" using e(1) by (simp add: ws stack_words_def auxv_def)
  have sp: "unat top_sp mod 16 = 0" "unat top_sp + length ws * 8 \<le> unat e" "0xF10000 \<le> unat top_sp"
  proof -
    have low: "length ws * 8 + 0xF1000F \<le> unat e" using len e(2) assms(2) by simp
    then have "length ws * 8 + 15 \<le> unat e" by linarith
    from align_below [OF this] low show "unat top_sp mod 16 = 0" "unat top_sp + length ws * 8 \<le> unat e" "0xF10000 \<le> unat top_sp"
      unfolding m'(1) [symmetric] by simp_all
  qed
  moreover have "load_byte ram m' = mem_store (load_byte ram m3) top_sp (concat (map (to_le 8) ws))"
    unfolding m'(2) using sp(2) unat_less_64 [of e] by (intro load_store_words [OF assms(1)]) simp
  ultimately show thesis using that [of e "load_byte ram m3"] e args assms(2) M2 by auto
qed

text \<open>
  C7. The initial stack follows the ABI: when the arguments fit into the stack page, the stack pointer is a multiple of 16
  and stands at the argument count, the argument pointers, the two null words and the auxiliary vector; every pointer
  leads to its argument with a terminating zero, the random bytes and the platform name are where the vector says, and
  no byte outside the stack page changes.
\<close>

theorem initial_stack_abi:
  assumes "ram_ok ram" and "args_size args + 8 * (35 + length args) + 38 \<le> 4096"
    and "initial_stack ram args entry phoff phent phnum m = ((top_sp, argv), m')"
  shows "top_sp AND 0xF = 0 \<and> length argv = length args \<and>
    (\<forall>i < 35 + length args. load_word ram m' (top_sp + of_nat i * 8) =
      stack_words argv (auxv 0xF10FF0 0xF10FE9 entry phnum phent (LOAD_BASE + phoff)) ! i) \<and>
    (\<forall>i < length args. load_bytes ram m' (argv ! i) (length (args ! i) + 1) = args ! i @ [0]) \<and>
    load_bytes ram m' 0xF10FF0 16 = random_bytes \<and> load_bytes ram m' 0xF10FE9 7 = platform \<and>
    (\<forall>x. page_floor x \<noteq> STACK_VADDR \<longrightarrow> load_byte ram m' x = load_byte ram m x)"
proof -
  define ws where "ws = stack_words argv (auxv 0xF10FF0 0xF10FE9 entry phnum phent (LOAD_BASE + phoff))"
  obtain e :: usize and M3 where argv: "length argv = length args" and e: "unat e \<le> 0xF10FE9"
    and sp: "unat top_sp mod 16 = 0" "unat top_sp + length ws * 8 \<le> unat e" "0xF10000 \<le> unat top_sp"
    and M': "load_byte ram m' = mem_store M3 top_sp (concat (map (to_le 8) ws))"
    and M3: "\<And>x. \<not> (unat e \<le> unat x \<and> unat x < 0xF10FE9) \<Longrightarrow> M3 x = stack_data (load_byte ram m) x"
    and args: "\<And>i. i < length args \<Longrightarrow> mem_slice M3 (argv ! i) (length (args ! i) + 1) = args ! i @ [0] \<and>
      unat e \<le> unat (argv ! i) \<and> unat (argv ! i) + length (args ! i) + 1 \<le> 0xF10FE9"
    by (rule initial_stack_layout [OF assms ws_def]) simp
  have len: "length ws = 35 + length args" using argv by (simp add: ws_def stack_words_def auxv_def)
  have slice: "load_bytes ram m' = mem_slice (load_byte ram m')" by (simp add: load_bytes_def mem_slice_def fun_eq_iff)
  have l: "length platform = 7" "length random_bytes = 16" by (simp_all add: platform_def random_bytes_def)
  have frame: "load_byte ram m' x = M3 x" if "\<not> (unat top_sp \<le> unat x \<and> unat x < unat e)" for x
    unfolding M' using that sp(2) unat_less_64 [of e] by (subst mem_store_between) (auto simp: length_concat_words)
  have data2: "mem_slice (load_byte ram m') a n = mem_slice (stack_data (load_byte ram m)) a n"
    if "0xF10FE9 \<le> unat a" "unat a + n \<le> 0xF11000" for a n
    using that e frame M3 by (intro mem_slice_frame) auto
  have "top_sp AND 0xF = 0" by (rule aligned_16 [OF sp(1)])
  moreover have "load_word ram m' (top_sp + of_nat i * 8) = ws ! i" if "i < length ws" for i
  proof -
    have "mem_slice (load_byte ram m') (top_sp + of_nat (i * 8)) 8 = take 8 (drop (i * 8) (concat (map (to_le 8) ws)))"
      unfolding M' using that sp(2) unat_less_64 [of e] by (intro mem_slice_store_sub) (simp_all add: length_concat_words)
    then show ?thesis using word_of_concat [OF that] by (simp add: load_word_def slice from_le_to_le)
  qed
  moreover have "load_bytes ram m' (argv ! i) (length (args ! i) + 1) = args ! i @ [0]" if "i < length args" for i
  proof -
    have "mem_slice (load_byte ram m') (argv ! i) (length (args ! i) + 1) = mem_slice M3 (argv ! i) (length (args ! i) + 1)"
      using args [OF that] by (intro mem_slice_frame frame) auto
    then show ?thesis using args [OF that] by (simp add: slice)
  qed
  moreover have "load_bytes ram m' 0xF10FE9 7 = platform" "load_bytes ram m' 0xF10FF0 16 = random_bytes"
    using mem_slice_store_same [of platform] mem_slice_store_same [of random_bytes] mem_slice_store_other [of "0xF10FF0" 16 "0xF10FE9" platform]
    by (simp_all add: slice data2 stack_data_def l apartI)
  moreover have "load_byte ram m' x = load_byte ram m x" if "page_floor x \<noteq> STACK_VADDR" for x
  proof -
    have "\<not> (0xF10000 \<le> unat x \<and> unat x < 0xF11000)"
      using that by (auto simp: word_unat_eq_iff unat_page_floor STACK_VADDR_def div_nat_eqI)
    then show ?thesis using frame [of x] M3 [of x] e sp by (auto simp: stack_data_def mem_store_between l)
  qed
  ultimately show ?thesis using len argv unfolding ws_def by simp
qed

theorem initial_stack_abi_witness:
  "\<exists>sp argv m'. initial_stack flat_ram [[0x6C, 0x73], [0x2F]] 0x401000 64 56 2 (rt_machine (quiet_rt [])) = ((sp, argv), m') \<and>
    sp AND 0xF = 0 \<and> load_word flat_ram m' sp = 2 \<and> load_bytes flat_ram m' (argv ! 0) 3 = [0x6C, 0x73, 0]"
proof -
  obtain sp argv m' where r: "initial_stack flat_ram [[0x6C, 0x73], [0x2F]] 0x401000 64 56 2 (rt_machine (quiet_rt [])) = ((sp, argv), m')"
    by (metis prod.exhaust)
  note abi = initial_stack_abi [OF flat_ram_ok _ r]
  have "load_word flat_ram m' sp = 2" using abi [THEN conjunct2, THEN conjunct2, THEN conjunct1, rule_format, of 0] abi
    by (simp add: args_size_def stack_words_def)
  moreover have "load_bytes flat_ram m' (argv ! 0) 3 = [0x6C, 0x73, 0]"
    using abi [THEN conjunct2, THEN conjunct2, THEN conjunct2, THEN conjunct1, rule_format, of 0] by (simp add: args_size_def numeral_3_eq_3)
  moreover have "sp AND 0xF = 0" using abi by (simp add: args_size_def)
  ultimately show ?thesis using r by blast
qed

end
