(* ===== verification/Ramdisk.thy ===== *)
theory Ramdisk
  imports Sel4_Syscalls
begin

text \<open>
  The block layer: the RAM disk of \<^verbatim>\<open>blk-task/src/lib.rs\<close>, the message loop of
  \<^verbatim>\<open>blk-task/src/main.rs\<close>, the multi-block helpers of \<^verbatim>\<open>lcl/src/utils/blk.rs\<close> and the position-keeping
  adapter \<^verbatim>\<open>Ext4Disk\<close> of \<^verbatim>\<open>lwext4-task/src/imp.rs\<close>. The locale \<open>block_device\<close> is the contract of
  \<^verbatim>\<open>BlockIface\<close> the clients rely on (a read returns what the last write to that block put there and
  other blocks keep their contents); the multi-block lemmas are proved in it once and it is
  interpreted on the RAM disk.
\<close>

section \<open>The RAM disk\<close>

definition BLOCK_SIZE :: nat where "BLOCK_SIZE = 512"
definition RAMDISK_SIZE :: nat where "RAMDISK_SIZE = 4 * 1024 * 1024"
definition RAMDISK_BLOCKS :: nat where "RAMDISK_BLOCKS = RAMDISK_SIZE div BLOCK_SIZE"

definition ramdisk_zero :: bytes where
  "ramdisk_zero = replicate RAMDISK_SIZE 0"

definition init_from_image :: "bytes \<Rightarrow> bytes \<Rightarrow> bytes" where
  "init_from_image img disk = (let len = min (length img) RAMDISK_SIZE in copy_slice disk 0 (take len img))"

text \<open>
  \<^verbatim>\<open>len = buf.len().min(BLOCK_SIZE).min(RAMDISK_SIZE - start)\<close>, where the subtraction wraps when
  \<open>start\<close> is past the end; the slice index then panics.
\<close>

definition block_start :: "usize \<Rightarrow> usize" where
  "block_start block_id = block_id * of_nat BLOCK_SIZE"

definition block_len :: "usize \<Rightarrow> nat \<Rightarrow> usize" where
  "block_len start buf_len = min (min (of_nat buf_len) (of_nat BLOCK_SIZE)) (of_nat RAMDISK_SIZE - start)"

definition read_block :: "bytes \<Rightarrow> usize \<Rightarrow> bytes \<Rightarrow> bytes option" where
  "read_block disk block_id buf =
     (let start = block_start block_id;
          len = block_len start (length buf)
      in do {
        src \<leftarrow> sub_slice disk (unat start) (unat (start + len));
        Some (copy_slice buf 0 src)
      })"

definition write_block :: "bytes \<Rightarrow> usize \<Rightarrow> bytes \<Rightarrow> bytes option" where
  "write_block disk block_id buf =
     (let start = block_start block_id;
          len = block_len start (length buf)
      in if unat start \<le> unat (start + len) \<and> unat (start + len) \<le> length disk
         then Some (copy_slice disk (unat start) (take (unat len) buf)) else None)"

definition capacity :: u64 where
  "capacity = of_nat RAMDISK_SIZE"

section \<open>Runs of blocks\<close>

text \<open>
  \<^verbatim>\<open>for i in 0..block_num\<close> with the sub-slice \<^verbatim>\<open>buf[i * BLOCK_SIZE..][..BLOCK_SIZE]\<close> of the buffer.
\<close>

fun read_blocks_loop :: "(usize \<Rightarrow> bytes \<Rightarrow> bytes option) \<Rightarrow> usize \<Rightarrow> nat list \<Rightarrow> bytes \<Rightarrow> bytes option" where
  "read_blocks_loop rd block_id [] buf = Some buf"
| "read_blocks_loop rd block_id (i # is) buf =
     do {
       chunk \<leftarrow> sub_slice buf (i * BLOCK_SIZE) (i * BLOCK_SIZE + BLOCK_SIZE);
       got \<leftarrow> rd (block_id + of_nat i) chunk;
       read_blocks_loop rd block_id is (copy_slice buf (i * BLOCK_SIZE) got)
     }"

fun write_blocks_loop :: "('d \<Rightarrow> usize \<Rightarrow> bytes \<Rightarrow> 'd option) \<Rightarrow> usize \<Rightarrow> nat list \<Rightarrow> bytes \<Rightarrow> 'd \<Rightarrow> 'd option" where
  "write_blocks_loop wr block_id [] buf d = Some d"
| "write_blocks_loop wr block_id (i # is) buf d =
     do {
       chunk \<leftarrow> sub_slice buf (i * BLOCK_SIZE) (i * BLOCK_SIZE + BLOCK_SIZE);
       d' \<leftarrow> wr d (block_id + of_nat i) chunk;
       write_blocks_loop wr block_id is buf d'
     }"

definition read_blocks :: "bytes \<Rightarrow> usize \<Rightarrow> usize \<Rightarrow> bytes \<Rightarrow> bytes option" where
  "read_blocks disk block_id block_num buf =
     read_blocks_loop (read_block disk) block_id [0..<unat block_num] buf"

definition write_blocks :: "usize \<Rightarrow> usize \<Rightarrow> bytes \<Rightarrow> bytes \<Rightarrow> bytes option" where
  "write_blocks block_id block_num buf disk =
     write_blocks_loop write_block block_id [0..<unat block_num] buf disk"

section \<open>Ext4Disk\<close>

record ext4_disk =
  ed_block_id :: usize
  ed_offset :: usize

definition ext4_disk_new :: ext4_disk where
  "ext4_disk_new = \<lparr> ed_block_id = 0, ed_offset = 0 \<rparr>"

definition position :: "ext4_disk \<Rightarrow> u64" where
  "position d = ed_block_id d * of_nat BLOCK_SIZE + ed_offset d"

definition set_position :: "u64 \<Rightarrow> ext4_disk \<Rightarrow> ext4_disk" where
  "set_position pos d = d\<lparr> ed_block_id := pos div of_nat BLOCK_SIZE, ed_offset := pos mod of_nat BLOCK_SIZE \<rparr>"

text \<open>\<^verbatim>\<open>u64::checked_add_signed\<close> and \<^verbatim>\<open>i64::checked_add\<close>.\<close>

definition checked_add_signed :: "u64 \<Rightarrow> u64 \<Rightarrow> u64 option" where
  "checked_add_signed a b =
     (let r = uint a + sint b in if 0 \<le> r \<and> r < 2 ^ 64 then Some (word_of_int r) else None)"

definition checked_add_i64 :: "u64 \<Rightarrow> u64 \<Rightarrow> u64 option" where
  "checked_add_i64 a b =
     (let r = sint a + sint b in if - (2 ^ 63) \<le> r \<and> r < 2 ^ 63 then Some (word_of_int r) else None)"

definition ext4_seek :: "ext4_disk \<Rightarrow> u64 \<Rightarrow> i32 \<Rightarrow> (i32 + u64) \<times> ext4_disk" where
  "ext4_seek dev off whence =
     (let size = capacity;
          new_pos = (if whence = 0 then Some off
                     else if whence = 1 then checked_add_signed (position dev) off
                     else if whence = 2 then checked_add_i64 size off
                     else Some off)
      in case new_pos of
           None \<Rightarrow> (Inl (- 1), dev)
         | Some p \<Rightarrow> if p > size then (Inl (- 1), dev) else (Inr p, set_position p dev))"

text \<open>The two transfer operations; the \<^verbatim>\<open>assert_eq!\<close>s panic.\<close>

definition read_one :: "bytes \<Rightarrow> ext4_disk \<Rightarrow> bytes \<Rightarrow> ((i32 + usize) \<times> bytes \<times> ext4_disk) option" where
  "read_one disk d buf =
     (if length buf mod BLOCK_SIZE = 0 \<and> ed_offset d = 0 then do {
        buf' \<leftarrow> read_blocks_loop (read_block disk) (ed_block_id d) [0..<length buf div BLOCK_SIZE] buf;
        Some (Inr (of_nat (length buf')), buf', set_position (position d + of_nat (length buf')) d)
      } else None)"

definition write_one :: "ext4_disk \<Rightarrow> bytes \<Rightarrow> bytes \<Rightarrow> ((i32 + usize) \<times> bytes \<times> ext4_disk) option" where
  "write_one d buf disk =
     (if length buf mod BLOCK_SIZE = 0 \<and> ed_offset d = 0 then do {
        disk' \<leftarrow> write_blocks_loop write_block (ed_block_id d) [0..<length buf div BLOCK_SIZE] buf disk;
        Some (Inr (of_nat (length buf)), disk', set_position (position d + of_nat (length buf)) d)
      } else None)"

definition ext4_flush :: "i32 + usize" where
  "ext4_flush = Inr 0"

section \<open>The block device interface\<close>

lemma blocks_eqI:
  assumes "length xs = n * BLOCK_SIZE" and "length ys = n * BLOCK_SIZE"
    and "\<forall>i < n. sub_slice xs (i * BLOCK_SIZE) (i * BLOCK_SIZE + BLOCK_SIZE) =
                 sub_slice ys (i * BLOCK_SIZE) (i * BLOCK_SIZE + BLOCK_SIZE)"
  shows "xs = ys"
proof (rule nth_equalityI)
  fix k assume k: "k < length xs"
  let ?i = "k div BLOCK_SIZE" and ?j = "k mod BLOCK_SIZE"
  have pos: "0 < BLOCK_SIZE" by (simp add: BLOCK_SIZE_def)
  have i: "?i < n" using k assms(1) pos by (simp add: less_mult_imp_div_less)
  then have "Suc ?i * BLOCK_SIZE \<le> n * BLOCK_SIZE" by (metis Suc_leI mult_le_mono1)
  then have fits: "?i * BLOCK_SIZE \<le> length xs" "?i * BLOCK_SIZE \<le> length ys"
    and "take BLOCK_SIZE (drop (?i * BLOCK_SIZE) xs) ! ?j = take BLOCK_SIZE (drop (?i * BLOCK_SIZE) ys) ! ?j"
    using assms i by (auto simp: sub_slice_def)
  then have "drop (?i * BLOCK_SIZE) xs ! ?j = drop (?i * BLOCK_SIZE) ys ! ?j" using pos by simp
  then show "xs ! k = ys ! k" using nth_drop [OF fits(1)] nth_drop [OF fits(2)] by simp
qed (use assms in simp)

text \<open>
  \<open>valid\<close> is the set of block numbers of the device and \<open>ok\<close> its state invariant. Buffers are one
  block long.
\<close>

locale block_device =
  fixes rd :: "'d \<Rightarrow> usize \<Rightarrow> bytes \<Rightarrow> bytes option"
    and wr :: "'d \<Rightarrow> usize \<Rightarrow> bytes \<Rightarrow> 'd option"
    and valid :: "usize \<Rightarrow> bool"
    and ok :: "'d \<Rightarrow> bool"
  assumes wr_ok: "ok d \<Longrightarrow> valid b \<Longrightarrow> length buf = BLOCK_SIZE \<Longrightarrow> \<exists>d'. wr d b buf = Some d' \<and> ok d'"
    and rd_ok: "ok d \<Longrightarrow> valid b \<Longrightarrow> length buf = BLOCK_SIZE \<Longrightarrow> \<exists>r. rd d b buf = Some r \<and> length r = BLOCK_SIZE"
    and rd_any: "ok d \<Longrightarrow> valid b \<Longrightarrow> length buf = BLOCK_SIZE \<Longrightarrow> length buf' = BLOCK_SIZE \<Longrightarrow> rd d b buf = rd d b buf'"
    and rd_wr_same: "ok d \<Longrightarrow> valid b \<Longrightarrow> length buf = BLOCK_SIZE \<Longrightarrow> length t = BLOCK_SIZE \<Longrightarrow>
      wr d b buf = Some d' \<Longrightarrow> rd d' b t = Some buf"
    and rd_wr_other: "ok d \<Longrightarrow> valid b \<Longrightarrow> valid c \<Longrightarrow> b \<noteq> c \<Longrightarrow> length buf = BLOCK_SIZE \<Longrightarrow>
      length t = BLOCK_SIZE \<Longrightarrow> wr d b buf = Some d' \<Longrightarrow> rd d' c t = rd d c t"
begin

text \<open>The \<open>i\<close>-th block of a buffer.\<close>

lemma sub_slice_block:
  assumes "Suc i * BLOCK_SIZE \<le> length buf"
  shows "\<exists>c. sub_slice buf (i * BLOCK_SIZE) (i * BLOCK_SIZE + BLOCK_SIZE) = Some c \<and> length c = BLOCK_SIZE"
  using assms by (auto simp: sub_slice_def)

lemma write_loop:
  assumes "ok d" and "distinct (map (\<lambda>i. b + of_nat i) is)"
    and "\<forall>i \<in> set is. valid (b + of_nat i) \<and> Suc i * BLOCK_SIZE \<le> length buf"
  shows "\<exists>d'. write_blocks_loop wr b is buf d = Some d' \<and> ok d' \<and>
    (\<forall>i \<in> set is. \<forall>t. length t = BLOCK_SIZE \<longrightarrow>
       rd d' (b + of_nat i) t = sub_slice buf (i * BLOCK_SIZE) (i * BLOCK_SIZE + BLOCK_SIZE)) \<and>
    (\<forall>c t. valid c \<longrightarrow> c \<notin> (\<lambda>i. b + of_nat i) ` set is \<longrightarrow> length t = BLOCK_SIZE \<longrightarrow> rd d' c t = rd d c t)"
  using assms
proof (induction "is" arbitrary: d)
  case (Cons i "is")
  from Cons.prems(3) sub_slice_block [of i buf] obtain c where
    c: "sub_slice buf (i * BLOCK_SIZE) (i * BLOCK_SIZE + BLOCK_SIZE) = Some c" "length c = BLOCK_SIZE" by auto
  from Cons.prems wr_ok [of d "b + of_nat i" c] c(2) obtain d1 where
    d1: "wr d (b + of_nat i) c = Some d1" "ok d1" by auto
  from Cons.IH [OF d1(2)] Cons.prems obtain d' where
    d': "write_blocks_loop wr b is buf d1 = Some d'" "ok d'"
    and same: "\<forall>i \<in> set is. \<forall>t. length t = BLOCK_SIZE \<longrightarrow>
       rd d' (b + of_nat i) t = sub_slice buf (i * BLOCK_SIZE) (i * BLOCK_SIZE + BLOCK_SIZE)"
    and other: "\<forall>c t. valid c \<longrightarrow> c \<notin> (\<lambda>i. b + of_nat i) ` set is \<longrightarrow> length t = BLOCK_SIZE \<longrightarrow> rd d' c t = rd d1 c t"
    by auto
  have "rd d' (b + of_nat i) t = Some c" if "length t = BLOCK_SIZE" for t
    using other rd_wr_same [OF Cons.prems(1) _ c(2) that d1(1)] Cons.prems that by auto
  moreover have "rd d' x t = rd d x t" if "valid x" "x \<notin> (\<lambda>i. b + of_nat i) ` set (i # is)" "length t = BLOCK_SIZE" for x t
    using other rd_wr_other [OF Cons.prems(1) _ _ _ c(2) that(3) d1(1), of x] that Cons.prems by auto
  ultimately show ?case using c d1 d' same by auto
qed auto

lemma read_loop:
  assumes "ok d" and "sorted_wrt (<) is"
    and "\<forall>i \<in> set is. valid (b + of_nat i) \<and> Suc i * BLOCK_SIZE \<le> length buf"
    and "\<forall>i \<in> set is. \<forall>t. length t = BLOCK_SIZE \<longrightarrow>
       rd d (b + of_nat i) t = sub_slice src (i * BLOCK_SIZE) (i * BLOCK_SIZE + BLOCK_SIZE)"
    and "length src = length buf"
  shows "\<exists>r. read_blocks_loop (rd d) b is buf = Some r \<and> length r = length buf \<and>
    (\<forall>i \<in> set is. sub_slice r (i * BLOCK_SIZE) (i * BLOCK_SIZE + BLOCK_SIZE) =
                   sub_slice src (i * BLOCK_SIZE) (i * BLOCK_SIZE + BLOCK_SIZE)) \<and>
    (\<forall>k. (\<forall>i \<in> set is. k \<noteq> i) \<longrightarrow>
       sub_slice r (k * BLOCK_SIZE) (k * BLOCK_SIZE + BLOCK_SIZE) =
       sub_slice buf (k * BLOCK_SIZE) (k * BLOCK_SIZE + BLOCK_SIZE))"
  using assms
proof (induction "is" arbitrary: buf)
  case (Cons i "is")
  let ?s = "\<lambda>xs i. sub_slice xs (i * BLOCK_SIZE) (i * BLOCK_SIZE + BLOCK_SIZE)"
  from Cons.prems(3) sub_slice_block [of i buf] obtain c where
    c: "?s buf i = Some c" "length c = BLOCK_SIZE" by auto
  from Cons.prems(3,5) sub_slice_block [of i src] obtain g where
    g: "?s src i = Some g" "length g = BLOCK_SIZE" by auto
  have fits: "i * BLOCK_SIZE + length g \<le> length buf" using Cons.prems(3) g(2) by simp
  let ?buf = "copy_slice buf (i * BLOCK_SIZE) g"
  have len: "length ?buf = length buf" using fits by simp
  from Cons.IH [of ?buf] Cons.prems len obtain r where
    r: "read_blocks_loop (rd d) b is ?buf = Some r" "length r = length buf"
    and same: "\<forall>i \<in> set is. ?s r i = ?s src i"
    and other: "\<forall>k. (\<forall>i \<in> set is. k \<noteq> i) \<longrightarrow> ?s r k = ?s ?buf k" by auto
  have "rd d (b + of_nat i) c = Some g" using Cons.prems(4) c(2) g(1) by simp
  moreover have "?s r i = ?s src i"
    using other Cons.prems(2) sub_slice_copy_same [OF fits] g by fastforce
  moreover have "?s r k = ?s buf k" if "\<forall>j \<in> set (i # is). k \<noteq> j" for k
  proof -
    have "?s ?buf k = ?s buf k"
    proof (rule sub_slice_copy_other [OF fits])
      from that have "k < i \<or> i < k" by auto
      then have "Suc k * BLOCK_SIZE \<le> i * BLOCK_SIZE \<or> Suc i * BLOCK_SIZE \<le> k * BLOCK_SIZE"
        by (metis Suc_leI mult_le_mono1)
      then show "k * BLOCK_SIZE + BLOCK_SIZE \<le> i * BLOCK_SIZE \<or> i * BLOCK_SIZE + length g \<le> k * BLOCK_SIZE"
        using g(2) by auto
    qed
    with other that show ?thesis by simp
  qed
  ultimately show ?case using c r same by auto
qed auto

text \<open>Writing a run of blocks and reading it back.\<close>

lemma write_read_run:
  assumes "ok d" and "length buf = n * BLOCK_SIZE" and "length t = n * BLOCK_SIZE"
    and "\<forall>i < n. valid (b + of_nat i)" and "inj_on (\<lambda>i. b + of_nat i) {..<n}"
  shows "\<exists>d'. write_blocks_loop wr b [0..<n] buf d = Some d' \<and> ok d' \<and>
    read_blocks_loop (rd d') b [0..<n] t = Some buf \<and>
    (\<forall>c u. valid c \<longrightarrow> c \<notin> (\<lambda>i. b + of_nat i) ` {..<n} \<longrightarrow> length u = BLOCK_SIZE \<longrightarrow> rd d' c u = rd d c u)"
proof -
  let ?s = "\<lambda>xs i. sub_slice xs (i * BLOCK_SIZE) (i * BLOCK_SIZE + BLOCK_SIZE)"
  have fits: "Suc i * BLOCK_SIZE \<le> n * BLOCK_SIZE" if "i < n" for i
    using that by (metis Suc_leI mult_le_mono1)
  from assms(4,5) write_loop [OF assms(1), of b "[0..<n]" buf] fits assms(2) obtain d' where
    d': "write_blocks_loop wr b [0..<n] buf d = Some d'" "ok d'"
    and same: "\<forall>i \<in> set [0..<n]. \<forall>t. length t = BLOCK_SIZE \<longrightarrow> rd d' (b + of_nat i) t = ?s buf i"
    and other: "\<forall>c t. valid c \<longrightarrow> c \<notin> (\<lambda>i. b + of_nat i) ` set [0..<n] \<longrightarrow> length t = BLOCK_SIZE \<longrightarrow> rd d' c t = rd d c t"
    by (auto simp: distinct_map lessThan_atLeast0)
  from read_loop [OF d'(2), of "[0..<n]" b t buf] assms(2,3,4) fits same obtain r where
    r: "read_blocks_loop (rd d') b [0..<n] t = Some r" "length r = length t" "\<forall>i \<in> set [0..<n]. ?s r i = ?s buf i"
    by auto
  have "r = buf"
    by (rule blocks_eqI [of _ n]) (use r assms(2,3) in auto)
  with r d' other show ?thesis by (auto simp: lessThan_atLeast0)
qed

end

section \<open>The RAM disk is a block device\<close>

lemmas block_consts = BLOCK_SIZE_def RAMDISK_SIZE_def RAMDISK_BLOCKS_def

lemma valid_block:
  assumes "unat b < RAMDISK_BLOCKS"
  shows "unat (block_start b) = unat b * 512"
    and "block_len (block_start b) 512 = 512"
    and "unat (block_start b + 512) = unat b * 512 + 512"
    and "unat b * 512 + 512 \<le> RAMDISK_SIZE"
proof -
  have b: "unat b < 8192" using assms by (simp add: block_consts)
  show 1: "unat (block_start b) = unat b * 512"
    using b by (simp add: block_start_def block_consts unat_word_ariths)
  show "unat (block_start b + 512) = unat b * 512 + 512"
    using b 1 by (simp add: unat_plus_no_wrap)
  show "unat b * 512 + 512 \<le> RAMDISK_SIZE" using b by (simp add: block_consts)
  have "block_start b \<le> 4194304" using 1 b by (simp add: word_le_nat_alt)
  then have "unat (4194304 - block_start b) = 4194304 - unat b * 512" using 1 by (simp add: unat_minus_le)
  then have "512 \<le> 4194304 - block_start b" using b by (simp add: word_le_nat_alt)
  then show "block_len (block_start b) 512 = 512" by (simp add: block_len_def block_consts min_def)
qed

lemma read_block_valid:
  assumes "unat b < RAMDISK_BLOCKS" and "length d = RAMDISK_SIZE" and "length buf = BLOCK_SIZE"
  shows "read_block d b buf = sub_slice d (unat b * 512) (unat b * 512 + 512)"
  using assms valid_block [OF assms(1)]
  by (auto simp: read_block_def Let_def sub_slice_def copy_slice_def BLOCK_SIZE_def)

lemma write_block_valid:
  assumes "unat b < RAMDISK_BLOCKS" and "length d = RAMDISK_SIZE" and "length buf = BLOCK_SIZE"
  shows "write_block d b buf = Some (copy_slice d (unat b * 512) buf)"
  using assms valid_block [OF assms(1)]
  by (simp add: write_block_def Let_def BLOCK_SIZE_def)

interpretation ramdisk: block_device read_block write_block "\<lambda>b. unat b < RAMDISK_BLOCKS" "\<lambda>d. length d = RAMDISK_SIZE"
proof (unfold_locales, goal_cases)
  case (1 d b buf)
  then show ?case using valid_block [of b] by (simp add: write_block_valid BLOCK_SIZE_def)
next
  case (2 d b buf)
  then show ?case using valid_block [of b] by (auto simp: read_block_valid sub_slice_def BLOCK_SIZE_def)
next
  case (3 d b buf buf')
  then show ?case by (simp add: read_block_valid)
next
  case (4 d b buf t d')
  then show ?case using valid_block [of b] sub_slice_copy_same [of "unat b * 512" buf d]
    by (auto simp: read_block_valid write_block_valid BLOCK_SIZE_def)
next
  case (5 d b c buf t d')
  then have "unat b \<noteq> unat c" by (simp add: word_unat_eq_iff)
  then have "unat c * 512 + 512 \<le> unat b * 512 \<or> unat b * 512 + 512 \<le> unat c * 512" by linarith
  with 5 show ?case using valid_block [of b] sub_slice_copy_other [of "unat b * 512" buf d "unat c * 512 + 512" "unat c * 512"]
    by (auto simp: read_block_valid write_block_valid BLOCK_SIZE_def)
qed

lemma run_valid:
  assumes "unat (b :: usize) + n \<le> RAMDISK_BLOCKS" and "i < n"
  shows "unat (b + of_nat i) = unat b + i"
proof -
  have "unat (of_nat i :: usize) = i" using assms by (simp add: unat_of_nat_small block_consts)
  moreover have "unat b + i < 2 ^ LENGTH(64)" using assms by (simp add: block_consts)
  ultimately show ?thesis using unat_plus_no_wrap [of b "of_nat i"] by presburger
qed

lemma run_inj: "unat (b :: usize) + n \<le> RAMDISK_BLOCKS \<Longrightarrow> inj_on (\<lambda>i. b + of_nat i) {..<n}"
  by (rule inj_onI) (metis add_left_cancel lessThan_iff run_valid)

lemma run_outside:
  "unat (b :: usize) + n \<le> RAMDISK_BLOCKS \<Longrightarrow> unat c < unat b \<or> unat b + n \<le> unat c \<Longrightarrow> c \<notin> (\<lambda>i. b + of_nat i) ` {..<n}"
  using run_valid [of b n] by auto

text \<open>
  C35. The RAM disk's multi-block helpers round-trip: writing a buffer of \<open>n\<close> blocks inside the disk
  succeeds, reading the same run returns exactly that buffer, and every block outside the run reads
  as before.
\<close>

theorem ramdisk_write_read_blocks:
  assumes "length disk = RAMDISK_SIZE" and "unat b + unat n \<le> RAMDISK_BLOCKS"
    and "length buf = unat n * BLOCK_SIZE" and "length t = unat n * BLOCK_SIZE"
  shows "\<exists>disk'. write_blocks b n buf disk = Some disk' \<and> length disk' = RAMDISK_SIZE \<and>
    read_blocks disk' b n t = Some buf \<and>
    (\<forall>c u. unat c < RAMDISK_BLOCKS \<longrightarrow> (unat c < unat b \<or> unat b + unat n \<le> unat c) \<longrightarrow> length u = BLOCK_SIZE \<longrightarrow>
       read_block disk' c u = read_block disk c u)"
proof -
  have "\<forall>i < unat n. unat (b + of_nat i) < RAMDISK_BLOCKS"
    using run_valid [OF assms(2)] assms(2) by auto
  from ramdisk.write_read_run [OF assms(1,3,4) this run_inj [OF assms(2)]] obtain d' where
    d': "write_blocks_loop write_block b [0..<unat n] buf disk = Some d'" "length d' = RAMDISK_SIZE"
      "read_blocks_loop (read_block d') b [0..<unat n] t = Some buf"
    and other: "\<And>c u. unat c < RAMDISK_BLOCKS \<Longrightarrow> c \<notin> (\<lambda>i. b + of_nat i) ` {..<unat n} \<Longrightarrow>
      length u = BLOCK_SIZE \<Longrightarrow> read_block d' c u = read_block disk c u" by blast
  show ?thesis
    unfolding write_blocks_def read_blocks_def
    by (intro exI [of _ d'] conjI allI impI d' other run_outside [OF assms(2)])
qed

theorem ramdisk_write_read_blocks_witness:
  "\<exists>disk'. write_blocks 3 2 (replicate 1024 7) ramdisk_zero = Some disk' \<and>
    read_blocks disk' 3 2 (replicate 1024 0) = Some (replicate 1024 7)"
  using ramdisk_write_read_blocks [of ramdisk_zero 3 2 "replicate 1024 7" "replicate 1024 0"]
  by (auto simp: ramdisk_zero_def block_consts)

section \<open>Positions of the adapter\<close>

lemma unat_capacity [simp]: "unat capacity = 4194304" "uint capacity = 4194304" "sint capacity = 4194304"
  by (simp_all add: capacity_def block_consts)

lemma position_set_position [simp]: "position (set_position p d) = p"
  by (simp add: position_def set_position_def BLOCK_SIZE_def) (metis word_mod_div_equality)

text \<open>The position a seek asks for, in unbounded integers: an unknown \<^verbatim>\<open>whence\<close> counts as \<^verbatim>\<open>SEEK_SET\<close>.\<close>

definition seek_target :: "ext4_disk \<Rightarrow> u64 \<Rightarrow> i32 \<Rightarrow> int" where
  "seek_target d off whence =
     (if whence = 1 then uint (position d) + sint off else if whence = 2 then 4194304 + sint off else sint off)"

lemma sint_u64_small: "uint (w :: u64) < 2 ^ 63 \<Longrightarrow> sint w = uint w"
  unfolding sint_uint by (rule signed_take_bit_int_eq_self) (simp_all add: order_trans [of _ 0])

lemma sint_u64_big: "2 ^ 63 \<le> uint (w :: u64) \<Longrightarrow> sint w < 0"
proof -
  assume "2 ^ 63 \<le> uint w"
  then have "signed_take_bit 63 (uint w) \<le> uint w - 2 ^ 64"
    using signed_take_bit_int_less_eq [of 63 "uint w"] by simp
  moreover have "uint w < 2 ^ 64" using uint_lt2p [of w] by simp
  moreover have "sint w = signed_take_bit 63 (uint w)" using sint_uint [of w] by simp
  ultimately show ?thesis by linarith
qed

lemma le_capacity_iff: "w \<le> capacity \<longleftrightarrow> 0 \<le> sint w \<and> sint w \<le> 4194304"
  using sint_u64_small [of w] sint_u64_big [of w] by (cases "uint w < 2 ^ 63") (auto simp: word_le_def)

lemma sint_word_of_int_u64: "- (2 ^ 63) \<le> r \<Longrightarrow> r < 2 ^ 63 \<Longrightarrow> sint (word_of_int r :: u64) = r"
  using signed_take_bit_int_eq_self [of 63 r]
  by (simp add: sint_sbintrunc')

lemma uint_word_of_int_u64: "0 \<le> r \<Longrightarrow> r < 2 ^ 64 \<Longrightarrow> uint (word_of_int r :: u64) = r"
  by (simp add: uint_word_of_int)

text \<open>
  \<^verbatim>\<open>Ext4Disk::seek\<close> computes in unbounded integers: it succeeds exactly when the requested
  position (from the start, from the current position, or from the end of the disk) lies between 0
  and the capacity, and then the new position is that target; otherwise it returns -1 and the
  position stays. No machine overflow changes the result.
\<close>

lemma ext4_seek_exact:
  "(let t = seek_target d off whence in
    if 0 \<le> t \<and> t \<le> 4194304
    then fst (ext4_seek d off whence) = Inr (word_of_int t) \<and> uint (position (snd (ext4_seek d off whence))) = t
    else ext4_seek d off whence = (Inl (- 1), d))"
proof -
  consider (cur) "whence = 1" | (fin) "whence = 2" | (set) "whence \<noteq> 1" "whence \<noteq> 2" by blast
  then show ?thesis
  proof cases
    case cur
    let ?t = "uint (position d) + sint off"
    have "uint (word_of_int ?t :: u64) = ?t" if "0 \<le> ?t" "?t < 2 ^ 64"
      using that by (rule uint_word_of_int_u64)
    then show ?thesis using cur
      by (auto simp: ext4_seek_def seek_target_def checked_add_signed_def Let_def word_less_def)
  next
    case fin
    let ?t = "4194304 + sint off"
    have "- (2 ^ 63) \<le> sint off" "sint off < 2 ^ 63"
      using sint_ge [of off] sint_lt [of off] by simp_all
    then have "word_of_int ?t \<le> capacity \<longleftrightarrow> 0 \<le> ?t \<and> ?t \<le> 4194304" if "?t < 2 ^ 63"
      using that le_capacity_iff [of "word_of_int ?t"] sint_word_of_int_u64 [of ?t] by simp
    moreover have "uint (word_of_int ?t :: u64) = ?t" if "0 \<le> ?t" "?t \<le> 4194304"
      using that by (intro uint_word_of_int_u64) simp_all
    ultimately show ?thesis using fin \<open>- (2 ^ 63) \<le> sint off\<close>
      by (auto simp: ext4_seek_def seek_target_def checked_add_i64_def Let_def not_less [symmetric])
  next
    case set
    have "uint off = sint off" if "0 \<le> sint off"
      using that sint_u64_small [of off] sint_u64_big [of off] by linarith
    then show ?thesis using set le_capacity_iff [of off]
      by (auto simp: ext4_seek_def seek_target_def Let_def not_less [symmetric])
  qed
qed

text \<open>
  C28. Blocks written through the adapter are read back: from an aligned position with room for the
  buffer, \<^verbatim>\<open>write_one\<close> returns the buffer's length and advances the position by it, and after
  seeking back \<^verbatim>\<open>read_one\<close> fills any buffer of the same length with the bytes written.
\<close>

theorem ext4_disk_write_read:
  assumes "length disk = RAMDISK_SIZE" and "ed_offset d = 0"
    and "length buf mod BLOCK_SIZE = 0" and "length t = length buf"
    and "unat (position d) + length buf \<le> RAMDISK_SIZE" and "unat (ed_block_id d) \<le> RAMDISK_BLOCKS"
  shows "\<exists>disk' d1. write_one d buf disk = Some (Inr (of_nat (length buf)), disk', d1) \<and>
    unat (position d1) = unat (position d) + length buf \<and> ed_offset d1 = 0 \<and>
    (\<exists>d3. read_one disk' (snd (ext4_seek d1 (position d) 0)) t = Some (Inr (of_nat (length buf)), buf, d3))"
proof -
  let ?b = "ed_block_id d" and ?n = "length buf div BLOCK_SIZE"
  have n: "length buf = ?n * BLOCK_SIZE" using assms(3) by (simp add: mod_eq_0_iff_dvd)
  have "unat ?b * 512 < 2 ^ 64" using assms(6) by (simp add: block_consts)
  then have pos: "unat (position d) = unat ?b * 512"
    using assms(2) by (simp add: position_def unat_word_ariths BLOCK_SIZE_def)
  have run: "unat ?b + ?n \<le> RAMDISK_BLOCKS" using assms(5) pos n by (simp add: block_consts)
  have "\<forall>i < ?n. unat (?b + of_nat i) < RAMDISK_BLOCKS" using run_valid [OF run] run by auto
  from ramdisk.write_read_run [OF assms(1) n _ this run_inj [OF run]] assms(4) n obtain disk' where
    disk': "write_blocks_loop write_block ?b [0..<?n] buf disk = Some disk'"
      "read_blocks_loop (read_block disk') ?b [0..<?n] t = Some buf" by metis
  let ?d1 = "set_position (position d + of_nat (length buf)) d"
  have len: "unat (of_nat (length buf) :: u64) = length buf"
    using assms(5) by (simp add: unat_of_nat_small RAMDISK_SIZE_def)
  then have p1: "unat (position d + of_nat (length buf)) = unat (position d) + length buf"
    using assms(5) unat_plus_no_wrap [of "position d" "of_nat (length buf)"] by (simp add: RAMDISK_SIZE_def)
  have off1: "ed_offset ?d1 = 0"
    using p1 pos assms(3) by (simp add: set_position_def word_unat_eq_iff unat_mod BLOCK_SIZE_def)
  have "position d \<le> capacity" using assms(5) by (simp add: word_le_nat_alt RAMDISK_SIZE_def)
  then have seek: "snd (ext4_seek ?d1 (position d) 0) = set_position (position d) ?d1"
    by (simp add: ext4_seek_def Let_def)
  have home: "ed_block_id (set_position (position d) ?d1) = ?b" "ed_offset (set_position (position d) ?d1) = 0"
    using pos by (simp_all add: set_position_def word_unat_eq_iff unat_div unat_mod BLOCK_SIZE_def)
  have "write_one d buf disk = Some (Inr (of_nat (length buf)), disk', ?d1)"
    using assms(2,3) disk'(1) by (simp add: write_one_def)
  moreover have "\<exists>d3. read_one disk' (set_position (position d) ?d1) t = Some (Inr (of_nat (length buf)), buf, d3)"
    using assms(3,4) disk'(2) home by (simp add: read_one_def)
  ultimately show ?thesis using p1 off1 seek by auto
qed

theorem ext4_disk_write_read_witness:
  "\<exists>disk' d1. write_one (set_position 1024 ext4_disk_new) (replicate 512 9) ramdisk_zero = Some (Inr 512, disk', d1) \<and>
    unat (position d1) = 1536"
  using ext4_disk_write_read [of ramdisk_zero "set_position 1024 ext4_disk_new" "replicate 512 9" "replicate 512 0"]
  by (auto simp: ramdisk_zero_def block_consts set_position_def position_def)

end
