(* ===== verification/Blk_Task.thy ===== *)
theory Blk_Task
  imports Ramdisk
begin

text \<open>
  The message loop of the block server, \<^verbatim>\<open>blk-task/src/main.rs\<close>, and the decimal printing routines
  of \<^verbatim>\<open>blk-task/src/main.rs\<close> and \<^verbatim>\<open>root-task/src/print.rs\<close>. A client passes the address of its
  buffer in a message register; the server reads and writes its own address space there, which is
  the byte-addressed memory of \<open>blk_state\<close>.
\<close>

section \<open>The server\<close>

record 'k blk_state =
  bs_disk :: bytes
  bs_mem :: "usize \<Rightarrow> u8"
  bs_machine :: "'k machine"

definition MSG_READ :: usize where "MSG_READ = 2"
definition MSG_WRITE :: usize where "MSG_WRITE = 3"
definition MSG_CAPACITY :: usize where "MSG_CAPACITY = 4"

text \<open>\<^verbatim>\<open>for i in 0..block_num\<close> over raw slices of the server's memory.\<close>

fun blk_read_loop :: "bytes \<Rightarrow> usize \<Rightarrow> usize \<Rightarrow> nat list \<Rightarrow> (usize \<Rightarrow> u8) \<Rightarrow> (usize \<Rightarrow> u8) option" where
  "blk_read_loop disk block_id buf_addr [] mem = Some mem"
| "blk_read_loop disk block_id buf_addr (i # is) mem =
     (let offset = buf_addr + of_nat i * of_nat BLOCK_SIZE
      in do {
        buf \<leftarrow> read_block disk (block_id + of_nat i) (mem_slice mem offset BLOCK_SIZE);
        blk_read_loop disk block_id buf_addr is (mem_store mem offset buf)
      })"

fun blk_write_loop :: "usize \<Rightarrow> usize \<Rightarrow> (usize \<Rightarrow> u8) \<Rightarrow> nat list \<Rightarrow> bytes \<Rightarrow> bytes option" where
  "blk_write_loop block_id buf_addr mem [] disk = Some disk"
| "blk_write_loop block_id buf_addr mem (i # is) disk =
     (let offset = buf_addr + of_nat i * of_nat BLOCK_SIZE
      in do {
        disk' \<leftarrow> write_block disk (block_id + of_nat i) (mem_slice mem offset BLOCK_SIZE);
        blk_write_loop block_id buf_addr mem is disk'
      })"

text \<open>\<^verbatim>\<open>with_ipc_buffer(|ib| { ib.write_mr(0, v); seL4_Reply(reply.word()); })\<close>\<close>

definition blk_reply :: "'k kernel \<Rightarrow> usize \<Rightarrow> 'k machine \<Rightarrow> 'k machine option" where
  "blk_reply kern v m =
     do {
       (_, m') \<leftarrow> with_ipc_buffer (\<lambda>ib. ((), write_mr ib 0 v)) m;
       Some (seL4_Reply kern (mi_word (mi_new 0 1 0)) m')
     }"

definition blk_args :: "'k machine \<Rightarrow> ((usize \<times> usize \<times> usize) \<times> 'k machine) option" where
  "blk_args m = with_ipc_buffer (\<lambda>ib. ((read_mr ib 0, read_mr ib 1, read_mr ib 2), ib)) m"

text \<open>The body of the loop after a message with the given tag has been received.\<close>

definition blk_handle :: "'k kernel \<Rightarrow> usize \<Rightarrow> 'k blk_state \<Rightarrow> 'k blk_state option" where
  "blk_handle kern tag s =
     (let msg_type = ucast (mi_label (mi_from_word tag))
      in if msg_type = MSG_READ then do {
           ((block_id, block_num, buf_addr), m1) \<leftarrow> blk_args (bs_machine s);
           mem \<leftarrow> blk_read_loop (bs_disk s) block_id buf_addr [0..<unat block_num] (bs_mem s);
           m2 \<leftarrow> blk_reply kern 0 m1;
           Some (s\<lparr> bs_mem := mem, bs_machine := m2 \<rparr>)
         }
         else if msg_type = MSG_WRITE then do {
           ((block_id, block_num, buf_addr), m1) \<leftarrow> blk_args (bs_machine s);
           disk \<leftarrow> blk_write_loop block_id buf_addr (bs_mem s) [0..<unat block_num] (bs_disk s);
           m2 \<leftarrow> blk_reply kern 0 m1;
           Some (s\<lparr> bs_disk := disk, bs_machine := m2 \<rparr>)
         }
         else if msg_type = MSG_CAPACITY then do {
           m2 \<leftarrow> blk_reply kern capacity (bs_machine s);
           Some (s\<lparr> bs_machine := m2 \<rparr>)
         }
         else do {
           m2 \<leftarrow> blk_reply kern (- 1) (seL4_DebugPutString kern (str ''[blk-task] unknown message\<newline>'') (bs_machine s));
           Some (s\<lparr> bs_machine := m2 \<rparr>)
         })"

text \<open>One round of the loop: receive on slot 20 and handle.\<close>

definition blk_step :: "'k kernel \<Rightarrow> 'k blk_state \<Rightarrow> 'k blk_state option" where
  "blk_step kern s =
     do {
       ((tag, _), m) \<leftarrow> seL4_Recv kern 20 (bs_machine s);
       blk_handle kern tag (s\<lparr> bs_machine := m \<rparr>)
     }"

section \<open>Decimal output\<close>

text \<open>
  \<^verbatim>\<open>print_u64\<close> of the block server fills \<^verbatim>\<open>buf\<close> from the front and prints it backwards; \<^verbatim>\<open>put_u64\<close> of
  the root task fills it from the back. Both index a 20-byte array, where an index out of range
  panics. The loops are recursions on the value, which division makes smaller.
\<close>

function print_u64_loop :: "u64 \<Rightarrow> nat \<Rightarrow> bytes \<Rightarrow> (bytes \<times> nat) option" where
  "print_u64_loop v i buf =
     (if v > 0
      then (if i < length buf
            then print_u64_loop (v div 10) (i + 1) (buf[i := 48 + ucast (v mod 10)])
            else None)
      else Some (buf, i))"
  by auto
termination
  by (relation "measure (\<lambda>(v, i, buf). unat v)") (auto simp: unat_div word_less_nat_alt)

definition print_u64_bytes :: "u64 \<Rightarrow> bytes option" where
  "print_u64_bytes val =
     (if val = 0 then Some [48]
      else do {
        (buf, i) \<leftarrow> print_u64_loop val 0 (replicate 20 0);
        Some (map (\<lambda>j. buf ! j) (rev [0..<i]))
      })"

function put_u64_loop :: "u64 \<Rightarrow> nat \<Rightarrow> bytes \<Rightarrow> (bytes \<times> nat) option" where
  "put_u64_loop v i buf =
     (if v > 0
      then (if 0 < i \<and> i \<le> length buf
            then put_u64_loop (v div 10) (i - 1) (buf[i - 1 := 48 + ucast (v mod 10)])
            else None)
      else Some (buf, i))"
  by auto
termination
  by (relation "measure (\<lambda>(v, i, buf). unat v)") (auto simp: unat_div word_less_nat_alt)

definition put_u64_bytes :: "u64 \<Rightarrow> bytes option" where
  "put_u64_bytes val =
     (if val = 0 then Some [48]
      else do {
        (buf, i) \<leftarrow> put_u64_loop val 20 (replicate 20 0);
        Some (drop i buf)
      })"

definition print_u64 :: "'k kernel \<Rightarrow> u64 \<Rightarrow> 'k machine \<Rightarrow> 'k machine option" where
  "print_u64 kern val m = map_option (\<lambda>bs. fold (seL4_DebugPutChar kern) bs m) (print_u64_bytes val)"

definition put_u64 :: "'k kernel \<Rightarrow> u64 \<Rightarrow> 'k machine \<Rightarrow> 'k machine option" where
  "put_u64 kern val m = map_option (\<lambda>bs. fold (seL4_DebugPutChar kern) bs m) (put_u64_bytes val)"

declare print_u64_loop.simps [simp del] put_u64_loop.simps [simp del]

section \<open>Lemmas\<close>

text \<open>The decimal digits of a number, least significant first.\<close>

fun digits :: "nat \<Rightarrow> u8 list" where
  "digits n = (if n = 0 then [] else of_nat (48 + n mod 10) # digits (n div 10))"

declare digits.simps [simp del]

lemma digits_0 [simp]: "digits 0 = []"
  by (simp add: digits.simps)

lemma digits_pos: "0 < n \<Longrightarrow> digits n = of_nat (48 + n mod 10) # digits (n div 10)"
  by (simp add: digits.simps [of n])

lemma length_digits: "n < 10 ^ k \<Longrightarrow> length (digits n) \<le> k"
proof (induction k arbitrary: n)
  case (Suc k)
  then have "n div 10 < 10 ^ k" by (simp add: less_mult_imp_div_less)
  with Suc.IH show ?case by (cases "n = 0") (auto simp: digits_pos)
qed (simp add: digits.simps)

lemma length_digits_u64: "length (digits (unat (v :: u64))) \<le> 20"
proof (rule length_digits)
  have "unat v < 2 ^ 64" by (rule unat_less_64)
  also have "(2 :: nat) ^ 64 \<le> 10 ^ 20" by simp
  finally show "unat v < 10 ^ 20" .
qed

lemma digit_byte: "(48 :: u8) + ucast (v mod 10 :: u64) = of_nat (48 + unat v mod 10)"
proof -
  have "(ucast (v mod 10) :: u8) = of_nat (unat (v mod 10))" by simp
  then show ?thesis by (simp add: unat_mod)
qed

lemma put_u64_loop_digits:
  "length (digits (unat v)) \<le> i \<Longrightarrow> i \<le> length buf \<Longrightarrow>
   put_u64_loop v i buf = Some (take (i - length (digits (unat v))) buf @ rev (digits (unat v)) @ drop i buf,
                                i - length (digits (unat v)))"
proof (induction v i buf rule: put_u64_loop.induct)
  case (1 v i buf)
  show ?case
  proof (cases "v > 0")
    case True
    then have pos: "0 < unat v" by (simp add: word_less_nat_alt)
    let ?b = "buf[i - 1 := 48 + ucast (v mod 10)]"
    have d: "digits (unat v) = of_nat (48 + unat v mod 10) # digits (unat (v div 10))"
      using digits_pos [OF pos] by (simp add: unat_div)
    have i: "0 < i" "i \<le> length buf" using 1 d by auto
    from 1(1) [OF True] i 1(2) d have
      IH: "put_u64_loop (v div 10) (i - 1) ?b = Some (take (i - 1 - length (digits (unat (v div 10)))) ?b @
        rev (digits (unat (v div 10))) @ drop (i - 1) ?b, i - 1 - length (digits (unat (v div 10))))" by auto
    have "drop (i - 1) ?b = of_nat (48 + unat v mod 10) # drop i buf"
      using i digit_byte [of v] by (simp add: upd_conv_take_nth_drop)
    then show ?thesis using IH True i d
      by (simp add: put_u64_loop.simps [of v] )
  next
    case False
    then show ?thesis by (simp add: put_u64_loop.simps [of v] word_less_nat_alt)
  qed
qed

lemma print_u64_loop_digits:
  "i + length (digits (unat v)) \<le> length buf \<Longrightarrow>
   \<exists>buf'. print_u64_loop v i buf = Some (buf', i + length (digits (unat v))) \<and>
     take (i + length (digits (unat v))) buf' = take i buf @ digits (unat v) \<and> length buf' = length buf"
proof (induction v i buf rule: print_u64_loop.induct)
  case (1 v i buf)
  show ?case
  proof (cases "v > 0")
    case True
    then have pos: "0 < unat v" by (simp add: word_less_nat_alt)
    let ?b = "buf[i := 48 + ucast (v mod 10)]"
    have d: "digits (unat v) = of_nat (48 + unat v mod 10) # digits (unat (v div 10))"
      using digits_pos [OF pos] by (simp add: unat_div)
    have i: "i < length buf" using 1 d by auto
    from 1(1) [OF True i] 1(2) d obtain buf' where
      "print_u64_loop (v div 10) (i + 1) ?b = Some (buf', i + 1 + length (digits (unat (v div 10))))"
      "take (i + 1 + length (digits (unat (v div 10)))) buf' = take (i + 1) ?b @ digits (unat (v div 10))"
      "length buf' = length ?b" by auto
    moreover have "take (i + 1) ?b = take i buf @ [of_nat (48 + unat v mod 10)]"
      using i digit_byte [of v] by (simp add: take_Suc_conv_app_nth)
    ultimately show ?thesis using True i d by (simp add: print_u64_loop.simps [of v])
  next
    case False
    then show ?thesis by (simp add: print_u64_loop.simps [of v] word_less_nat_alt)
  qed
qed

lemma map_nth_rev_upt: "n \<le> length xs \<Longrightarrow> map (\<lambda>j. xs ! j) (rev [0..<n]) = rev (take n xs)"
proof -
  assume "n \<le> length xs"
  then have "map ((!) xs) [0..<n] = take n xs" by (auto intro!: nth_equalityI)
  then show ?thesis by (simp add: rev_map [symmetric])
qed

text \<open>The decimal digits of a value, most significant first.\<close>

definition decimal :: "u64 \<Rightarrow> bytes" where
  "decimal v = (if v = 0 then [48] else rev (digits (unat v)))"

lemma put_u64_bytes_decimal: "put_u64_bytes v = Some (decimal v)"
  using put_u64_loop_digits [of v 20 "replicate 20 0"] length_digits_u64 [of v]
  by (simp add: put_u64_bytes_def decimal_def)

lemma print_u64_bytes_decimal: "print_u64_bytes v = Some (decimal v)"
proof (cases "v = 0")
  case False
  let ?n = "length (digits (unat v))"
  have n: "?n \<le> 20" by (rule length_digits_u64)
  from print_u64_loop_digits [of 0 v "replicate 20 0"] n obtain buf where
    "print_u64_loop v 0 (replicate 20 0) = Some (buf, ?n)" "take ?n buf = digits (unat v)" "length buf = 20"
    by auto
  then show ?thesis using False n by (simp add: print_u64_bytes_def map_nth_rev_upt decimal_def)
qed (simp add: print_u64_bytes_def decimal_def)

text \<open>
  C39. Both decimal routines print the same thing for every 64-bit value, the usual decimal digits,
  most significant first and \<^verbatim>\<open>0\<close> for zero; the 20-byte buffer always suffices, so neither panics.
\<close>

theorem decimal_output:
  "print_u64_bytes v = Some (if v = 0 then [48] else rev (digits (unat v))) \<and>
   put_u64_bytes v = print_u64_bytes v"
  by (simp add: print_u64_bytes_decimal put_u64_bytes_decimal decimal_def)

end
