(* ===== verification/Root_Shell.thy ===== *)
theory Root_Shell
  imports Runner Blk_Task
begin

text \<open>
  The shell server of the root task (\<^verbatim>\<open>root-task/src/main.rs\<close>): it starts the program in its own address space and then
  serves its faults, one message per round: missing pages, system calls, the emulation of \<^verbatim>\<open>fork\<close> with a second TCB,
  \<^verbatim>\<open>execve\<close> of built-in commands, and the end of parent and child.

  \<open>None\<close> is a panic, or waiting for console input for ever. The memory of the child is the memory of the root task (the
  parameter \<open>ram\<close> of \<open>Runtime\<close>).
\<close>

section \<open>State\<close>

text \<open>The local variables of \<^verbatim>\<open>test_busybox\<close> that change, and those that do not.\<close>

record 'k shell =
  sh_pool :: obj_pool
  sh_machine :: "'k machine"
  sh_client :: fs_client
  fault_count :: nat
  child_exited :: bool
  brk_cur :: usize
  mmap_cur :: usize
  active_tcb :: usize
  is_child :: bool
  parent_regs :: "usize list option"
  parent_brk :: usize
  parent_mmap :: usize

record sh_env =
  en_bi :: boot_info
  fault_ep :: usize
  busybox_tcb :: usize
  child_tcb_slot :: usize
  ut_found :: nat
  com1_cap :: usize

definition child_pid :: usize where "child_pid = 42"

section \<open>Steps on the state\<close>

definition on_machine :: "('k machine \<Rightarrow> 'k machine) \<Rightarrow> 'k shell \<Rightarrow> 'k shell" where
  "on_machine f s = s\<lparr> sh_machine := f (sh_machine s) \<rparr>"

definition kcall :: "('k machine \<Rightarrow> ('a \<times> 'k machine) option) \<Rightarrow> 'k shell \<Rightarrow> ('a \<times> 'k shell) option" where
  "kcall f s = (case f (sh_machine s) of None \<Rightarrow> None | Some (x, m) \<Rightarrow> Some (x, s\<lparr> sh_machine := m \<rparr>))"

definition with_client :: "(fs_client \<Rightarrow> 'k machine \<Rightarrow> ('a \<times> fs_client \<times> 'k machine) option) \<Rightarrow> 'k shell \<Rightarrow> ('a \<times> 'k shell) option" where
  "with_client f s =
     (case f (sh_client s) (sh_machine s) of
        None \<Rightarrow> None
      | Some (x, c, m) \<Rightarrow> Some (x, s\<lparr> sh_client := c, sh_machine := m \<rparr>))"

definition sh_alloc :: "'k shell \<Rightarrow> (usize \<times> 'k shell) option" where
  "sh_alloc s = (case op_alloc (sh_pool s) of (None, p) \<Rightarrow> None | (Some x, p) \<Rightarrow> Some (x, s\<lparr> sh_pool := p \<rparr>))"

definition prints :: "'k kernel \<Rightarrow> (string + usize) list \<Rightarrow> 'k machine \<Rightarrow> 'k machine" where
  "prints kern items = fold (\<lambda>x. case x of Inl txt \<Rightarrow> seL4_DebugPutString kern (str txt) | Inr v \<Rightarrow> print_hex kern v) items"

abbreviation tell :: "'k kernel \<Rightarrow> (string + usize) list \<Rightarrow> 'k shell \<Rightarrow> 'k shell" where
  "tell kern items \<equiv> on_machine (prints kern items)"

abbreviation warn :: "'k kernel \<Rightarrow> usize \<Rightarrow> string \<Rightarrow> 'k shell \<Rightarrow> 'k shell" where
  "warn kern e txt s \<equiv> (if e \<noteq> 0 then tell kern [Inl txt, Inr e, newline] s else s)"

definition reply_empty :: "'k kernel \<Rightarrow> 'k shell \<Rightarrow> 'k shell" where
  "reply_empty kern = on_machine (seL4_Reply kern (mi_word (mi_new 0 0 0)))"

section \<open>Console input\<close>

text \<open>One character of the line: whether the line ends, and the number of bytes in the buffer.\<close>

definition stdin_key :: "'k kernel \<Rightarrow> 'k ram \<Rightarrow> usize \<Rightarrow> usize \<Rightarrow> u8 \<Rightarrow> usize \<Rightarrow> 'k machine \<Rightarrow> bool \<times> usize \<times> 'k machine" where
  "stdin_key kern ram buf cnt ch n m =
     (if ch = 13 \<or> ch = 10 then
        let m1 = seL4_DebugPutChar kern 10 (seL4_DebugPutChar kern 13 m)
        in if n < cnt then (True, n + 1, store_byte ram (buf + n) 10 m1) else (True, n, m1)
      else if ch = 0x7f \<or> ch = 8 then
        if n > 0 then (False, n - 1, seL4_DebugPutChar kern 8 (seL4_DebugPutChar kern 32 (seL4_DebugPutChar kern 8 m)))
        else (False, n, m)
      else if n < cnt then (False, n + 1, seL4_DebugPutChar kern ch (store_byte ram (buf + n) ch m))
      else (False, n, m))"

partial_function (option) stdin_loop ::
  "'k kernel \<Rightarrow> 'k ram \<Rightarrow> usize \<Rightarrow> usize \<Rightarrow> usize \<Rightarrow> usize \<Rightarrow> 'k machine \<Rightarrow> (usize \<times> 'k machine) option" where
  "stdin_loop kern ram com1 buf cnt n m =
     do {
       ((err, lsr), m1) \<leftarrow> seL4_X86_IOPort_In8 kern com1 0x3fd m;
       if err \<noteq> 0 then Some (n, m1)
       else if lsr AND 1 = 0 then stdin_loop kern ram com1 buf cnt n (seL4_Yield kern m1)
       else do {
         ((err, ch), m2) \<leftarrow> seL4_X86_IOPort_In8 kern com1 0x3f8 m1;
         if err \<noteq> 0 then Some (n, m2)
         else
           let (fin, n', m3) = stdin_key kern ram buf cnt ch n m2
           in if fin \<or> n' \<ge> cnt then Some (n', m3) else stdin_loop kern ram com1 buf cnt n' m3
       }
     }"

definition read_stdin_line :: "'k kernel \<Rightarrow> 'k ram \<Rightarrow> usize \<Rightarrow> usize \<Rightarrow> usize \<Rightarrow> 'k machine \<Rightarrow> (usize \<times> 'k machine) option" where
  "read_stdin_line kern ram com1 buf cnt = stdin_loop kern ram com1 buf cnt 0"

section \<open>The child's memory\<close>

fun child_cstr_loop :: "'k ram \<Rightarrow> 'k machine \<Rightarrow> usize \<Rightarrow> nat \<Rightarrow> bytes" where
  "child_cstr_loop ram m a 0 = []"
| "child_cstr_loop ram m a (Suc k) =
     (let b = load_byte ram m a in if b = 0 then [] else b # child_cstr_loop ram m (a + 1) k)"

definition read_cstr_from_child :: "'k ram \<Rightarrow> 'k machine \<Rightarrow> usize \<Rightarrow> bytes" where
  "read_cstr_from_child ram m addr = from_utf8_lossy (child_cstr_loop ram m addr 4096)"

abbreviation child_path :: "'k ram \<Rightarrow> 'k shell \<Rightarrow> usize \<Rightarrow> bytes" where
  "child_path ram s addr \<equiv> read_cstr_from_child ram (sh_machine s) addr"

text \<open>The argument pointers, at most 33 of them.\<close>

fun read_argv :: "'k ram \<Rightarrow> 'k machine \<Rightarrow> usize \<Rightarrow> nat \<Rightarrow> bytes list" where
  "read_argv ram m ap 0 = []"
| "read_argv ram m ap (Suc k) =
     (let ptr = load_word ram m ap
      in if ptr = 0 then [] else read_cstr_from_child ram m ptr # read_argv ram m (ap + 8) k)"

text \<open>\<^verbatim>\<open>for j in 0..n { seL4_DebugPutChar(*(a + j)) }\<close>\<close>

definition echo_bytes :: "'k kernel \<Rightarrow> 'k ram \<Rightarrow> usize \<Rightarrow> nat \<Rightarrow> 'k machine \<Rightarrow> 'k machine" where
  "echo_bytes kern ram a n m = fold (\<lambda>j m. seL4_DebugPutChar kern (load_byte ram m (a + of_nat j)) m) [0..<n] m"

text \<open>What follows the last slash.\<close>

definition basename :: "bytes \<Rightarrow> bytes" where
  "basename path = rev (takeWhile (\<lambda>b. b \<noteq> 0x2F) (rev path))"

text \<open>\<^verbatim>\<open>(-(e.abs())) as usize\<close>\<close>

definition err_ret :: "i32 \<Rightarrow> usize" where
  "err_ret e = scast (- (if sint e < 0 then - e else e))"

section \<open>System calls\<close>

text \<open>The value of a call, whether the child is already resumed, and the state.\<close>

type_synonym 'k served = "(usize \<times> bool \<times> 'k shell) option"

abbreviation answer :: "usize \<Rightarrow> 'k shell \<Rightarrow> 'k served" where
  "answer v s \<equiv> Some (v, False, s)"

definition sc_read :: "'k kernel \<Rightarrow> 'k ram \<Rightarrow> sh_env \<Rightarrow> usize \<Rightarrow> usize \<Rightarrow> usize \<Rightarrow> 'k shell \<Rightarrow> 'k served" where
  "sc_read kern ram en di si dx s =
     (if di = 0 \<and> dx > 0 then do {
        (n, s1) \<leftarrow> kcall (read_stdin_line kern ram (com1_cap en) si dx) (tell kern [Inl ''/ # ''] s);
        answer n s1
      }
      else if di \<ge> 3 \<and> dx > 0 then do {
        (r, buf, m) \<leftarrow> fs_read kern di (replicate (unat (min dx 944)) 0) (sh_client s) (sh_machine s);
        let s1 = s\<lparr> sh_machine := m \<rparr>;
        (case r of
           Inr n \<Rightarrow> if n > 0
             then if unat n \<le> length buf then answer n (on_machine (store_bytes ram si (take (unat n) buf)) s1) else None
             else answer 0 s1
         | Inl _ \<Rightarrow> answer 0 s1)
      }
      else answer 0 s)"

definition sc_write :: "'k kernel \<Rightarrow> 'k ram \<Rightarrow> usize \<Rightarrow> usize \<Rightarrow> usize \<Rightarrow> 'k shell \<Rightarrow> 'k served" where
  "sc_write kern ram di si dx s =
     (if di \<le> 2 then answer dx (on_machine (echo_bytes kern ram si (unat (min dx 4096))) s)
      else do {
        (r, m) \<leftarrow> fs_write kern di (load_bytes ram (sh_machine s) si (unat (min dx 944))) (sh_client s) (sh_machine s);
        answer (case r of Inr n \<Rightarrow> n | Inl e \<Rightarrow> err_ret e) (s\<lparr> sh_machine := m \<rparr>)
      })"

definition sc_close :: "'k kernel \<Rightarrow> usize \<Rightarrow> 'k shell \<Rightarrow> 'k served" where
  "sc_close kern di s = do { (_, s1) \<leftarrow> with_client (fs_close kern di) s; answer 0 s1 }"

text \<open>One entry of the vector: its bytes go to the console, its length to the total.\<close>

definition writev_entry :: "'k kernel \<Rightarrow> 'k ram \<Rightarrow> usize \<Rightarrow> nat \<Rightarrow> usize \<times> 'k machine \<Rightarrow> usize \<times> 'k machine" where
  "writev_entry kern ram si v tm =
     (let (total, m) = tm;
          iov = si + of_nat v * 16;
          base = load_word ram m iov;
          len = load_word ram m (iov + 8)
      in (total + len, echo_bytes kern ram base (unat (min len 8192)) m))"

definition sc_writev :: "'k kernel \<Rightarrow> 'k ram \<Rightarrow> usize \<Rightarrow> usize \<Rightarrow> usize \<Rightarrow> 'k shell \<Rightarrow> 'k served" where
  "sc_writev kern ram di si dx s =
     (if di \<le> 2 then
        let (total, m) = fold (writev_entry kern ram si) [0..<unat (min dx 64)] (0, sh_machine s)
        in answer total (s\<lparr> sh_machine := m \<rparr>)
      else answer (- 9) s)"

definition device_fd :: "bytes \<Rightarrow> usize option" where
  "device_fd path =
     (if path = str ''/dev/null'' then Some 10
      else if path = str ''/dev/zero'' then Some 11
      else if path = str ''/dev/urandom'' then Some 12
      else None)"

text \<open>\<^verbatim>\<open>open\<close> reports numbers in hexadecimal, \<^verbatim>\<open>openat\<close> in decimal and the error negated.\<close>

definition sc_open :: "'k kernel \<Rightarrow> 'k ram \<Rightarrow> usize \<Rightarrow> u32 \<Rightarrow> 'k shell \<Rightarrow> 'k served" where
  "sc_open kern ram path_addr fl s =
     (let path = child_path ram s path_addr
      in case device_fd path of
           Some fd \<Rightarrow> answer fd s
         | None \<Rightarrow> do {
             (r, s1) \<leftarrow> with_client (fs_open kern path fl) s;
             let s2 = on_machine (seL4_DebugPutString kern path) (tell kern [Inl ''[open] ''] s1);
             (case r of
                Inr fd \<Rightarrow> answer fd (tell kern [Inl '' -> fd='', Inr fd, newline] s2)
              | Inl e \<Rightarrow> answer (err_ret e) (tell kern [Inl '' -> err='', Inr (scast e), newline] s2))
           })"

definition sc_openat :: "'k kernel \<Rightarrow> 'k ram \<Rightarrow> usize \<Rightarrow> u32 \<Rightarrow> 'k shell \<Rightarrow> 'k served" where
  "sc_openat kern ram path_addr fl s =
     (let path = child_path ram s path_addr
      in case device_fd path of
           Some fd \<Rightarrow> answer fd s
         | None \<Rightarrow> do {
             (r, s1) \<leftarrow> with_client (fs_open kern path fl) s;
             let s2 = on_machine (seL4_DebugPutString kern path) (tell kern [Inl ''[openat] ''] s1);
             let (txt, num, v) = (case r of Inr fd \<Rightarrow> ('' -> fd='', fd, fd) | Inl e \<Rightarrow> ('' -> err='', scast (- e), err_ret e));
             m \<leftarrow> put_u64 kern num (sh_machine (tell kern [Inl txt] s2));
             answer v (tell kern [newline] (s2\<lparr> sh_machine := m \<rparr>))
           })"

definition sc_lseek :: "'k kernel \<Rightarrow> usize \<Rightarrow> usize \<Rightarrow> usize \<Rightarrow> 'k shell \<Rightarrow> 'k served" where
  "sc_lseek kern di si dx s =
     do {
       (r, m) \<leftarrow> fs_lseek kern di si (ucast dx) (sh_client s) (sh_machine s);
       answer (case r of Inr pos \<Rightarrow> pos | Inl e \<Rightarrow> err_ret e) (s\<lparr> sh_machine := m \<rparr>)
     }"

definition sc_getdents64 :: "'k kernel \<Rightarrow> 'k ram \<Rightarrow> usize \<Rightarrow> usize \<Rightarrow> usize \<Rightarrow> 'k shell \<Rightarrow> 'k served" where
  "sc_getdents64 kern ram di si dx s =
     (let cnt = unat (min dx 944)
      in do {
        (r, buf, m) \<leftarrow> fs_getdents64 kern di (replicate cnt 0) (sh_client s) (sh_machine s);
        let s1 = s\<lparr> sh_machine := m \<rparr>;
        (case r of
           Inr n \<Rightarrow> if n > 0 then answer n (on_machine (store_bytes ram si (take (min (unat n) cnt) buf)) s1) else answer 0 s1
         | Inl e \<Rightarrow> answer (err_ret e) s1)
      })"

definition sc_newfstatat :: "'k kernel \<Rightarrow> 'k ram \<Rightarrow> bytes \<Rightarrow> usize \<Rightarrow> 'k shell \<Rightarrow> 'k served" where
  "sc_newfstatat kern ram path stat_addr s =
     do {
       (r, m) \<leftarrow> fs_stat kern path (sh_machine s);
       let s1 = s\<lparr> sh_machine := m \<rparr>;
       (case r of
          Inr (mode, sz, ino, nlink) \<Rightarrow> answer 0 (on_machine (store_bytes ram stat_addr (stat_buf mode sz ino nlink)) s1)
        | Inl e \<Rightarrow> answer (err_ret e) s1)
     }"

definition applets :: "string list" where
  "applets =
    [''ls'', ''cat'', ''echo'', ''cp'', ''mv'', ''rm'', ''mkdir'', ''rmdir'', ''chmod'', ''chown'', ''touch'', ''grep'',
      ''sed'', ''awk'', ''find'', ''sort'', ''uniq'', ''wc'', ''head'', ''tail'', ''more'', ''less'', ''vi'', ''ed'',
      ''pwd'', ''cd'', ''mount'', ''umount'', ''df'', ''du'', ''free'', ''ps'', ''kill'', ''ln'', ''tar'', ''gzip'',
      ''gunzip'', ''bzip2'', ''wget'', ''ping'', ''ifconfig'', ''route'', ''traceroute'', ''nslookup'', ''telnet'', ''ftp'',
      ''sh'', ''ash'', ''bash'', ''busybox'', ''test'', ''['', ''true'', ''false'', ''sleep'', ''date'', ''hostname'',
      ''uname'', ''id'', ''whoami'', ''env'', ''export'', ''set'', ''unset'', ''read'', ''expr'', ''seq'', ''yes'',
      ''basename'', ''dirname'', ''realpath'', ''which'', ''type'', ''source'', ''.'', ''exec'', ''exit'', ''return'',
      ''trap'', ''wait'', ''jobs'', ''fg'', ''bg'', ''alias'', ''unalias'', ''history'', ''fc'', ''let'', ''local'',
      ''declare'', ''typeset'', ''shift'', ''getopts'', ''eval'', ''command'', ''enable'', ''builtin'', ''hash'', ''help'',
      ''suspend'', ''times'', ''ulimit'', ''umask'', ''disown'', ''logout'', ''caller'', ''compgen'', ''complete'',
      ''compopt'', ''mapfile'', ''readarray'', ''printf'', ''tee'', ''xargs'', ''tr'', ''cut'', ''paste'', ''join'',
      ''comm'', ''diff'', ''patch'', ''strings'', ''od'', ''xxd'', ''hexdump'', ''rev'', ''tac'', ''nl'', ''fold'', ''fmt'',
      ''pr'', ''column'', ''expand'', ''unexpand'', ''iconv'', ''dos2unix'', ''unix2dos'', ''cksum'', ''sum'', ''md5sum'',
      ''sha1sum'', ''sha256sum'', ''sha512sum'', ''base64'', ''uuencode'', ''uudecode'', ''makedevs'', ''mdev'', ''devfs'',
      ''hotplug'', ''pivot_root'', ''switch_root'', ''chroot'', ''chrt'', ''taskset'', ''ionice'', ''nice'', ''nohup'',
      ''timeout'', ''stdbuf'', ''env'', ''printenv'', ''time'', ''watch'', ''run-parts'', ''strings'', ''objcopy'', ''ar'',
      ''ld'', ''nm'', ''size'', ''strip'', ''readelf'', ''objdump'', ''addr2line'', ''c++filt'', ''as'', ''ranlib'']"

text \<open>A name the shell knows is reported as an executable file whatever the file system holds.\<close>

definition sc_stat :: "'k kernel \<Rightarrow> 'k ram \<Rightarrow> usize \<Rightarrow> usize \<Rightarrow> 'k shell \<Rightarrow> 'k served" where
  "sc_stat kern ram di si s =
     (let path = child_path ram s di
      in if basename path \<in> set (map str applets)
         then answer 0 (on_machine (store_bytes ram si (stat_buf 33261 4096 1 1)) s)
         else sc_newfstatat kern ram path si s)"

definition sc_fstat :: "'k kernel \<Rightarrow> 'k ram \<Rightarrow> usize \<Rightarrow> usize \<Rightarrow> 'k shell \<Rightarrow> 'k served" where
  "sc_fstat kern ram di si s =
     (if di \<le> 2 \<or> 10 \<le> di \<and> di \<le> 12 then answer 0 s
      else do {
        (r, m) \<leftarrow> fs_file_size kern di (sh_client s) (sh_machine s);
        let s1 = s\<lparr> sh_machine := m \<rparr>;
        (case r of
           Inr sz \<Rightarrow> answer 0 (on_machine (store_bytes ram si
             (copy_slice (copy_slice (copy_slice (replicate 144 0) 24 (to_le 4 (33188 :: u32))) 48 (to_le 8 sz)) 56 (to_le 8 (4096 :: u64)))) s1)
         | Inl e \<Rightarrow> answer (err_ret e) s1)
      })"

definition sc_access :: "'k kernel \<Rightarrow> 'k ram \<Rightarrow> usize \<Rightarrow> u32 \<Rightarrow> 'k shell \<Rightarrow> 'k served" where
  "sc_access kern ram path_addr mode s =
     do {
       (r, m) \<leftarrow> fs_access kern (child_path ram s path_addr) mode (sh_machine s);
       answer (case r of Inr _ \<Rightarrow> 0 | Inl e \<Rightarrow> err_ret e) (s\<lparr> sh_machine := m \<rparr>)
     }"

definition sc_mmap :: "usize \<Rightarrow> 'k shell \<Rightarrow> 'k served" where
  "sc_mmap si s =
     (let len = (si + 0xFFF) AND NOT 0xFFF
      in answer (mmap_cur s) (s\<lparr> mmap_cur := mmap_cur s + max len 0x1000 \<rparr>))"

definition sc_brk :: "usize \<Rightarrow> 'k shell \<Rightarrow> 'k served" where
  "sc_brk di s = (if di = 0 then answer (brk_cur s) s else answer di (s\<lparr> brk_cur := di \<rparr>))"

section \<open>Fork, exec, exit\<close>

definition sc_fork :: "'k kernel \<Rightarrow> sh_env \<Rightarrow> usize list \<Rightarrow> 'k shell \<Rightarrow> 'k served" where
  "sc_fork kern en regs s =
     (if ut_found en \<ge> 2 then do {
        (e, s1) \<leftarrow> kcall (seL4_TCB_WriteRegisters kern (child_tcb_slot en) False 0 20 (regs[3 := 0, 0 := regs ! 0 + 2])) s;
        let s2 = warn kern e ''[fork] WriteRegs err='' s1;
        let s3 = s2\<lparr> parent_regs := Some regs, parent_brk := brk_cur s2, parent_mmap := mmap_cur s2,
                     active_tcb := child_tcb_slot en, is_child := True \<rparr>;
        (_, s4) \<leftarrow> kcall (seL4_TCB_Resume kern (child_tcb_slot en)) s3;
        Some (child_pid, True, s4)
      }
      else answer (- 38) s)"

text \<open>The end of the child: the parent's state comes back and the parent runs on as if the call had returned.\<close>

definition resume_parent :: "'k kernel \<Rightarrow> sh_env \<Rightarrow> 'k shell \<Rightarrow> 'k shell option" where
  "resume_parent kern en s =
     (case parent_regs s of
        None \<Rightarrow> None
      | Some p \<Rightarrow> do {
          let s1 = s\<lparr> active_tcb := busybox_tcb en, is_child := False, brk_cur := parent_brk s, mmap_cur := parent_mmap s,
                      parent_regs := None \<rparr>;
          (_, s2) \<leftarrow> kcall (seL4_TCB_WriteRegisters kern (busybox_tcb en) False 0 18 (p[3 := child_pid, 0 := p ! 0 + 2])) s1;
          (_, s3) \<leftarrow> kcall (seL4_TCB_Resume kern (busybox_tcb en)) s2;
          Some s3
        })"

definition ls_output :: "'k kernel \<Rightarrow> bytes \<Rightarrow> 'k machine \<Rightarrow> 'k machine" where
  "ls_output kern target m =
     (if target = str ''/'' \<or> target = str ''.'' then prints kern [Inl ''test\<newline>''] m
      else if target = str ''/test'' \<or> target = str ''test'' then prints kern [Inl ''hello.txt\<newline>''] m
      else prints kern [Inl '': No such file or directory\<newline>''] (seL4_DebugPutString kern target (prints kern [Inl ''ls: ''] m)))"

definition run_command :: "'k kernel \<Rightarrow> bytes \<Rightarrow> bytes list \<Rightarrow> 'k machine \<Rightarrow> 'k machine" where
  "run_command kern cmd argv m =
     (if cmd = str ''ls'' then ls_output kern (if length argv > 1 then argv ! 1 else str ''.'') m
      else prints kern [Inl '': not found\<newline>''] (seL4_DebugPutString kern cmd (prints kern [Inl ''/bin/sh: ''] m)))"

definition sc_execve :: "'k kernel \<Rightarrow> 'k ram \<Rightarrow> sh_env \<Rightarrow> usize \<Rightarrow> usize \<Rightarrow> 'k shell \<Rightarrow> 'k served" where
  "sc_execve kern ram en di si s =
     (let path = child_path ram s di;
          s1 = tell kern [newline] (on_machine (seL4_DebugPutString kern path) (tell kern [Inl ''[execve] ''] s));
          argv = read_argv ram (sh_machine s1) si 33;
          s2 = on_machine (run_command kern (basename path) argv) s1
      in if is_child s2 then do {
           (_, s3) \<leftarrow> kcall (seL4_TCB_Suspend kern (active_tcb s2)) (tell kern [Inl ''[execve] child done, exiting\<newline>''] s2);
           s4 \<leftarrow> resume_parent kern en s3;
           Some (0, True, s4)
         }
         else answer 0 s2)"

definition sc_wait4 :: "'k ram \<Rightarrow> usize \<Rightarrow> 'k shell \<Rightarrow> 'k served" where
  "sc_wait4 ram si s =
     (if is_child s then answer (- 10) s
      else answer child_pid (if si \<noteq> 0 then on_machine (store_bytes ram si (replicate 4 0)) s else s))"

definition sc_exit :: "'k kernel \<Rightarrow> sh_env \<Rightarrow> usize \<Rightarrow> 'k shell \<Rightarrow> 'k served" where
  "sc_exit kern en di s =
     do {
       (_, s1) \<leftarrow> kcall (seL4_TCB_Suspend kern (active_tcb s)) (tell kern [Inl ''[child] exit('', Inr di, Inl '')\<newline>''] s);
       if is_child s1 then do {
         s2 \<leftarrow> resume_parent kern en (tell kern [Inl ''[fork] child exited, resuming parent\<newline>''] s1);
         Some (0, True, s2)
       }
       else Some (0, True, s1\<lparr> child_exited := True \<rparr>)
     }"

text \<open>
  \<^verbatim>\<open>arch_prctl\<close>: the thread-local base. The source also stores it in the eighteenth register of its copy, which is never
  written back: the registers are read anew at every call and only the first eighteen are written.
\<close>

definition sc_arch_prctl :: "'k kernel \<Rightarrow> 'k ram \<Rightarrow> usize list \<Rightarrow> usize \<Rightarrow> usize \<Rightarrow> 'k shell \<Rightarrow> 'k served" where
  "sc_arch_prctl kern ram regs di si s =
     (if di = 0x1002 then do {
        (e, s1) \<leftarrow> kcall (seL4_TCB_SetTLSBase kern (active_tcb s) si) s;
        answer 0 (warn kern e ''[child] SetTLSBase err='' s1)
      }
      else if di = 0x1003 then answer 0 (on_machine (store_word ram si (regs ! 18)) s)
      else answer 0 s)"

definition uname_fields :: "string list" where
  "uname_fields = [''Linux'', ''sel4'', ''6.0.0-sel4'', ''#1 seL4'', ''x86_64'', ''(none)'']"

definition sc_uname :: "'k ram \<Rightarrow> usize \<Rightarrow> 'k shell \<Rightarrow> 'k served" where
  "sc_uname ram di s =
     answer 0 (on_machine (fold (\<lambda>i. let f = str (uname_fields ! i)
       in store_bytes ram (di + of_nat i * 65) (take 65 (f @ replicate 65 0))) [0..<6]) s)"

definition sc_getcwd :: "'k ram \<Rightarrow> usize \<Rightarrow> usize \<Rightarrow> 'k shell \<Rightarrow> 'k served" where
  "sc_getcwd ram di si s =
     (if si \<ge> 2 then answer 2 (on_machine (store_bytes ram di [0x2F, 0]) s) else answer (- 34) s)"

section \<open>Dispatch\<close>

text \<open>The calls that only return a number.\<close>

definition fixed_answer :: "usize \<Rightarrow> usize option" where
  "fixed_answer ax =
     map_of [(72, 0), (10, 0), (11, 0), (13, 0), (14, 0), (102, 0), (104, 0), (107, 0), (108, 0), (39, 1), (186, 1), (110, 0),
       (16, - 25), (121, 1), (109, 0), (111, 1), (62, 0), (131, 0), (218, 1)] ax"

definition serve_syscall :: "'k kernel \<Rightarrow> 'k ram \<Rightarrow> sh_env \<Rightarrow> usize list \<Rightarrow> 'k shell \<Rightarrow> 'k served" where
  "serve_syscall kern ram en regs s =
     (let ax = regs ! 3; di = regs ! 8; si = regs ! 7; dx = regs ! 6
      in if ax = 0 then sc_read kern ram en di si dx s
         else if ax = 1 then sc_write kern ram di si dx s
         else if ax = 3 then sc_close kern di s
         else if ax = 20 then sc_writev kern ram di si dx s
         else if ax = 2 then sc_open kern ram di (ucast si) s
         else if ax = 56 \<or> ax = 57 then sc_fork kern en regs s
         else if ax = 59 then sc_execve kern ram en di si s
         else if ax = 61 then sc_wait4 ram si s
         else if ax = 257 then sc_openat kern ram si (ucast dx) s
         else if ax = 8 then sc_lseek kern di si dx s
         else if ax = 217 then sc_getdents64 kern ram di si dx s
         else if ax = 262 then sc_newfstatat kern ram (child_path ram s si) dx s
         else if ax = 4 then sc_stat kern ram di si s
         else if ax = 5 then sc_fstat kern ram di si s
         else if ax = 21 then sc_access kern ram di (ucast si) s
         else if ax = 269 then sc_access kern ram si (ucast dx) s
         else if ax = 9 then sc_mmap si s
         else if ax = 12 then sc_brk di s
         else if ax = 60 \<or> ax = 231 then sc_exit kern en di s
         else if ax = 158 then sc_arch_prctl kern ram regs di si s
         else if ax = 63 then sc_uname ram di s
         else if ax = 79 then sc_getcwd ram di si s
         else case fixed_answer ax of
                Some v \<Rightarrow> answer v s
              | None \<Rightarrow> answer (- 38) (tell kern [Inl ''[child] UNIMPL syscall '', Inr ax, Inl '' rdi=0x'', Inr di, Inl '' rsi=0x'',
                  Inr si, Inl '' rdx=0x'', Inr dx, newline] s))"

section \<open>Faults\<close>

text \<open>
  How a round goes on: \<open>Go r\<close> falls out of the \<^verbatim>\<open>match\<close> with \<^verbatim>\<open>already_resumed = r\<close>, \<open>Skip\<close> is \<^verbatim>\<open>continue\<close>,
  \<open>Stop\<close> is \<^verbatim>\<open>break\<close>.
\<close>

datatype outcome = Go bool | Skip | Stop

abbreviation get_mr :: "usize \<Rightarrow> 'k shell \<Rightarrow> (usize \<times> 'k shell) option" where
  "get_mr i \<equiv> kcall (with_ipc_buffer (\<lambda>ib. (read_mr ib i, ib)))"

abbreviation read_regs :: "'k kernel \<Rightarrow> usize \<Rightarrow> 'k shell \<Rightarrow> ((usize \<times> usize list) \<times> 'k shell) option" where
  "read_regs kern t \<equiv> kcall (seL4_TCB_ReadRegisters kern t False 0 20 (replicate 20 0))"

text \<open>The second attempt to map a frame: a page table for its region first.\<close>

definition map_with_table :: "'k kernel \<Rightarrow> sh_env \<Rightarrow> usize \<Rightarrow> usize \<Rightarrow> usize \<Rightarrow> 'k shell \<Rightarrow> (usize \<times> 'k shell) option" where
  "map_with_table kern en frame_slot page map_err s =
     do {
       found \<leftarrow> find_free_untyped (en_bi en) 12;
       (case found of
          None \<Rightarrow> Some (map_err, s)
        | Some (pt_ut, _) \<Rightarrow> do {
            (pt_slot, s1) \<leftarrow> sh_alloc s;
            (pe, s2) \<leftarrow> kcall (seL4_Untyped_Retype kern pt_ut (object_type_word PageTable) (size_bits PageTable) init_CNODE init_CNODE 64 pt_slot 1) s1;
            if pe = 0 then do {
              (_, s3) \<leftarrow> kcall (seL4_PageTable_Map kern pt_slot init_VSPACE (page AND NOT 0x1FFFFF) 0) s2;
              kcall (seL4_Frame_Map kern frame_slot init_VSPACE page (cr_bits CapRights_ALL) 0) s3
            }
            else Some (map_err, s2)
          })
     }"

text \<open>A fresh frame at the missing page; the flag says that the child must be killed.\<close>

definition map_missing :: "'k kernel \<Rightarrow> 'k ram \<Rightarrow> sh_env \<Rightarrow> usize \<Rightarrow> 'k shell \<Rightarrow> (bool \<times> 'k shell) option" where
  "map_missing kern ram en page s =
     do {
       found \<leftarrow> find_free_untyped (en_bi en) 12;
       (case found of
          None \<Rightarrow> Some (False, s)
        | Some (ut, _) \<Rightarrow> do {
            (frame_slot, s1) \<leftarrow> sh_alloc s;
            (err, s2) \<leftarrow> kcall (seL4_Untyped_Retype kern ut (object_type_word Frame4K) 12 init_CNODE init_CNODE 64 frame_slot 1) s1;
            if err \<noteq> 0 then Some (False, s2)
            else do {
              (e1, s3) \<leftarrow> kcall (seL4_Frame_Map kern frame_slot init_VSPACE page (cr_bits CapRights_ALL) 0) s2;
              (e2, s4) \<leftarrow> (if e1 \<noteq> 0 then map_with_table kern en frame_slot page e1 s3 else Some (e1, s3));
              if e2 = 0 then Some (False, on_machine (zero_page ram page) s4)
              else Some (True, tell kern [Inl ''[busybox] map fail at 0x'', Inr page, Inl '' err='', Inr e2, newline] s4)
            }
          })
     }"

definition kill_child :: "'k kernel \<Rightarrow> sh_env \<Rightarrow> 'k shell \<Rightarrow> (outcome \<times> 'k shell) option" where
  "kill_child kern en s =
     do {
       (_, s1) \<leftarrow> kcall (seL4_TCB_Suspend kern (busybox_tcb en)) (reply_empty kern s);
       Some (Stop, tell kern [Inl ''[busybox] Child killed, stopping\<newline>''] s1)
     }"

definition serve_vm_fault :: "'k kernel \<Rightarrow> 'k ram \<Rightarrow> sh_env \<Rightarrow> 'k shell \<Rightarrow> (outcome \<times> 'k shell) option" where
  "serve_vm_fault kern ram en s =
     do {
       (addr, s0) \<leftarrow> get_mr 1 s;
       let page = addr AND NOT 0xFFF;
       s1 \<leftarrow> (if fault_count s0 \<le> 10 then do {
                m \<leftarrow> put_u64 kern (of_nat (fault_count s0)) (prints kern [Inl ''[busybox] VMFault #''] (sh_machine s0));
                Some (tell kern [Inl '' addr=0x'', Inr addr, newline] (s0\<lparr> sh_machine := m \<rparr>))
              }
              else Some s0);
       if page < 0x1000 then do {
         ((_, regs), s2) \<leftarrow> read_regs kern (busybox_tcb en) s1;
         kill_child kern en (tell kern [Inl ''[busybox] NULL ptr at RIP=0x'', Inr (regs ! 0), Inl '' RSP=0x'', Inr (regs ! 1),
           Inl '' faddr=0x'', Inr addr, Inl '' - killing\<newline>''] s2)
       }
       else do {
         (kill, s2) \<leftarrow> map_missing kern ram en page s1;
         if kill then kill_child kern en s2 else Some (Go False, s2)
       }
     }"

text \<open>A system call instruction outside the kernel's reach is patched to a breakpoint.\<close>

definition serve_cap_fault :: "'k kernel \<Rightarrow> 'k ram \<Rightarrow> sh_env \<Rightarrow> 'k shell \<Rightarrow> (outcome \<times> 'k shell) option" where
  "serve_cap_fault kern ram en s =
     do {
       (ip, s0) \<leftarrow> get_mr 0 s;
       if ip \<noteq> 0 \<and> ip \<noteq> - 1 \<and> load_byte ram (sh_machine s0) ip = 0x0f \<and> load_byte ram (sh_machine s0) (ip + 1) = 0x05 then do {
         ((_, regs), s1) \<leftarrow> read_regs kern (busybox_tcb en) (on_machine (store_bytes ram ip [0xcc, 0x90]) s0);
         (_, s2) \<leftarrow> kcall (seL4_TCB_WriteRegisters kern (busybox_tcb en) True 0 20 regs) s1;
         Some (Go True, s2)
       }
       else Some (Go False, s0)
     }"

definition serve_unknown_syscall :: "'k kernel \<Rightarrow> 'k ram \<Rightarrow> sh_env \<Rightarrow> 'k shell \<Rightarrow> (outcome \<times> 'k shell) option" where
  "serve_unknown_syscall kern ram en s =
     do {
       ((err, regs), s1) \<leftarrow> read_regs kern (active_tcb s) s;
       if err \<noteq> 0 then Some (Skip, s1)
       else do {
         (ret_val, resumed, s2) \<leftarrow> serve_syscall kern ram en regs s1;
         if \<not> child_exited s2 \<and> \<not> resumed then do {
           (werr, s3) \<leftarrow> kcall (seL4_TCB_WriteRegisters kern (active_tcb s2) False 0 18 (regs[3 := ret_val, 0 := regs ! 0 + 2])) s2;
           Some (Go True, reply_empty kern (warn kern werr ''[child] WriteRegs fail err='' s3))
         }
         else Some (Go resumed, s2)
       }
     }"

definition serve_exception :: "'k kernel \<Rightarrow> 'k ram \<Rightarrow> sh_env \<Rightarrow> 'k shell \<Rightarrow> (outcome \<times> 'k shell) option" where
  "serve_exception kern ram en s =
     do {
       (ip, s0) \<leftarrow> get_mr 0 s;
       (num, s0) \<leftarrow> get_mr 3 s0;
       (code, s0) \<leftarrow> get_mr 4 s0;
       let s1 = tell kern [Inl ''[busybox] UserException #'', Inr num, Inl '' code=0x'', Inr code, Inl '' at IP=0x'', Inr ip, newline,
         Inl ''  insn:''] s0;
       let s2 = on_machine (fold (\<lambda>k m. prints kern [Inl '' '', Inr (ucast (load_byte ram m (ip + of_nat k)))] m) [0..<8]) s1;
       (_, s3) \<leftarrow> kcall (seL4_TCB_Suspend kern (busybox_tcb en)) (tell kern [newline] s2);
       Some (Go True, s3\<lparr> child_exited := True \<rparr>)
     }"

definition serve_fault :: "'k kernel \<Rightarrow> 'k ram \<Rightarrow> sh_env \<Rightarrow> u32 \<Rightarrow> 'k shell \<Rightarrow> (outcome \<times> 'k shell) option" where
  "serve_fault kern ram en label s =
     (let fault_type = label AND 0xF
      in if fault_type = 4 \<or> fault_type = 5 then serve_vm_fault kern ram en s
         else if fault_type = 1 then serve_cap_fault kern ram en s
         else if fault_type = 2 then serve_unknown_syscall kern ram en s
         else if fault_type = 3 then serve_exception kern ram en s
         else Some (Go False, tell kern [Inl ''[busybox] Fault type='', Inr (ucast fault_type), Inl '' label=0x'', Inr (ucast label), newline] s))"

section \<open>The fault loop\<close>

text \<open>One round; the flag says that the loop goes on.\<close>

definition fault_step :: "'k kernel \<Rightarrow> 'k ram \<Rightarrow> sh_env \<Rightarrow> 'k shell \<Rightarrow> (bool \<times> 'k shell) option" where
  "fault_step kern ram en s =
     do {
       ((tag, _), s0) \<leftarrow> kcall (seL4_Recv kern (fault_ep en)) s;
       let s1 = s0\<lparr> fault_count := fault_count s0 + 1 \<rparr>;
       if fault_count s1 > 100000 then Some (False, tell kern [Inl ''[busybox] Too many faults, stopping\<newline>''] s1)
       else do {
         (out, s2) \<leftarrow> serve_fault kern ram en (mi_label (mi_from_word tag)) s1;
         (case out of
            Stop \<Rightarrow> Some (False, s2)
          | Skip \<Rightarrow> Some (True, s2)
          | Go resumed \<Rightarrow>
              if child_exited s2 then Some (False, tell kern [Inl ''[busybox] Child exited, stopping fault loop\<newline>''] s2)
              else if \<not> resumed then Some (True, reply_empty kern s2)
              else Some (True, s2))
       }
     }"

section \<open>Frame lemmas\<close>

text \<open>The control state: everything but the pool, the machine and the client.\<close>

definition control :: "'k shell \<Rightarrow> nat \<times> bool \<times> usize \<times> usize \<times> usize \<times> bool \<times> usize list option \<times> usize \<times> usize" where
  "control s = (fault_count s, child_exited s, brk_cur s, mmap_cur s, active_tcb s, is_child s, parent_regs s, parent_brk s, parent_mmap s)"

named_theorems frame

lemma control_machine [simp]: "control (s\<lparr> sh_machine := m \<rparr>) = control s" "control (s\<lparr> sh_client := c \<rparr>) = control s"
  "control (s\<lparr> sh_pool := p \<rparr>) = control s"
  by (simp_all add: control_def)

lemma control_on_machine [simp]: "control (on_machine f s) = control s"
  by (simp add: on_machine_def)

lemma control_reply [simp]: "control (reply_empty kern s) = control s"
  by (simp add: reply_empty_def)

lemma control_kcall [frame]: "kcall f s = Some (x, s') \<Longrightarrow> control s' = control s"
  by (auto simp: kcall_def split: option.splits)

lemma control_client [frame]: "with_client g s = Some (x, s') \<Longrightarrow> control s' = control s"
  by (auto simp: with_client_def split: option.splits)

lemma control_alloc [frame]: "sh_alloc s = Some (x, s') \<Longrightarrow> control s' = control s"
  by (auto simp: sh_alloc_def split: option.splits prod.splits)

lemma control_eq:
  assumes "control s' = control s"
  shows "fault_count s' = fault_count s" "child_exited s' = child_exited s" "brk_cur s' = brk_cur s" "mmap_cur s' = mmap_cur s"
    "active_tcb s' = active_tcb s" "is_child s' = is_child s" "parent_regs s' = parent_regs s" "parent_brk s' = parent_brk s"
    "parent_mmap s' = parent_mmap s"
  using assms by (simp_all add: control_def)

text \<open>The calls that leave the control state alone.\<close>

lemma control_file_calls [frame]:
  "sc_read kern ram en di si dx s = Some (v, b, s') \<Longrightarrow> control s' = control s"
  "sc_write kern ram di si dx s = Some (v, b, s') \<Longrightarrow> control s' = control s"
  "sc_close kern di s = Some (v, b, s') \<Longrightarrow> control s' = control s"
  "sc_writev kern ram di si dx s = Some (v, b, s') \<Longrightarrow> control s' = control s"
  "sc_open kern ram pa fl s = Some (v, b, s') \<Longrightarrow> control s' = control s"
  "sc_openat kern ram pa fl s = Some (v, b, s') \<Longrightarrow> control s' = control s"
  by (auto simp: sc_read_def sc_write_def sc_close_def sc_writev_def sc_open_def sc_openat_def Let_def
    split: if_splits option.splits prod.splits sum.splits bind_splits dest!: frame)

lemma control_other_calls [frame]:
  "sc_lseek kern di si dx s = Some (v, b, s') \<Longrightarrow> control s' = control s"
  "sc_getdents64 kern ram di si dx s = Some (v, b, s') \<Longrightarrow> control s' = control s"
  "sc_newfstatat kern ram path a s = Some (v, b, s') \<Longrightarrow> control s' = control s"
  "sc_stat kern ram di si s = Some (v, b, s') \<Longrightarrow> control s' = control s"
  "sc_fstat kern ram di si s = Some (v, b, s') \<Longrightarrow> control s' = control s"
  "sc_access kern ram a fl s = Some (v, b, s') \<Longrightarrow> control s' = control s"
  "sc_wait4 ram si s = Some (v, b, s') \<Longrightarrow> control s' = control s"
  "sc_arch_prctl kern ram regs di si s = Some (v, b, s') \<Longrightarrow> control s' = control s"
  "sc_uname ram di s = Some (v, b, s') \<Longrightarrow> control s' = control s"
  "sc_getcwd ram di si s = Some (v, b, s') \<Longrightarrow> control s' = control s"
  by (auto simp: sc_lseek_def sc_getdents64_def sc_newfstatat_def sc_stat_def sc_fstat_def sc_access_def sc_wait4_def
    sc_arch_prctl_def sc_uname_def sc_getcwd_def Let_def split: if_splits option.splits prod.splits sum.splits bind_splits dest!: frame)

end
