(* ===== verification/Shell_Process.thy ===== *)
theory Shell_Process
  imports Root_Shell
begin

text \<open>
  The fault loop of \<open>Root_Shell\<close> as a process: the abstract process with one level of \<^verbatim>\<open>fork\<close>, the event a round
  stands for and the proof that every round of the loop is the step of that event, the loop itself, which ends, and the start of the shell (\<^verbatim>\<open>test_busybox\<close>).
\<close>

section \<open>The abstract process\<close>

text \<open>
  What the loop implements: a process with a break and a mapping cursor, or its child together with the registers, break and
  cursor the parent had when it forked, or no process.
\<close>

datatype process = Parent usize usize | Child usize usize "usize list" usize usize | Ended

primrec proc_fork :: "usize list \<Rightarrow> process \<Rightarrow> process" where
  "proc_fork regs (Parent b m) = Child b m regs b m"
| "proc_fork regs (Child b m r pb pm) = Child b m regs b m"
| "proc_fork regs Ended = Ended"

text \<open>The program of a child that ends gives way to the parent, with the break and the cursor it forked with.\<close>

primrec proc_execve :: "process \<Rightarrow> process" where
  "proc_execve (Parent b m) = Parent b m"
| "proc_execve (Child b m r pb pm) = Parent pb pm"
| "proc_execve Ended = Ended"

primrec proc_exit :: "process \<Rightarrow> process" where
  "proc_exit (Parent b m) = Ended"
| "proc_exit (Child b m r pb pm) = Parent pb pm"
| "proc_exit Ended = Ended"

primrec proc_mmap :: "usize \<Rightarrow> process \<Rightarrow> process" where
  "proc_mmap l (Parent b m) = Parent b (m + l)"
| "proc_mmap l (Child b m r pb pm) = Child b (m + l) r pb pm"
| "proc_mmap l Ended = Ended"

primrec proc_brk :: "usize \<Rightarrow> process \<Rightarrow> process" where
  "proc_brk v (Parent b m) = Parent (if v = 0 then b else v) m"
| "proc_brk v (Child b m r pb pm) = Child (if v = 0 then b else v) m r pb pm"
| "proc_brk v Ended = Ended"

text \<open>A system call with the registers of the caller: the number is in the fourth, the arguments in the ninth and the eighth.\<close>

definition proc_call :: "bool \<Rightarrow> usize list \<Rightarrow> process \<Rightarrow> process" where
  "proc_call can_fork regs p =
     (if regs ! 3 = 56 \<or> regs ! 3 = 57 then if can_fork then proc_fork regs p else p
      else if regs ! 3 = 59 then proc_execve p
      else if regs ! 3 = 9 then proc_mmap (max ((regs ! 7 + 0xFFF) AND NOT 0xFFF) 0x1000) p
      else if regs ! 3 = 12 then proc_brk (regs ! 8) p
      else if regs ! 3 = 60 \<or> regs ! 3 = 231 then proc_exit p
      else p)"

text \<open>
  What a round means for the process: a system call, a crash, or nothing, which is a page fault, a fault that cannot be
  served and the round in which the loop gives up.
\<close>

datatype event = Quiet | Call "usize list" | Crash

primrec process_next :: "bool \<Rightarrow> event \<Rightarrow> process \<Rightarrow> process" where
  "process_next can_fork Quiet p = p"
| "process_next can_fork (Call regs) p = proc_call can_fork regs p"
| "process_next can_fork Crash p = Ended"

text \<open>The event of a message, and of a round: what the kernel delivers and the registers it then reads of the active TCB.\<close>

definition fault_event :: "'k kernel \<Rightarrow> u32 \<Rightarrow> 'k shell \<Rightarrow> event" where
  "fault_event kern label s =
     (if label AND 0xF = 2 then
        (case read_regs kern (active_tcb s) s of
           Some ((err, regs), _) \<Rightarrow> if err = 0 then Call regs else Quiet
         | None \<Rightarrow> Quiet)
      else if label AND 0xF = 3 then Crash else Quiet)"

definition round_event :: "'k kernel \<Rightarrow> sh_env \<Rightarrow> 'k shell \<Rightarrow> event" where
  "round_event kern en s =
     (case kcall (seL4_Recv kern (fault_ep en)) s of
        Some ((tag, _), s0) \<Rightarrow>
          if fault_count s0 + 1 > 100000 then Quiet
          else fault_event kern (mi_label (mi_from_word tag)) (s0\<lparr> fault_count := fault_count s0 + 1 \<rparr>)
      | None \<Rightarrow> Quiet)"

definition process_of :: "'k shell \<Rightarrow> process" where
  "process_of s =
     (if child_exited s then Ended
      else case parent_regs s of
             None \<Rightarrow> Parent (brk_cur s) (mmap_cur s)
           | Some r \<Rightarrow> Child (brk_cur s) (mmap_cur s) r (parent_brk s) (parent_mmap s))"

text \<open>The saved registers are there exactly while the child runs, and the active TCB is the one of the running process.\<close>

definition shell_inv :: "sh_env \<Rightarrow> 'k shell \<Rightarrow> bool" where
  "shell_inv en s \<longleftrightarrow> (is_child s \<longleftrightarrow> parent_regs s \<noteq> None) \<and>
     active_tcb s = (if is_child s then child_tcb_slot en else busybox_tcb en)"

lemma same_control:
  assumes "control s' = control s"
  shows "shell_inv en s' = shell_inv en s" "process_of s' = process_of s" "child_exited s' = child_exited s" "fault_count s' = fault_count s"
  using control_eq [OF assms] by (simp_all add: shell_inv_def process_of_def split: option.splits)

text \<open>A part of a round that takes the process to \<open>p\<close>.\<close>

definition leads_to :: "sh_env \<Rightarrow> process \<Rightarrow> 'k shell \<Rightarrow> 'k shell \<Rightarrow> bool" where
  "leads_to en p s s' \<longleftrightarrow> shell_inv en s' \<and> process_of s' = p \<and> fault_count s' = fault_count s"

lemma leads_to_same:
  assumes "control s' = control s" and "shell_inv en s"
  shows "leads_to en (process_of s) s s'"
  using assms(2) by (simp add: leads_to_def same_control [OF assms(1)])

lemma resume_parent_leads:
  assumes "resume_parent kern en s = Some s'" and "\<not> child_exited s"
  shows "leads_to en (Parent (parent_brk s) (parent_mmap s)) s s' \<and> \<not> child_exited s'"
proof -
  let ?s1 = "s\<lparr> active_tcb := busybox_tcb en, is_child := False, brk_cur := parent_brk s, mmap_cur := parent_mmap s, parent_regs := None \<rparr>"
  obtain p where p: "parent_regs s = Some p" using assms(1) by (cases "parent_regs s") (simp_all add: resume_parent_def)
  then have "control s' = control ?s1"
    using assms(1) by (auto simp: resume_parent_def split: bind_splits dest!: frame)
  from control_eq [OF this] p assms(2) show ?thesis by (simp add: leads_to_def shell_inv_def process_of_def)
qed

lemma process_child:
  assumes "shell_inv en s" and "\<not> child_exited s"
  shows "is_child s \<Longrightarrow> \<exists>r. process_of s = Child (brk_cur s) (mmap_cur s) r (parent_brk s) (parent_mmap s)"
    and "\<not> is_child s \<Longrightarrow> process_of s = Parent (brk_cur s) (mmap_cur s)"
  using assms by (auto simp: shell_inv_def process_of_def split: option.splits)

lemma sc_fork_leads:
  assumes "sc_fork kern en regs s = Some (v, b, s')" and "shell_inv en s" and "\<not> child_exited s"
  shows "leads_to en (if ut_found en \<ge> 2 then proc_fork regs (process_of s) else process_of s) s s' \<and> \<not> child_exited s'"
proof (cases "ut_found en \<ge> 2")
  case True
  let ?s3 = "s\<lparr> parent_regs := Some regs, parent_brk := brk_cur s, parent_mmap := mmap_cur s, active_tcb := child_tcb_slot en, is_child := True \<rparr>"
  from assms(1) True obtain e s1 u s4 where "kcall (seL4_TCB_WriteRegisters kern (child_tcb_slot en) False 0 20 (regs[3 := 0, 0 := regs ! 0 + 2])) s = Some (e, s1)"
    and s': "s' = s4" "kcall (seL4_TCB_Resume kern (child_tcb_slot en)) (let s2 = warn kern e ''[fork] WriteRegs err='' s1 in
      s2\<lparr> parent_regs := Some regs, parent_brk := brk_cur s2, parent_mmap := mmap_cur s2, active_tcb := child_tcb_slot en, is_child := True \<rparr>) = Some (u, s4)"
    by (auto simp: sc_fork_def Let_def split: bind_splits)
  then have "control s1 = control s" by (intro control_kcall)
  then have "control (warn kern e ''[fork] WriteRegs err='' s1) = control s" by simp
  from control_eq [OF this] have "control s' = control ?s3"
    unfolding s'(1) control_kcall [OF s'(2)] Let_def by (simp add: control_def del: control_on_machine)
  from control_eq [OF this] assms(2,3) True show ?thesis
    by (auto simp: leads_to_def shell_inv_def process_of_def split: option.splits)
next
  case False
  with assms show ?thesis by (simp add: sc_fork_def leads_to_same)
qed

lemma sc_execve_leads:
  assumes "sc_execve kern ram en di si s = Some (v, b, s')" and "shell_inv en s" and "\<not> child_exited s"
  shows "leads_to en (proc_execve (process_of s)) s s' \<and> \<not> child_exited s'"
proof -
  let ?p = "child_path ram s di"
  define s1 where "s1 = tell kern [newline] (on_machine (seL4_DebugPutString kern ?p) (tell kern [Inl ''[execve] ''] s))"
  define s2 where "s2 = on_machine (run_command kern (basename ?p) (read_argv ram (sh_machine s1) si 33)) s1"
  have c: "control s2 = control s" by (simp add: s2_def s1_def)
  note eq = control_eq [OF c]
  show ?thesis
  proof (cases "is_child s2")
    case True
    with assms(1) obtain u s3 where s3: "kcall (seL4_TCB_Suspend kern (active_tcb s2)) (tell kern [Inl ''[execve] child done, exiting\<newline>''] s2) = Some (u, s3)"
      and r: "resume_parent kern en s3 = Some s'"
      by (auto simp: sc_execve_def s1_def [symmetric] s2_def [symmetric] Let_def split: bind_splits)
    have "control s3 = control s" using control_kcall [OF s3] c by simp
    with control_eq [OF this] resume_parent_leads [OF r] process_child(1) [OF assms(2,3)] True eq assms(3) show ?thesis
      by (auto simp: leads_to_def)
  next
    case False
    with assms(1) have "s' = s2" by (simp add: sc_execve_def s1_def [symmetric] s2_def [symmetric] Let_def)
    then show ?thesis using leads_to_same [OF c assms(2)] process_child(2) [OF assms(2,3)] False eq assms(3) by simp
  qed
qed

lemma sc_exit_leads:
  assumes "sc_exit kern en di s = Some (v, b, s')" and "shell_inv en s" and "\<not> child_exited s"
  shows "leads_to en (proc_exit (process_of s)) s s' \<and> b"
proof -
  from assms(1) obtain u s1 where k: "kcall (seL4_TCB_Suspend kern (active_tcb s)) (tell kern [Inl ''[child] exit('', Inr di, Inl '')\<newline>''] s) = Some (u, s1)"
    and r: "(if is_child s1 then do { s2 \<leftarrow> resume_parent kern en (tell kern [Inl ''[fork] child exited, resuming parent\<newline>''] s1); Some (0, True, s2) }
      else Some (0, True, s1\<lparr> child_exited := True \<rparr>)) = Some (v, b, s')"
    by (auto simp: sc_exit_def split: bind_splits)
  have c: "control s1 = control s" using control_kcall [OF k] by simp
  note eq = control_eq [OF c]
  show ?thesis
  proof (cases "is_child s1")
    case True
    with r obtain s2 where s2: "resume_parent kern en (tell kern [Inl ''[fork] child exited, resuming parent\<newline>''] s1) = Some s2" "s' = s2" "b"
      by (auto split: bind_splits)
    have c2: "control (tell kern [Inl ''[fork] child exited, resuming parent\<newline>''] s1) = control s" using c by simp
    from control_eq [OF c2] resume_parent_leads [OF s2(1)] process_child(1) [OF assms(2,3)] True eq assms(3) s2 show ?thesis
      by (auto simp: leads_to_def)
  next
    case False
    then have "process_of s = Parent (brk_cur s) (mmap_cur s)" using process_child(2) [OF assms(2,3)] eq by simp
    with False r eq assms(2) show ?thesis by (auto simp: leads_to_def shell_inv_def process_of_def)
  qed
qed

lemma sc_memory_leads:
  assumes "shell_inv en s" and "\<not> child_exited s"
  shows "sc_mmap si s = Some (v, b, s') \<Longrightarrow> leads_to en (proc_mmap (max ((si + 0xFFF) AND NOT 0xFFF) 0x1000) (process_of s)) s s' \<and> \<not> child_exited s'"
    and "sc_brk di s = Some (v, b, s') \<Longrightarrow> leads_to en (proc_brk di (process_of s)) s s' \<and> \<not> child_exited s'"
  using assms by (auto simp: sc_mmap_def sc_brk_def Let_def leads_to_def shell_inv_def process_of_def split: option.splits if_splits)

lemma fixed_answer_steps:
  assumes "(case fixed_answer ax of Some v \<Rightarrow> answer v s | None \<Rightarrow> answer (- 38) (tell kern items s)) = Some (v, b, s')"
  shows "control s' = control s"
  using assms by (auto split: option.splits)

lemma serve_syscall_leads:
  assumes "serve_syscall kern ram en regs s = Some (v, b, s')" and "shell_inv en s" and "\<not> child_exited s"
  shows "leads_to en (proc_call (ut_found en \<ge> 2) regs (process_of s)) s s' \<and> (child_exited s' \<longrightarrow> b)"
proof -
  define q where "q = proc_call (ut_found en \<ge> 2) regs (process_of s)"
  define P where "P \<longleftrightarrow> leads_to en q s s' \<and> (child_exited s' \<longrightarrow> b)"
  have same: "P" if "control s' = control s" "q = process_of s"
    using leads_to_same [OF that(1) assms(2)] same_control(3) [OF that(1)] that(2) assms(3) by (simp add: P_def)
  have live: "P" if "leads_to en p s s' \<and> \<not> child_exited s'" "q = p" for p using that by (simp add: P_def)
  have ends: "P" if "leads_to en p s s' \<and> b" "q = p" for p using that by (simp add: P_def)
  note calls = sc_fork_leads [OF _ assms(2,3), THEN live] sc_execve_leads [OF _ assms(2,3), THEN live]
    sc_exit_leads [OF _ assms(2,3), THEN ends] sc_memory_leads [OF assms(2,3), THEN live]
    frame [THEN same] fixed_answer_steps [THEN same]
  have "P" using assms(1) unfolding serve_syscall_def Let_def
    by (simp only: split: if_split_asm) (erule calls; simp add: q_def proc_call_def)+
  then show ?thesis by (simp add: P_def q_def)
qed

lemma control_faults [frame]:
  "map_with_table kern en sl pg e s = Some (x, s') \<Longrightarrow> control s' = control s"
  "map_missing kern ram en pg s = Some (k, s') \<Longrightarrow> control s' = control s"
  "kill_child kern en s = Some (out, s') \<Longrightarrow> control s' = control s"
  "serve_cap_fault kern ram en s = Some (out, s') \<Longrightarrow> control s' = control s"
proof -
  show table: "map_with_table kern en sl pg e s = Some (x, s') \<Longrightarrow> control s' = control s" for sl pg e s x s'
    by (auto simp: map_with_table_def split: bind_splits option.splits if_splits dest!: frame)
  show "map_missing kern ram en pg s = Some (k, s') \<Longrightarrow> control s' = control s"
    by (auto simp: map_missing_def split: bind_splits option.splits if_splits dest!: frame table)
  show "kill_child kern en s = Some (out, s') \<Longrightarrow> control s' = control s"
    by (auto simp: kill_child_def split: bind_splits dest!: frame)
  show "serve_cap_fault kern ram en s = Some (out, s') \<Longrightarrow> control s' = control s"
    by (auto simp: serve_cap_fault_def split: bind_splits if_splits dest!: frame)
qed

lemma control_vm_fault [frame]: "serve_vm_fault kern ram en s = Some (out, s') \<Longrightarrow> control s' = control s"
  by (auto simp: serve_vm_fault_def Let_def split: bind_splits if_splits dest!: frame)

lemma serve_unknown_leads:
  assumes "serve_unknown_syscall kern ram en s = Some (out, s')" and "shell_inv en s" and "\<not> child_exited s"
  shows "leads_to en (case read_regs kern (active_tcb s) s of
        Some ((err, regs), _) \<Rightarrow> if err = 0 then proc_call (ut_found en \<ge> 2) regs (process_of s) else process_of s
      | None \<Rightarrow> process_of s) s s' \<and> (child_exited s' \<longrightarrow> (\<exists>r. out = Go r))"
proof -
  from assms(1) obtain err regs s1 where k: "read_regs kern (active_tcb s) s = Some ((err, regs), s1)"
    by (auto simp: serve_unknown_syscall_def split: bind_splits)
  note c1 = same_control [OF control_kcall [OF k]]
  show ?thesis
  proof (cases "err = 0")
    case True
    with assms(1) k obtain v b s2 where s2: "serve_syscall kern ram en regs s1 = Some (v, b, s2)"
      by (auto simp: serve_unknown_syscall_def split: bind_splits)
    have st: "leads_to en (proc_call (ut_found en \<ge> 2) regs (process_of s)) s s2"
      using serve_syscall_leads [OF s2] c1 assms(2,3) by (simp add: leads_to_def)
    have "control s' = control s2 \<and> (\<exists>r. out = Go r)" using assms(1) k s2 True
      by (auto simp: serve_unknown_syscall_def split: bind_splits if_splits dest!: frame)
    then show ?thesis using st same_control [of s' s2] k True by (auto simp: leads_to_def)
  next
    case False
    with assms(1) k have "s' = s1" by (simp add: serve_unknown_syscall_def)
    then show ?thesis using leads_to_same [OF control_kcall [OF k] assms(2)] c1 assms(3) k False by simp
  qed
qed

lemma serve_exception_leads:
  assumes "serve_exception kern ram en s = Some (out, s')" and "shell_inv en s"
  shows "leads_to en Ended s s' \<and> (\<exists>r. out = Go r)"
proof -
  from assms(1) obtain s3 where s': "control s3 = control s" "s' = s3\<lparr> child_exited := True \<rparr>" "out = Go True"
    by (auto simp: serve_exception_def Let_def split: bind_splits dest!: frame)
  then show ?thesis using control_eq [OF s'(1)] assms(2) by (auto simp: leads_to_def shell_inv_def process_of_def)
qed

lemma serve_fault_leads:
  assumes "serve_fault kern ram en label s = Some (out, s')" and "shell_inv en s" and "\<not> child_exited s"
  shows "leads_to en (process_next (ut_found en \<ge> 2) (fault_event kern label s) (process_of s)) s s' \<and> (child_exited s' \<longrightarrow> (\<exists>r. out = Go r))"
proof -
  let ?n = "process_next (ut_found en \<ge> 2) (fault_event kern label s) (process_of s)"
  have same: "leads_to en ?n s s' \<and> (child_exited s' \<longrightarrow> (\<exists>r. out = Go r))" if "control s' = control s" "?n = process_of s"
    using leads_to_same [OF that(1) assms(2)] same_control(3) [OF that(1)] that(2) assms(3) by simp
  consider (call) "label AND 0xF = 2" | (crash) "label AND 0xF = 3" | (other) "label AND 0xF \<noteq> 2" "label AND 0xF \<noteq> 3" by blast
  then show ?thesis
  proof cases
    case call
    with assms(1) have u: "serve_unknown_syscall kern ram en s = Some (out, s')" by (simp add: serve_fault_def)
    have "?n = (case read_regs kern (active_tcb s) s of
        Some ((err, regs), _) \<Rightarrow> if err = 0 then proc_call (ut_found en \<ge> 2) regs (process_of s) else process_of s
      | None \<Rightarrow> process_of s)"
      using call by (simp add: fault_event_def split: option.splits)
    with serve_unknown_leads [OF u assms(2,3)] show ?thesis by simp
  next
    case crash
    with assms(1) have "serve_exception kern ram en s = Some (out, s')" by (simp add: serve_fault_def)
    then show ?thesis using serve_exception_leads assms(2) crash by (fastforce simp: fault_event_def)
  next
    case other
    then have "control s' = control s" using assms(1) control_vm_fault [of kern ram en s out s'] control_faults(4) [of kern ram en s out s']
      by (auto simp: serve_fault_def Let_def split: if_splits)
    then show ?thesis using same other by (simp add: fault_event_def)
  qed
qed

lemma fault_step_leads:
  assumes "fault_step kern ram en s = Some (go, s')" and "shell_inv en s" and "\<not> child_exited s"
  shows "shell_inv en s' \<and> process_of s' = process_next (ut_found en \<ge> 2) (round_event kern en s) (process_of s) \<and>
    (go \<longrightarrow> \<not> child_exited s')"
proof -
  from assms(1) obtain tag bd s0 where k: "kcall (seL4_Recv kern (fault_ep en)) s = Some ((tag, bd), s0)"
    by (auto simp: fault_step_def split: bind_splits)
  define s1 where "s1 = s0\<lparr> fault_count := fault_count s0 + 1 \<rparr>"
  have c: "shell_inv en s1" "process_of s1 = process_of s" "\<not> child_exited s1"
    using control_eq [OF control_kcall [OF k]] assms(2,3) by (auto simp: s1_def shell_inv_def process_of_def split: option.splits)
  show ?thesis
  proof (cases "fault_count s1 > 100000")
    case True
    with assms(1) k have "\<not> go" "control s' = control s1" by (auto simp: fault_step_def s1_def)
    with c same_control [OF this(2)] k True show ?thesis by (simp add: round_event_def s1_def)
  next
    case False
    with assms(1) k obtain out s2 where s2: "serve_fault kern ram en (mi_label (mi_from_word tag)) s1 = Some (out, s2)"
      by (auto simp: fault_step_def s1_def split: bind_splits)
    have ev: "round_event kern en s = fault_event kern (mi_label (mi_from_word tag)) s1"
      using k False by (simp add: round_event_def s1_def)
    note st = serve_fault_leads [OF s2 c(1,3)]
    have e: "control s' = control s2" "go \<longrightarrow> \<not> child_exited s2" using assms(1) k s2 False st
      by (auto simp: fault_step_def s1_def split: bind_splits outcome.splits if_splits)
    then show ?thesis using same_control [OF e(1)] c st by (simp add: leads_to_def ev)
  qed
qed

section \<open>The loop ends\<close>

lemma count_machine [simp]: "fault_count (on_machine f s) = fault_count s" "fault_count (reply_empty kern s) = fault_count s"
  by (simp_all add: on_machine_def reply_empty_def)

lemma count_calls:
  "sc_fork kern en regs s = Some (v, b, s') \<Longrightarrow> fault_count s' = fault_count s"
  "resume_parent kern en s = Some s' \<Longrightarrow> fault_count s' = fault_count s"
  "sc_mmap si s = Some (v, b, s') \<Longrightarrow> fault_count s' = fault_count s"
  "sc_brk si s = Some (v, b, s') \<Longrightarrow> fault_count s' = fault_count s"
  "serve_exception kern ram en s = Some (out, s') \<Longrightarrow> fault_count s' = fault_count s"
  by (auto simp: sc_fork_def resume_parent_def sc_mmap_def sc_brk_def serve_exception_def Let_def on_machine_def
    split: bind_splits option.splits if_splits dest!: frame control_eq(1))

lemma count_execve: "sc_execve kern ram en di si s = Some (v, b, s') \<Longrightarrow> fault_count s' = fault_count s"
  and count_exit: "sc_exit kern en di s = Some (v, b, s') \<Longrightarrow> fault_count s' = fault_count s"
  by (auto simp: sc_execve_def sc_exit_def Let_def on_machine_def split: bind_splits if_splits dest!: count_calls(2) frame control_eq(1))

lemma count_syscall: "serve_syscall kern ram en regs s = Some (v, b, s') \<Longrightarrow> fault_count s' = fault_count s"
  unfolding serve_syscall_def Let_def
  by (simp only: split: if_split_asm) (erule count_calls count_execve count_exit frame [THEN control_eq(1)] fixed_answer_steps [THEN control_eq(1)])+

lemma count_fault: "serve_fault kern ram en label s = Some (out, s') \<Longrightarrow> fault_count s' = fault_count s"
proof -
  have "serve_unknown_syscall kern ram en s = Some (out, s') \<Longrightarrow> fault_count s' = fault_count s"
    by (auto simp: serve_unknown_syscall_def split: bind_splits if_splits dest!: count_syscall frame control_eq(1))
  then show "serve_fault kern ram en label s = Some (out, s') \<Longrightarrow> fault_count s' = fault_count s"
    by (auto simp: serve_fault_def Let_def on_machine_def split: if_splits dest: count_calls(5) control_vm_fault [THEN control_eq(1)] control_faults(4) [THEN control_eq(1)])
qed

lemma fault_step_count:
  assumes "fault_step kern ram en s = Some (go, s')"
  shows "fault_count s' = fault_count s + 1 \<and> (go \<longrightarrow> fault_count s' \<le> 100000)"
proof -
  from assms obtain tag bd s0 where k: "kcall (seL4_Recv kern (fault_ep en)) s = Some ((tag, bd), s0)"
    by (auto simp: fault_step_def split: bind_splits)
  define s1 where "s1 = s0\<lparr> fault_count := fault_count s0 + 1 \<rparr>"
  have s1: "fault_count s1 = fault_count s + 1" using control_kcall [OF k, THEN control_eq(1)] by (simp add: s1_def)
  show ?thesis
  proof (cases "fault_count s1 > 100000")
    case True
    with assms k s1 show ?thesis by (auto simp: fault_step_def s1_def)
  next
    case False
    with assms k obtain out s2 where s2: "serve_fault kern ram en (mi_label (mi_from_word tag)) s1 = Some (out, s2)"
      by (auto simp: fault_step_def s1_def split: bind_splits)
    then have "fault_count s' = fault_count s2" using assms k False
      by (auto simp: fault_step_def s1_def split: outcome.splits if_splits)
    then show ?thesis using count_fault [OF s2] s1 False by simp
  qed
qed

function fault_loop :: "'k kernel \<Rightarrow> 'k ram \<Rightarrow> sh_env \<Rightarrow> 'k shell \<Rightarrow> 'k shell option" where
  "fault_loop kern ram en s =
     (case fault_step kern ram en s of
        None \<Rightarrow> None
      | Some (go, s') \<Rightarrow> if go then fault_loop kern ram en s' else Some s')"
  by auto
termination
  by (relation "measure (\<lambda>(kern, ram, en, s). 100001 - fault_count s)") (auto dest!: fault_step_count)

declare fault_loop.simps [simp del]

section \<open>Starting the shell\<close>

text \<open>The first two ordinary untyped objects of at least 4 KiB.\<close>

fun find_two :: "boot_info \<Rightarrow> nat list \<Rightarrow> usize list \<Rightarrow> usize list option" where
  "find_two bi [] found = Some found"
| "find_two bi (i # is) found =
     do {
       desc \<leftarrow> get_untyped_desc bi i;
       if ud_is_device desc = 0 \<and> ud_size_bits desc \<ge> 12
       then let found' = found @ [untyped_start bi + of_nat i]
            in if length found' \<ge> 2 then Some found' else find_two bi is found'
       else find_two bi is found
     }"

definition CHILD_IPC_VADDR :: usize where "CHILD_IPC_VADDR = 0xF12000"

text \<open>The TCB the fork emulation runs the child on; errors are reported and ignored.\<close>

definition prepare_child :: "'k kernel \<Rightarrow> usize \<Rightarrow> usize \<Rightarrow> usize \<Rightarrow> usize list \<Rightarrow> 'k shell \<Rightarrow> 'k shell option" where
  "prepare_child kern ep tcb_slot ipc_slot uts s =
     (if length uts \<ge> 2 then do {
        (e, s1) \<leftarrow> kcall (seL4_Untyped_Retype kern (uts ! 0) (object_type_word TCB) (size_bits TCB) init_CNODE init_CNODE 64 tcb_slot 1) s;
        (e2, s2) \<leftarrow> kcall (seL4_Untyped_Retype kern (uts ! 1) (object_type_word Frame4K) (size_bits Frame4K) init_CNODE init_CNODE 64 ipc_slot 1)
          (warn kern e ''[fork] TCB retype err='' s1);
        (e3, s3) \<leftarrow> kcall (seL4_Frame_Map kern ipc_slot init_VSPACE CHILD_IPC_VADDR (cr_bits CapRights_ALL) 0)
          (warn kern e2 ''[fork] Frame retype err='' s2);
        (e4, s4) \<leftarrow> kcall (seL4_TCB_Configure kern tcb_slot ep init_CNODE 0 init_VSPACE CHILD_IPC_VADDR ipc_slot)
          (warn kern e3 ''[fork] Frame map err='' s3);
        (_, s5) \<leftarrow> kcall (seL4_TCB_SetSchedParams kern tcb_slot init_TCB 255 255) (warn kern e4 ''[fork] TCB configure err='' s4);
        (_, s6) \<leftarrow> kcall (seL4_TCB_SetFlags kern tcb_slot 1 0) s5;
        Some (tell kern [Inl ''[fork] Child TCB ready\<newline>''] s6)
      }
      else Some (tell kern [Inl ''[fork] Not enough untyped memory, fork disabled\<newline>''] s))"

definition shell_start :: "obj_pool \<Rightarrow> 'k machine \<Rightarrow> fs_client \<Rightarrow> usize \<Rightarrow> 'k shell" where
  "shell_start p m c t =
     \<lparr> sh_pool = p, sh_machine = m, sh_client = c, fault_count = 0, child_exited = False, brk_cur = 0x07000000, mmap_cur = 0x10000000,
       active_tcb = t, is_child = False, parent_regs = None, parent_brk = 0x07000000, parent_mmap = 0x10000000 \<rparr>"

definition test_busybox :: "'k kernel \<Rightarrow> 'k ram \<Rightarrow> boot_info \<Rightarrow> bytes \<Rightarrow> fs_client \<Rightarrow> 'k rt \<Rightarrow> (fs_client \<times> 'k rt) option" where
  "test_busybox kern ram bi elf c r =
     (let start = sr_start (bi_empty bi); fin = sr_end (bi_empty bi);
          pool = fold (\<lambda>i. extend_slot (start + of_nat i)) [0..<unat fin - unat start] (rt_pool r)
      in do {
        m1 \<leftarrow> put_u64 kern (fin - start)
          (prints kern [Inl ''\<newline>[busybox] Loading busybox ELF...\<newline>'', Inl ''[busybox] Allocator initialized with ''] (rt_machine r));
        m2 \<leftarrow> put_u64 kern (of_nat (length elf)) (prints kern [Inl '' slots\<newline>'', Inl ''[busybox] ELF size: ''] m1);
        (task, r1) \<leftarrow> create_user_task kern ram bi elf [str ''busybox'', str ''sh'']
          \<lparr> rt_pool = pool, rt_machine = prints kern [Inl '' bytes\<newline>''] m2 \<rparr>;
        (case task of
           None \<Rightarrow> Some (c, r1\<lparr> rt_machine := prints kern [Inl ''[busybox] Failed to create task\<newline>''] (rt_machine r1) \<rparr>)
         | Some (ep, t) \<Rightarrow> do {
             (child_tcb, s1) \<leftarrow> sh_alloc (shell_start (rt_pool r1)
               (prints kern [Inl ''[busybox] Task created, listening for faults...\<newline>''] (rt_machine r1)) c t);
             (child_ipc, s2) \<leftarrow> sh_alloc s1;
             uts \<leftarrow> find_two bi [0..<unat (untyped_count bi)] [];
             s3 \<leftarrow> prepare_child kern ep child_tcb child_ipc uts s2;
             (com1, s4) \<leftarrow> sh_alloc s3;
             (ioc, s5) \<leftarrow> kcall (seL4_X86_IOPortControl_Issue kern init_IO_PORT_CONTROL 0x3f8 0x3ff init_CNODE com1 64) s4;
             s6 \<leftarrow> fault_loop kern ram \<lparr> en_bi = bi, fault_ep = ep, busybox_tcb = t, child_tcb_slot = child_tcb,
               ut_found = length uts, com1_cap = com1 \<rparr> (warn kern ioc ''[busybox] COM1 ioport issue err='' s5);
             Some (sh_client s6, \<lparr> rt_pool = sh_pool s6, rt_machine = sh_machine s6 \<rparr>)
           })
      })"

section \<open>Properties\<close>

text \<open>
  C13. The fault loop ends: from a fresh start it serves at most 100000 rounds and then stops, or a round panics or waits
  for ever; the result of the loop is that of its last round.
\<close>

theorem fault_loop_ends:
  assumes "fault_count s = 0"
  shows "\<exists>n \<le> 100000. \<exists>s1. ((\<lambda>s s'. fault_step kern ram en s = Some (True, s')) ^^ n) s s1 \<and>
    (fault_step kern ram en s1 = None \<and> fault_loop kern ram en s = None \<or>
     (\<exists>s2. fault_step kern ram en s1 = Some (False, s2) \<and> fault_loop kern ram en s = Some s2))"
proof -
  have "\<exists>n \<le> 100000 - fault_count s. \<exists>s1. ((\<lambda>s s'. fault_step kern ram en s = Some (True, s')) ^^ n) s s1 \<and>
    (fault_step kern ram en s1 = None \<and> fault_loop kern ram en s = None \<or>
     (\<exists>s2. fault_step kern ram en s1 = Some (False, s2) \<and> fault_loop kern ram en s = Some s2))" for s
  proof (induction kern ram en s rule: fault_loop.induct)
    case (1 kern ram en s)
    show ?case
    proof (cases "fault_step kern ram en s")
      case None
      then show ?thesis by (intro exI [of _ 0]) (simp add: fault_loop.simps)
    next
      case (Some gs)
      obtain go s' where gs: "gs = (go, s')" by (cases gs)
      show ?thesis
      proof (cases go)
        case True
        have c: "fault_count s' = fault_count s + 1" "fault_count s' \<le> 100000" using fault_step_count [of kern ram en s True s'] Some gs True by simp_all
        from 1 [OF Some gs [symmetric] True] obtain n s1 where n: "n \<le> 100000 - fault_count s'"
          "((\<lambda>s s'. fault_step kern ram en s = Some (True, s')) ^^ n) s' s1"
          "fault_step kern ram en s1 = None \<and> fault_loop kern ram en s' = None \<or>
           (\<exists>s2. fault_step kern ram en s1 = Some (False, s2) \<and> fault_loop kern ram en s' = Some s2)" by blast
        have "fault_loop kern ram en s = fault_loop kern ram en s'" using Some gs True by (simp add: fault_loop.simps [of kern ram en s])
        moreover have "((\<lambda>s s'. fault_step kern ram en s = Some (True, s')) ^^ Suc n) s s1"
          using relpowp_Suc_I2 [of "\<lambda>s s'. fault_step kern ram en s = Some (True, s')" s s' n s1] Some gs True n(2) by simp
        ultimately show ?thesis using n c by (intro exI [of _ "Suc n"]) auto
      next
        case False
        then show ?thesis using Some gs by (intro exI [of _ 0]) (simp add: fault_loop.simps)
      qed
    qed
  qed
  from this [of s] assms show ?thesis by simp
qed

text \<open>
  C4. The fault loop implements a process with one level of fork, step by step: after any number of rounds, whatever the kernel
  delivers, the next round takes the process exactly where the abstract process goes at the event of that round. A fork,
  when there was memory for the second TCB, saves the caller's registers, break and mapping cursor and runs the child with
  the same break and cursor (a fork by the child replaces what its parent saved); the child's \<^verbatim>\<open>execve\<close> and \<^verbatim>\<open>exit\<close> bring
  the parent back with the break and cursor it saved; \<^verbatim>\<open>mmap\<close> moves the running program's cursor by whole pages, at least one,
  \<^verbatim>\<open>brk\<close> sets its break; the parent's \<^verbatim>\<open>exit\<close> and an exception end the process; nothing else changes it. The saved registers
  exist exactly while the child runs, which is the active TCB then, so that resuming the parent does not panic.
\<close>

theorem shell_refines_process:
  assumes "shell_inv en s" and "\<not> child_exited s" and "(\<lambda>s s'. fault_step kern ram en s = Some (True, s'))\<^sup>*\<^sup>* s s1"
    and "fault_step kern ram en s1 = Some (go, s2)"
  shows "process_of s2 = process_next (ut_found en \<ge> 2) (round_event kern en s1) (process_of s1) \<and> shell_inv en s2"
proof -
  have "shell_inv en s1 \<and> \<not> child_exited s1"
    using assms(3)
  proof (induction rule: rtranclp_induct)
    case (step y z)
    with fault_step_leads [of kern ram en y True z] show ?case by simp
  qed (use assms(1,2) in simp)
  with fault_step_leads [OF assms(4)] show ?thesis by simp
qed

text \<open>The documented effect of the calls the console uses on the memory of the caller: none.\<close>

definition console_only :: "'k kernel \<Rightarrow> 'k ram \<Rightarrow> bool" where
  "console_only kern ram \<longleftrightarrow> (\<forall>c b k a.
     c_rdx c = SYS_DEBUG_PUT_CHAR \<or> c_rdx c = SYS_YIELD \<or> c_rdx c = SYS_CALL \<and> drop_bit 12 (c_rsi c) = 48 \<longrightarrow>
     ld ram a (snd (snd (kern c b k))) = ld ram a k)"

lemma console_mem:
  assumes "console_only kern ram"
  shows "load_byte ram (seL4_DebugPutChar kern ch m) = load_byte ram m"
    and "load_byte ram (seL4_Yield kern m) = load_byte ram m"
    and "seL4_X86_IOPort_In8 kern cap port m = Some (r, m') \<Longrightarrow> load_byte ram m' = load_byte ram m"
proof -
  have w: "load_byte ram (syscall_insn kern f m) a = ld ram a (snd (snd (kern (f (cpu m)) (ipc_buf m) (world m))))" for f m a
    by (simp add: syscall_insn_def load_byte_def split: prod.splits)
  show "load_byte ram (seL4_DebugPutChar kern ch m) = load_byte ram m" "load_byte ram (seL4_Yield kern m) = load_byte ram m"
    using assms unfolding console_only_def
    by (auto simp: fun_eq_iff seL4_DebugPutChar_def seL4_Yield_def sys_null_def w) (simp_all add: load_byte_def)
  show "load_byte ram m' = load_byte ram m" if "seL4_X86_IOPort_In8 kern cap port m = Some (r, m')"
  proof
    fix a
    let ?c = "(cpu m)\<lparr> c_rdx := SYS_CALL, c_rdi := cap, c_rsi := push_bit 12 48 OR 1, c_r10 := ucast port, c_r8 := 0, c_r9 := 0,
      c_r12 := 0, c_r13 := 0, c_r15 := 0 \<rparr>"
    have "\<exists>b. m' = enter_kernel kern ?c b m" using that
      by (auto simp: seL4_X86_IOPort_In8_def seL4_syscall_with_buf_def seL4_syscall_enter Let_def split: if_splits bind_splits)
    then obtain b where m': "m' = enter_kernel kern ?c b m" by blast
    define c where "c = ?c"
    have c: "c_rdx c = SYS_CALL" "c_rsi c = push_bit 12 48 OR 1" "m' = enter_kernel kern c b m" using m' by (simp_all add: c_def)
    have "drop_bit 12 (c_rsi c) = 48" using c(2) by simp
    then show "load_byte ram m' a = load_byte ram m a" using assms c(1) unfolding console_only_def c(3)
      by (simp add: load_enter_kernel) (simp add: load_byte_def)
  qed
qed

lemma stdin_key_safe:
  assumes "ram_ok ram" and "console_only kern ram" and "stdin_key kern ram buf cnt ch n m = (fin, n', m')" and "n \<le> cnt"
  shows "n' \<le> cnt" and "cnt \<le> x - buf \<Longrightarrow> load_byte ram m' x = load_byte ram m x"
proof -
  have n: "n - 1 \<le> cnt" if "n > 0" using that assms(4) unat_minus_le [of 1 n] by (simp add: word_le_nat_alt word_less_nat_alt)
  show "n' \<le> cnt" using assms(3,4) n by (auto simp: stdin_key_def Let_def inc_le split: if_splits)
  show "load_byte ram m' x = load_byte ram m x" if "cnt \<le> x - buf"
    using assms(3,4) that by (auto simp: stdin_key_def Let_def console_mem [OF assms(2)] load_store_byte [OF assms(1)] split: if_splits)
qed

text \<open>What reading a line promises: it returns at most \<open>cnt\<close> characters and changes no memory outside the buffer.\<close>

definition line_safe :: "'k kernel \<Rightarrow> 'k ram \<Rightarrow> usize \<Rightarrow> usize \<Rightarrow> usize \<Rightarrow> 'k machine \<Rightarrow> usize \<times> 'k machine \<Rightarrow> bool" where
  "line_safe kern ram buf cnt n m r \<longleftrightarrow> (ram_ok ram \<and> console_only kern ram \<and> n \<le> cnt \<longrightarrow>
     fst r \<le> cnt \<and> (\<forall>x. cnt \<le> x - buf \<longrightarrow> load_byte ram (snd r) x = load_byte ram m x))"

lemma line_safe_key:
  assumes k1: "seL4_X86_IOPort_In8 kern com1 p1 m = Some (v1, m1)" and k2: "seL4_X86_IOPort_In8 kern com1 p2 m1 = Some (v2, m2)"
    and key: "stdin_key kern ram buf cnt ch n m2 = (fin, n', m3)"
    and r: "r = (n, m2) \<or> r = (n', m3) \<or> line_safe kern ram buf cnt n' m3 r"
  shows "line_safe kern ram buf cnt n m r"
  unfolding line_safe_def
proof (intro impI, elim conjE)
  assume ok: "ram_ok ram" "console_only kern ram" "n \<le> cnt"
  note mem = console_mem [OF ok(2)]
  from r mem(3) [OF k1] mem(3) [OF k2] stdin_key_safe [OF ok(1,2) key ok(3)] ok
  show "fst r \<le> cnt \<and> (\<forall>x. cnt \<le> x - buf \<longrightarrow> load_byte ram (snd r) x = load_byte ram m x)" by (auto simp: line_safe_def)
qed

lemma stdin_loop_safe:
  assumes "stdin_loop kern ram com1 buf cnt n m = Some r"
  shows "line_safe kern ram buf cnt n m r"
proof (rule stdin_loop.raw_induct [where P = "\<lambda>kern ram com1 buf cnt n m r. line_safe kern ram buf cnt n m r", OF _ assms])
  fix loop :: "'a kernel \<Rightarrow> 'a ram \<Rightarrow> usize \<Rightarrow> usize \<Rightarrow> usize \<Rightarrow> usize \<Rightarrow> 'a machine \<Rightarrow> (usize \<times> 'a machine) option"
  fix kern ram com1 buf cnt n m r
  assume ih: "\<And>kern ram com1 buf cnt n m y. loop kern ram com1 buf cnt n m = Some y \<Longrightarrow> line_safe kern ram buf cnt n m y"
    and run: "do {
       ((err, lsr), m1) \<leftarrow> seL4_X86_IOPort_In8 kern com1 1021 m;
       if err \<noteq> 0 then Some (n, m1)
       else if lsr AND 1 = 0 then loop kern ram com1 buf cnt n (seL4_Yield kern m1)
       else do {
         ((err, ch), m2) \<leftarrow> seL4_X86_IOPort_In8 kern com1 1016 m1;
         if err \<noteq> 0 then Some (n, m2)
         else
           let (fin, n', m3) = stdin_key kern ram buf cnt ch n m2
           in if fin \<or> cnt \<le> n' then Some (n', m3) else loop kern ram com1 buf cnt n' m3
       }
     } = Some r"
  from run obtain err lsr m1 where k1: "seL4_X86_IOPort_In8 kern com1 1021 m = Some ((err, lsr), m1)" by (auto split: bind_splits)
  have "r = (n, m1) \<or> loop kern ram com1 buf cnt n (seL4_Yield kern m1) = Some r \<or> err = 0 \<and> lsr AND 1 \<noteq> 0"
    using run k1 by (cases "err = 0"; cases "lsr AND 1 = 0") simp_all
  then consider (err) "r = (n, m1)" | (wait) "loop kern ram com1 buf cnt n (seL4_Yield kern m1) = Some r" | (ready) "err = 0" "lsr AND 1 \<noteq> 0"
    by blast
  then show "line_safe kern ram buf cnt n m r"
  proof cases
    case err
    then show ?thesis using console_mem(3) [OF _ k1] by (simp add: line_safe_def)
  next
    case wait
    from ih [OF this] show ?thesis using console_mem(2,3) [of kern ram] k1 by (auto simp: line_safe_def)
  next
    case ready
    with run k1 obtain err ch m2 where k2: "seL4_X86_IOPort_In8 kern com1 1016 m1 = Some ((err, ch), m2)" by (auto split: bind_splits)
    obtain fin n' m3 where key: "stdin_key kern ram buf cnt ch n m2 = (fin, n', m3)" by (metis prod_cases3)
    have "r = (n, m2) \<or> r = (n', m3) \<or> loop kern ram com1 buf cnt n' m3 = Some r" using run k1 k2 ready key by (auto split: if_splits)
    then show ?thesis using ih by (intro line_safe_key [OF k1 k2 key]) blast
  qed
qed

text \<open>
  C16. A line read from the console stays inside the child's buffer: whatever is typed, if the read returns, it reports at
  most the size of the buffer and has changed no byte of memory outside it.
\<close>

theorem read_stdin_line_safe:
  assumes "ram_ok ram" and "console_only kern ram" and "read_stdin_line kern ram com1 buf cnt m = Some (n, m')"
  shows "n \<le> cnt \<and> (\<forall>x. cnt \<le> x - buf \<longrightarrow> load_byte ram m' x = load_byte ram m x)"
  using stdin_loop_safe [of kern ram com1 buf cnt 0 m "(n, m')"] assms by (simp add: read_stdin_line_def line_safe_def)

text \<open>
  C15. The end of a child resumes the parent: with the parent's registers saved, the loop writes to the parent's TCB, by one
  kernel entry, the eighteen registers it forked with, but for the child's identifier in \<^verbatim>\<open>RAX\<close> and the instruction pointer
  past the call, then resumes it, and the break, the mapping cursor and the active TCB are the parent's again.
\<close>

theorem child_end_resumes_parent:
  assumes "parent_regs s = Some p" and "length p = 20" and "ipc_set (sh_machine s)" and "ipc_buffer_ok (ipc_buf (sh_machine s))"
  shows "\<exists>c b. c_rdi c = busybox_tcb en \<and> get_syscall_arg c b 0 = 0 \<and> get_syscall_arg c b 1 = 18 \<and>
    (\<forall>i < 18. get_syscall_arg c b (2 + i) = (if i = 3 then child_pid else if i = 0 then p ! 0 + 2 else p ! i)) \<and>
    resume_parent kern en s =
      map_option (\<lambda>(_, m). s\<lparr> active_tcb := busybox_tcb en, is_child := False, brk_cur := parent_brk s, mmap_cur := parent_mmap s,
        parent_regs := None, sh_machine := m \<rparr>) (seL4_TCB_Resume kern (busybox_tcb en) (enter_kernel kern c b (sh_machine s)))"
proof -
  let ?q = "p[3 := child_pid, 0 := p ! 0 + 2]"
  have len: "length (take 18 ?q) = unat (18 :: u8)" "unat (18 :: u8) \<le> 20" using assms(2) by simp_all
  have w: "seL4_TCB_WriteRegisters kern t r fl 18 ?q m = seL4_TCB_WriteRegisters kern t r fl 18 (take 18 ?q) m" for t r fl m
    using assms(2) by (simp add: seL4_TCB_WriteRegisters_def Let_def)
  from write_registers_delivers [OF assms(3,4) len, of kern "busybox_tcb en" False 0] obtain c b where
    run: "seL4_TCB_WriteRegisters kern (busybox_tcb en) False 0 18 (take 18 ?q) (sh_machine s) =
      Some (drop_bit 12 (c_rsi (cpu (enter_kernel kern c b (sh_machine s)))), enter_kernel kern c b (sh_machine s))"
    and cb: "c_rdi c = busybox_tcb en" "get_syscall_arg c b 0 = 0" "get_syscall_arg c b 1 = 18"
    and args: "\<forall>i < length (take 18 ?q). get_syscall_arg c b (2 + i) = take 18 ?q ! i" by auto
  have "get_syscall_arg c b (2 + i) = (if i = 3 then child_pid else if i = 0 then p ! 0 + 2 else p ! i)" if "i < 18" for i
    using args that assms(2) by (simp add: nth_list_update)
  moreover have "resume_parent kern en s =
      map_option (\<lambda>(_, m). s\<lparr> active_tcb := busybox_tcb en, is_child := False, brk_cur := parent_brk s, mmap_cur := parent_mmap s,
        parent_regs := None, sh_machine := m \<rparr>) (seL4_TCB_Resume kern (busybox_tcb en) (enter_kernel kern c b (sh_machine s)))"
    using assms(1) by (simp add: resume_parent_def kcall_def w run split: option.splits)
  ultimately show ?thesis using cb by (intro exI [of _ c] exI [of _ b]) simp
qed

section \<open>Witnesses\<close>

text \<open>A child that forks at its first fault, and a console that delivers a carriage return.\<close>

definition shell_env :: sh_env where
  "shell_env = \<lparr> en_bi = sample_boot_info, fault_ep = 60, busybox_tcb = 61, child_tcb_slot = 62, ut_found = 2, com1_cap = 63 \<rparr>"

definition sample_shell :: "(usize \<Rightarrow> u8) shell" where
  "sample_shell = shell_start \<lparr> op_recycled = [] \<rparr> (rt_machine (quiet_rt [])) fs_client_new 61"

definition fork_kernel :: "(usize \<Rightarrow> u8) kernel" where
  "fork_kernel c b k = (c\<lparr> c_rsi := (if c_rdx c = SYS_RECV then push_bit 12 2 else 0), c_r15 := 57 \<rparr>, b, k)"

definition return_kernel :: "(usize \<Rightarrow> u8) kernel" where
  "return_kernel c b k = (c\<lparr> c_rsi := 0, c_r10 := 13 \<rparr>, b, k)"

theorem fault_loop_ends_witness:
  "\<exists>n \<le> 100000. \<exists>s1. ((\<lambda>s s'. fault_step fork_kernel flat_ram shell_env s = Some (True, s')) ^^ n) sample_shell s1 \<and>
    (fault_step fork_kernel flat_ram shell_env s1 = None \<and> fault_loop fork_kernel flat_ram shell_env sample_shell = None \<or>
     (\<exists>s2. fault_step fork_kernel flat_ram shell_env s1 = Some (False, s2) \<and> fault_loop fork_kernel flat_ram shell_env sample_shell = Some s2))"
  by (rule fault_loop_ends) (simp add: sample_shell_def shell_start_def)

theorem read_stdin_line_safe_witness:
  "\<exists>n m'. read_stdin_line return_kernel flat_ram 63 0x1000 4 (sh_machine sample_shell) = Some (n, m') \<and> n \<le> 4 \<and>
    load_byte flat_ram m' 0x2000 = load_byte flat_ram (sh_machine sample_shell) 0x2000"
proof -
  have "console_only return_kernel flat_ram" by (simp add: console_only_def return_kernel_def)
  moreover have "\<exists>n m'. read_stdin_line return_kernel flat_ram 63 0x1000 4 (sh_machine sample_shell) = Some (n, m')"
    unfolding read_stdin_line_def by (subst stdin_loop.simps)
      (simp add: seL4_X86_IOPort_In8_def seL4_syscall_with_buf_def seL4_syscall_def syscall_insn_def return_kernel_def stdin_key_def Let_def
        sample_shell_def shell_start_def quiet_rt_def)
  then obtain n m' where r: "read_stdin_line return_kernel flat_ram 63 0x1000 4 (sh_machine sample_shell) = Some (n, m')" by blast
  ultimately show ?thesis using read_stdin_line_safe [OF flat_ram_ok _ r] by auto
qed

theorem child_end_resumes_parent_witness:
  "\<exists>c b s'. resume_parent quiet_kernel shell_env (sample_shell\<lparr> is_child := True, parent_regs := Some (replicate 20 7) \<rparr>) = Some s' \<and>
    get_syscall_arg c b 5 = 42 \<and> get_syscall_arg c b 2 = 9 \<and> get_syscall_arg c b 3 = 7 \<and> brk_cur s' = 0x07000000"
proof -
  let ?s = "sample_shell\<lparr> is_child := True, parent_regs := Some (replicate 20 7) \<rparr>"
  have m: "ipc_set (sh_machine ?s)" "ipc_buffer_ok (ipc_buf (sh_machine ?s))" "length (replicate 20 (7 :: usize)) = 20"
    by (simp_all add: sample_shell_def shell_start_def quiet_rt_def)
  have p: "parent_regs ?s = Some (replicate 20 7)" by simp
  from child_end_resumes_parent [OF p m(3,1,2), of shell_env quiet_kernel] obtain c b where
    args: "\<forall>i < 18. get_syscall_arg c b (2 + i) = (if i = 3 then child_pid else if i = 0 then replicate 20 7 ! 0 + 2 else replicate 20 7 ! i)"
    and run: "resume_parent quiet_kernel shell_env ?s =
      map_option (\<lambda>(_, m). ?s\<lparr> active_tcb := busybox_tcb shell_env, is_child := False, brk_cur := parent_brk ?s, mmap_cur := parent_mmap ?s,
        parent_regs := None, sh_machine := m \<rparr>) (seL4_TCB_Resume quiet_kernel (busybox_tcb shell_env) (enter_kernel quiet_kernel c b (sh_machine ?s)))"
    by blast
  have "ipc_set (enter_kernel quiet_kernel c b (sh_machine ?s))" using m(1) by (simp add: enter_kernel_def quiet_kernel_def)
  then have "\<exists>r. seL4_TCB_Resume quiet_kernel (busybox_tcb shell_env) (enter_kernel quiet_kernel c b (sh_machine ?s)) = Some r"
    by (simp add: seL4_TCB_Resume_def cap_invoke_def seL4_syscall_with_buf_def seL4_syscall_enter Let_def)
  then obtain s' where "resume_parent quiet_kernel shell_env ?s = Some s'" "brk_cur s' = 0x07000000"
    using run by (auto simp: sample_shell_def shell_start_def)
  then show ?thesis using args [rule_format, of 3] args [rule_format, of 0] args [rule_format, of 1]
    by (intro exI [of _ c] exI [of _ b] exI [of _ s']) (simp add: child_pid_def)
qed

text \<open>The first round of the forking child.\<close>

lemma fork_enter: "ipc_set (enter_kernel fork_kernel c b m) = ipc_set m"
  by (simp add: enter_kernel_def fork_kernel_def)

lemma fork_read:
  "ipc_set m \<Longrightarrow> \<exists>regs m'. seL4_TCB_ReadRegisters fork_kernel t False 0 20 (replicate 20 0) m = Some ((0, regs), m') \<and> regs ! 3 = 57 \<and> ipc_set m'"
  by (simp add: seL4_TCB_ReadRegisters_def seL4_syscall_with_buf_def seL4_syscall_def syscall_insn_def fork_kernel_def with_ipc_buffer_def Let_def
    nth_fold_update SYS_RECV_def SYS_CALL_def)

lemma fork_invoke: "ipc_set m \<Longrightarrow> \<exists>m'. cap_invoke fork_kernel d l mrs m = Some (0, m') \<and> ipc_set m'"
  by (simp add: cap_invoke_def seL4_syscall_with_buf_def seL4_syscall_def syscall_insn_def fork_kernel_def Let_def SYS_RECV_def SYS_CALL_def)

lemma fork_round: "\<exists>regs s2. fault_step fork_kernel flat_ram shell_env sample_shell = Some (True, s2) \<and>
    round_event fork_kernel shell_env sample_shell = Call regs \<and> regs ! 3 = 57"
proof -
  have "\<exists>m b. seL4_Recv fork_kernel 60 (sh_machine sample_shell) = Some ((push_bit 12 2, b), m) \<and> ipc_set m"
    by (simp add: seL4_Recv_def syscall_insn_def fork_kernel_def with_ipc_buffer_def sample_shell_def shell_start_def quiet_rt_def Let_def)
  then obtain m1 b where m1: "seL4_Recv fork_kernel 60 (sh_machine sample_shell) = Some ((push_bit 12 2, b), m1)" "ipc_set m1" by blast
  have label: "mi_label (mi_from_word (push_bit 12 2)) AND 0xF = 2" by (simp add: mi_label_def mi_from_word_def)
  obtain regs m2 where m2: "seL4_TCB_ReadRegisters fork_kernel 61 False 0 20 (replicate 20 0) m1 = Some ((0, regs), m2)" "regs ! 3 = 57" "ipc_set m2"
    using fork_read [OF m1(2)] by blast
  have w: "2 + min (length (regs[3 := 0, 0 := regs ! 0 + 2])) (unat (20 :: u8)) \<le> 22" by simp
  obtain m3 where m3: "seL4_TCB_WriteRegisters fork_kernel 62 False 0 20 (regs[3 := 0, 0 := regs ! 0 + 2]) m2 = Some (0, m3)" "ipc_set m3"
    using fork_invoke [OF m2(3), of 62 3] w unfolding seL4_TCB_WriteRegisters_def Let_def by (metis not_le)
  obtain m4 where m4: "seL4_TCB_Resume fork_kernel 62 m3 = Some (0, m4)"
    using fork_invoke [OF m3(2), of 62 12 "[]"] unfolding seL4_TCB_Resume_def by blast
  have "active_tcb sample_shell = 61" "fault_count sample_shell = 0" "\<not> child_exited sample_shell"
    by (simp_all add: sample_shell_def shell_start_def)
  then show ?thesis using m1 label m2 m3 m4
    by (simp add: fault_step_def kcall_def serve_fault_def serve_unknown_syscall_def serve_syscall_def sc_fork_def shell_env_def
      round_event_def fault_event_def)
qed

theorem shell_refines_process_witness:
  "\<exists>regs s2. fault_step fork_kernel flat_ram shell_env sample_shell = Some (True, s2) \<and> shell_inv shell_env s2 \<and>
    process_of s2 = Child 0x07000000 0x10000000 regs 0x07000000 0x10000000 \<and> regs ! 3 = 57"
proof -
  have s: "shell_inv shell_env sample_shell" "\<not> child_exited sample_shell" "process_of sample_shell = Parent 0x07000000 0x10000000"
    by (simp_all add: shell_inv_def process_of_def sample_shell_def shell_start_def shell_env_def)
  from fork_round obtain regs s2 where r: "fault_step fork_kernel flat_ram shell_env sample_shell = Some (True, s2)"
    and ev: "round_event fork_kernel shell_env sample_shell = Call regs" "regs ! 3 = 57" by blast
  from shell_refines_process [OF s(1,2) rtranclp.rtrancl_refl r]
  have "process_of s2 = Child 0x07000000 0x10000000 regs 0x07000000 0x10000000" "shell_inv shell_env s2"
    using ev by (simp_all add: s(3) proc_call_def shell_env_def)
  then show ?thesis using r ev(2) by blast
qed

section \<open>A defect\<close>

text \<open>
  \<^verbatim>\<open>test_busybox\<close> puts every empty slot into the pool before \<^verbatim>\<open>create_user_task\<close> puts them there again: the pool holds
  slots twice, and slots the runner uses itself.
\<close>

lemma slots_registered_twice:
  "\<exists>s'. give_pool (100 + 6) 110 \<lparr> rt_pool = fold (\<lambda>i. extend_slot (100 + of_nat i)) [0..<10] \<lparr> op_recycled = [] \<rparr>,
      rt_machine = sample_machine \<rparr> = Some (Some (), s') \<and>
    \<not> distinct (op_recycled (rt_pool s')) \<and> 100 \<in> set (op_recycled (rt_pool s'))"
  by (simp add: give_pool_def extend_slot_def upt_rec)

end
