(* ===== verification/Devices.thy ===== *)
theory Devices
  imports Sel4_Syscalls
begin

text \<open>
  Small devices and service interfaces: pipes and device files of the layer (\<^verbatim>\<open>lcl/src/fs/pipe.rs\<close>,
  \<^verbatim>\<open>lcl/src/fs/devfs/mod.rs\<close>), the serial port (\<^verbatim>\<open>lcl/src/device/uart.rs\<close>), physical pages
  (\<^verbatim>\<open>crates/common/src/page.rs\<close>) and the event numbers of the service gate (\<^verbatim>\<open>crates/srv-gate\<close>).
\<close>

section \<open>Bounded queues\<close>

text \<open>
  The contract of a bounded queue: \<open>push\<close> takes as much as there is room for and says how much, \<open>pull\<close> removes from the
  front at most what is asked for.
\<close>

datatype 'a fifo_op = Put "'a list" | Get nat

primrec run_fifo ::
  "('a list \<Rightarrow> 's \<Rightarrow> nat \<times> 's) \<Rightarrow> (nat \<Rightarrow> 's \<Rightarrow> 'a list \<times> 's) \<Rightarrow> 'a fifo_op list \<Rightarrow> 's \<Rightarrow> 'a list \<times> 'a list \<times> 's" where
  "run_fifo push pull [] s = ([], [], s)"
| "run_fifo push pull (x # xs) s =
     (case x of
        Put ys \<Rightarrow> (let (n, s1) = push ys s; (ins, outs, s2) = run_fifo push pull xs s1 in (take n ys @ ins, outs, s2))
      | Get k \<Rightarrow> (let (ys, s1) = pull k s; (ins, outs, s2) = run_fifo push pull xs s1 in (ins, ys @ outs, s2)))"

locale bounded_fifo =
  fixes contents :: "'s \<Rightarrow> 'a list" and capacity :: "'s \<Rightarrow> nat"
    and push :: "'a list \<Rightarrow> 's \<Rightarrow> nat \<times> 's" and pull :: "nat \<Rightarrow> 's \<Rightarrow> 'a list \<times> 's"
  assumes push_takes: "length (contents s) \<le> capacity s \<Longrightarrow> push xs s = (n, s') \<Longrightarrow>
      n = min (length xs) (capacity s - length (contents s)) \<and> contents s' = contents s @ take n xs \<and> capacity s' = capacity s"
    and pull_gives: "pull k s = (ys, s') \<Longrightarrow> ys @ contents s' = contents s \<and> length ys = min k (length (contents s)) \<and> capacity s' = capacity s"
begin

lemma stream:
  assumes "length (contents s) \<le> capacity s" and "run_fifo push pull ops s = (ins, outs, s')"
  shows "outs @ contents s' = contents s @ ins \<and> length (contents s') \<le> capacity s' \<and> capacity s' = capacity s"
  using assms
proof (induction ops arbitrary: s ins outs)
  case (Cons x ops)
  show ?case
  proof (cases x)
    case (Put ys)
    obtain n s1 where p: "push ys s = (n, s1)" by fastforce
    note law = push_takes [OF Cons.prems(1) p]
    obtain ins1 where r: "run_fifo push pull ops s1 = (ins1, outs, s')" "ins = take n ys @ ins1"
      using Cons.prems(2) Put p by (auto split: prod.splits)
    have "length (contents s1) \<le> capacity s1" using law Cons.prems(1) by simp
    from Cons.IH [OF this r(1)] law r(2) show ?thesis by simp
  next
    case (Get k)
    obtain ys s1 where p: "pull k s = (ys, s1)" by fastforce
    note law = pull_gives [OF p]
    obtain outs1 where r: "run_fifo push pull ops s1 = (ins, outs1, s')" "outs = ys @ outs1"
      using Cons.prems(2) Get p by (auto split: prod.splits)
    have "length (contents s1) \<le> capacity s1"
      using law Cons.prems(1) by (metis length_append le_add2 le_trans)
    from Cons.IH [OF this r(1)] law r(2) show ?thesis by (metis append.assoc)
  qed
qed simp

end

section \<open>Pipes\<close>

record pipe =
  pipe_buf :: bytes
  max_size :: usize

definition create_pipe :: "usize \<Rightarrow> pipe" where
  "create_pipe n = \<lparr> pipe_buf = [], max_size = n \<rparr>"

definition pipe_write :: "bytes \<Rightarrow> pipe \<Rightarrow> nat \<times> pipe" where
  "pipe_write dat p =
     (let available = max_size p - of_nat (length (pipe_buf p));
          to_write = min (length dat) (unat available)
      in (to_write, p\<lparr> pipe_buf := pipe_buf p @ take to_write dat \<rparr>))"

text \<open>\<^verbatim>\<open>for byte in buf.iter_mut().take(n) { *byte = pop_front().unwrap() }\<close>\<close>

primrec pop_front_each :: "bytes \<Rightarrow> bytes \<Rightarrow> (bytes \<times> bytes) option" where
  "pop_front_each [] q = Some ([], q)"
| "pop_front_each (b # bs) q =
     (case q of
        [] \<Rightarrow> None
      | c # q' \<Rightarrow> map_option (\<lambda>(ds, r). (c # ds, r)) (pop_front_each bs q'))"

definition pipe_read :: "bytes \<Rightarrow> pipe \<Rightarrow> (nat \<times> bytes \<times> pipe) option" where
  "pipe_read buf p =
     (let to_read = min (length buf) (length (pipe_buf p))
      in map_option (\<lambda>(ds, q). (to_read, ds @ drop to_read buf, p\<lparr> pipe_buf := q \<rparr>)) (pop_front_each (take to_read buf) (pipe_buf p)))"

definition pipe_available :: "pipe \<Rightarrow> nat" where
  "pipe_available p = length (pipe_buf p)"

text \<open>A read into a buffer of \<open>k\<close> zeros, as the bytes it delivers; it never panics.\<close>

definition pipe_pull :: "nat \<Rightarrow> pipe \<Rightarrow> bytes \<times> pipe" where
  "pipe_pull k p = (case pipe_read (replicate k 0) p of Some (n, buf, p') \<Rightarrow> (take n buf, p') | None \<Rightarrow> ([], p))"

lemma pop_front_each_Some: "length bs \<le> length q \<Longrightarrow> pop_front_each bs q = Some (take (length bs) q, drop (length bs) q)"
  by (induction bs arbitrary: q) (auto split: list.splits)

lemma pipe_read_exact:
  "pipe_read buf p = (let n = min (length buf) (length (pipe_buf p))
    in Some (n, take n (pipe_buf p) @ drop n buf, p\<lparr> pipe_buf := drop n (pipe_buf p) \<rparr>))"
  by (simp add: pipe_read_def pop_front_each_Some Let_def min_def)

interpretation pipe: bounded_fifo pipe_buf "\<lambda>p. unat (max_size p)" pipe_write pipe_pull
proof unfold_locales
  show "n = min (length xs) (unat (max_size s) - length (pipe_buf s)) \<and> pipe_buf s' = pipe_buf s @ take n xs \<and> unat (max_size s') = unat (max_size s)"
    if "length (pipe_buf s) \<le> unat (max_size s)" "pipe_write xs s = (n, s')" for s xs n s'
  proof -
    have "unat (of_nat (length (pipe_buf s)) :: usize) = length (pipe_buf s)"
      using that(1) unat_less_64 [of "max_size s"] by (intro unat_of_nat_small) simp
    then have "unat (max_size s - of_nat (length (pipe_buf s))) = unat (max_size s) - length (pipe_buf s)"
      using that(1) by (subst unat_minus_le) (simp_all add: word_le_nat_alt)
    then show ?thesis using that(2) by (auto simp: pipe_write_def Let_def)
  qed
  show "ys @ pipe_buf s' = pipe_buf s \<and> length ys = min k (length (pipe_buf s)) \<and> unat (max_size s') = unat (max_size s)"
    if "pipe_pull k s = (ys, s')" for k s ys s'
    using that by (auto simp: pipe_pull_def pipe_read_exact Let_def)
qed

section \<open>Device files\<close>

datatype dev_file = Null | Zero | Stdin | Stdout | Stderr

definition dev_files :: "(bytes \<times> dev_file) list" where
  "dev_files = [(str ''null'', Null), (str ''zero'', Zero), (str ''stdin'', Stdin), (str ''stdout'', Stdout), (str ''stderr'', Stderr)]"

definition dev_open :: "bytes \<Rightarrow> dev_file option" where
  "dev_open name = map_option snd (find (\<lambda>(n, _). n = name) dev_files)"

definition dev_read :: "dev_file \<Rightarrow> bytes \<Rightarrow> nat \<times> bytes" where
  "dev_read file buf = (case file of Zero \<Rightarrow> (length buf, replicate (length buf) 0) | _ \<Rightarrow> (0, buf))"

definition dev_write :: "'k kernel \<Rightarrow> dev_file \<Rightarrow> bytes \<Rightarrow> 'k machine \<Rightarrow> nat \<times> 'k machine" where
  "dev_write kern file buf m =
     (case file of
        Null \<Rightarrow> (length buf, m)
      | Stdout \<Rightarrow> (length buf, fold (seL4_DebugPutChar kern) buf m)
      | Stderr \<Rightarrow> (length buf, fold (seL4_DebugPutChar kern) buf m)
      | _ \<Rightarrow> (0, m))"

section \<open>The serial port\<close>

text \<open>The I/O ports of the processor are a parameter: reading a port may change the device.\<close>

record 'w ports =
  inb :: "u16 \<Rightarrow> 'w \<Rightarrow> u8 \<times> 'w"
  outb :: "u16 \<Rightarrow> u8 \<Rightarrow> 'w \<Rightarrow> 'w"

definition COM1 :: u16 where "COM1 = 0x3f8"

definition uart_get_char :: "'w ports \<Rightarrow> 'w \<Rightarrow> u8 option \<times> 'w" where
  "uart_get_char io w =
     (let (lsr, w1) = inb io (COM1 + 5) w
      in if lsr AND 1 \<noteq> 0 then (let (ch, w2) = inb io COM1 w1 in (Some ch, w2)) else (None, w1))"

partial_function (option) uart_put_char :: "'w ports \<Rightarrow> u8 \<Rightarrow> 'w \<Rightarrow> 'w option" where
  "uart_put_char io c w =
     (let (lsr, w1) = inb io (COM1 + 5) w
      in if lsr AND 0x20 \<noteq> 0 then Some (outb io COM1 c w1) else uart_put_char io c w1)"

primrec uart_puts :: "'w ports \<Rightarrow> bytes \<Rightarrow> 'w \<Rightarrow> 'w option" where
  "uart_puts io [] w = Some w"
| "uart_puts io (b # bs) w = (case uart_put_char io b w of None \<Rightarrow> None | Some w1 \<Rightarrow> uart_puts io bs w1)"

text \<open>The transmitter becomes ready after some polls: then the character is sent and the call returns.\<close>

definition uart_poll :: "'w ports \<Rightarrow> 'w \<Rightarrow> 'w" where
  "uart_poll io w = snd (inb io (COM1 + 5) w)"

definition uart_ready :: "'w ports \<Rightarrow> 'w \<Rightarrow> bool" where
  "uart_ready io w \<longleftrightarrow> fst (inb io (COM1 + 5) w) AND 0x20 \<noteq> 0"

lemma uart_put_char_sends:
  assumes "uart_ready io ((uart_poll io ^^ n) w)" and "\<forall>i < n. \<not> uart_ready io ((uart_poll io ^^ i) w)"
  shows "uart_put_char io c w = Some (outb io COM1 c ((uart_poll io ^^ Suc n) w))"
  using assms
proof (induction n arbitrary: w)
  case 0
  then show ?case by (subst uart_put_char.simps) (simp add: split_beta uart_ready_def uart_poll_def)
next
  case (Suc n)
  have shift: "(uart_poll io ^^ i) (uart_poll io w) = (uart_poll io ^^ Suc i) w" for i by (simp only: funpow_Suc_right comp_def)
  have "uart_put_char io c (uart_poll io w) = Some (outb io COM1 c ((uart_poll io ^^ Suc n) (uart_poll io w)))"
    using Suc.prems by (intro Suc.IH) (auto simp only: shift)
  moreover have "\<not> uart_ready io w" using Suc.prems(2) [rule_format, of 0] by simp
  then have "uart_put_char io c w = uart_put_char io c (uart_poll io w)"
    by (subst uart_put_char.simps) (simp add: split_beta uart_ready_def uart_poll_def)
  ultimately show ?case by (simp only: shift)
qed

section \<open>Physical pages\<close>

record phys_page =
  pp_cap :: usize
  pp_content :: bytes

definition pp_read_usize :: "phys_page \<Rightarrow> usize \<Rightarrow> usize option" where
  "pp_read_usize p offset = map_option from_le (sub_slice (pp_content p) (unat offset) (unat (offset + 8)))"

definition pp_write_usize :: "usize \<Rightarrow> usize \<Rightarrow> phys_page \<Rightarrow> phys_page option" where
  "pp_write_usize offset val p =
     (case sub_slice (pp_content p) (unat offset) (unat (offset + 8)) of
        None \<Rightarrow> None
      | Some _ \<Rightarrow> Some (p\<lparr> pp_content := copy_slice (pp_content p) (unat offset) (to_le 8 val) \<rparr>))"

section \<open>Event numbers\<close>

datatype block_event = Blk_init | Blk_read_block | Blk_write_block | Blk_capacity
datatype fs_event = Fs_init | Fs_read_at | Fs_write_at | Fs_open | Fs_mkdir | Fs_unlink | Fs_close | Fs_stat | Fs_getdents64
datatype uart_event = Uart_init | Uart_putchar | Uart_getchar | Uart_puts

definition block_events :: "block_event list" where "block_events = [Blk_init, Blk_read_block, Blk_write_block, Blk_capacity]"
definition fs_events :: "fs_event list" where
  "fs_events = [Fs_init, Fs_read_at, Fs_write_at, Fs_open, Fs_mkdir, Fs_unlink, Fs_close, Fs_stat, Fs_getdents64]"
definition uart_events :: "uart_event list" where "uart_events = [Uart_init, Uart_putchar, Uart_getchar, Uart_puts]"

text \<open>\<^verbatim>\<open>TryFrom<usize>\<close>: the events are numbered in the order of their declaration.\<close>

definition event_of :: "'e list \<Rightarrow> usize \<Rightarrow> 'e option" where
  "event_of events v = index events (unat v)"

section \<open>Properties\<close>

lemma pp_read_write:
  assumes "pp_write_usize offset val p = Some p'"
  shows "pp_read_usize p' offset = Some val"
proof -
  let ?a = "unat offset" and ?xs = "pp_content p"
  from assms have b: "?a \<le> unat (offset + 8)" "unat (offset + 8) \<le> length ?xs"
    and p': "p' = p\<lparr> pp_content := copy_slice ?xs ?a (to_le 8 val) \<rparr>"
    by (auto simp: pp_write_usize_def sub_slice_def split: if_splits)
  have e: "unat (offset + 8) = ?a + 8"
  proof (cases "?a + 8 < 2 ^ 64")
    case True
    then show ?thesis by (simp add: unat_plus_no_wrap)
  next
    case False
    then have "unat (offset + 8) < ?a" using unat_less_64 [of offset] by (simp add: unat_word_ariths mod_if)
    then show ?thesis using b by simp
  qed
  have "take 8 (drop ?a (copy_slice ?xs ?a (to_le 8 val))) = to_le 8 val" using b e by (simp add: copy_slice_def)
  then show ?thesis using b e by (simp add: pp_read_usize_def p' sub_slice_def copy_slice_def from_le_to_le)
qed

text \<open>
  C40. A pipe is a bounded stream: over any sequence of writes and reads, the bytes read followed by the bytes still inside
  are exactly the bytes the writes accepted, in order, and the pipe never holds more than its size.
\<close>

theorem pipe_stream:
  assumes "run_fifo pipe_write pipe_pull ops (create_pipe n) = (ins, outs, p)"
  shows "outs @ pipe_buf p = ins \<and> pipe_available p \<le> unat n"
  using pipe.stream [OF _ assms] by (simp add: create_pipe_def pipe_available_def)

theorem pipe_stream_witness:
  "run_fifo pipe_write pipe_pull [Put [1, 2, 3], Get 2, Put [4, 5], Get 9] (create_pipe 3) = ([1, 2, 3, 4, 5], [1, 2, 3, 4, 5], \<lparr> pipe_buf = [], max_size = 3 \<rparr>) \<and>
   pipe_available \<lparr> pipe_buf = [], max_size = 3 \<rparr> \<le> unat (3 :: usize)"
proof -
  have r: "run_fifo pipe_write pipe_pull [Put [1, 2, 3], Get 2, Put [4, 5], Get 9] (create_pipe 3) =
      ([1, 2, 3, 4, 5], [1, 2, 3, 4, 5], \<lparr> pipe_buf = [], max_size = 3 \<rparr>)"
    by (simp add: create_pipe_def pipe_write_def pipe_pull_def pipe_read_exact Let_def)
  from pipe_stream [OF r] r show ?thesis by simp
qed

end
