(* ===== verification/Sel4_Tests.thy ===== *)
theory Sel4_Tests
  imports Sel4_Syscalls
begin

text \<open>
  The run-time tests of the kernel interface (\<^verbatim>\<open>crates/sel4-sys/src/tests.rs\<close>), which the root task runs when it
  starts. Every test is a definition over the model of the code it tests, so that the theorem that all of them pass
  compares the model with what the authors expect of the code. The tests of a type only compute; the last four
  enter the kernel or use the IPC buffer.
\<close>

section \<open>Packed words\<close>

definition test_mi_zero :: bool where
  "test_mi_zero \<longleftrightarrow>
     (let mi = mi_new 0 0 0 in mi_word mi = 0 \<and> mi_label mi = 0 \<and> mi_length mi = 0 \<and> mi_extra_caps mi = 0)"

definition test_mi_roundtrip :: bool where
  "test_mi_roundtrip \<longleftrightarrow> (let mi = mi_new 42 7 3 in mi_label mi = 42 \<and> mi_length mi = 7 \<and> mi_extra_caps mi = 3)"

definition test_mi_max :: bool where
  "test_mi_max \<longleftrightarrow>
     (let mi = mi_new 0xFFFFF 120 3 in mi_label mi = 0xFFFFF \<and> mi_length mi = 120 \<and> mi_extra_caps mi = 3)"

definition test_mi_from_word_zero :: bool where
  "test_mi_from_word_zero \<longleftrightarrow> (let mi = mi_from_word 0 in mi_word mi = 0 \<and> mi_label mi = 0)"

definition test_mi_from_word_manual :: bool where
  "test_mi_from_word_manual \<longleftrightarrow>
     (let w = push_bit 12 10 OR push_bit 7 2 OR 5; mi = mi_from_word w
      in mi_label mi = 10 \<and> mi_length mi = 5 \<and> mi_extra_caps mi = 2 \<and> mi_word mi = w)"

definition test_mi_builder :: bool where
  "test_mi_builder \<longleftrightarrow>
     (let a = mi_new 100 5 2;
          b = mib_build (mib_with_extra_caps 2 (mib_with_length 5 (mib_with_label 100 mib_new)))
      in a = b \<and> mi_word a = mi_word b)"

definition test_mi_builder_empty :: bool where
  "test_mi_builder_empty \<longleftrightarrow> mi_word (mib_build mib_new) = 0"

text \<open>The sizes of the \<^verbatim>\<open>repr(transparent)\<close> word and of the buffer structure with its padding.\<close>

definition USIZE_SIZE :: nat where "USIZE_SIZE = 8"
definition MESSAGE_INFO_SIZE :: nat where "MESSAGE_INFO_SIZE = USIZE_SIZE"

definition IPC_BUFFER_HEADER :: nat where
  "IPC_BUFFER_HEADER = 8 + IPC_BUFFER_MSG_REGS * 8 + 8 + 3 * 8 + 3 * 8"

definition IPC_BUFFER_PADDING :: nat where
  "IPC_BUFFER_PADDING = IPC_BUFFER_SIZE - IPC_BUFFER_HEADER"

definition test_mi_size :: bool where
  "test_mi_size \<longleftrightarrow> MESSAGE_INFO_SIZE = USIZE_SIZE"

definition test_cn_roundtrip :: bool where
  "test_cn_roundtrip \<longleftrightarrow> (let cd = cd_new 8 0x123 12 in cd_guard_size cd = 8 \<and> cd_radix cd = 12 \<and> cd_guard cd = 0x123)"

definition test_cn_zero :: bool where
  "test_cn_zero \<longleftrightarrow>
     (let cd = cd_new 0 0 0 in cd_word cd = 0 \<and> cd_guard_size cd = 0 \<and> cd_radix cd = 0 \<and> cd_guard cd = 0)"

definition test_cn_max :: bool where
  "test_cn_max \<longleftrightarrow> (let cd = cd_new 63 0 63 in cd_guard_size cd = 63 \<and> cd_radix cd = 63)"

definition test_cn_large_guard :: bool where
  "test_cn_large_guard \<longleftrightarrow>
     (let cd = cd_new 0 0xFFFFF 0 in cd_guard cd = 0xFFFFF \<and> cd_guard_size cd = 0 \<and> cd_radix cd = 0)"

definition test_cn_from_word :: bool where
  "test_cn_from_word \<longleftrightarrow> (let cd = cd_new 10 0xABC 20 in cd_from_word (cd_word cd) = cd)"

definition test_cr_constants :: bool where
  "test_cr_constants \<longleftrightarrow>
     cr_bits CapRights_ALL = 0b1111 \<and> cr_bits CapRights_READ_ONLY = 0b0010 \<and> cr_bits CapRights_READ_WRITE = 0b0011"

definition test_cr_default :: bool where
  "test_cr_default \<longleftrightarrow> cr_bits CapRights_default = 0"

definition test_cr_from_bits :: bool where
  "test_cr_from_bits \<longleftrightarrow> cr_bits (cr_from_bits 0b1010) = 0b1010"

definition test_cr_custom :: bool where
  "test_cr_custom \<longleftrightarrow>
     (let cr = cr_from_bits 0b0101 in cr_bits cr = 0b0101 \<and> cr \<noteq> CapRights_ALL \<and> cr \<noteq> CapRights_READ_WRITE)"

definition test_vm_default :: bool where
  "test_vm_default \<longleftrightarrow> va_bits VmAttributes_DEFAULT = 0"

definition test_vm_pat :: bool where
  "test_vm_pat \<longleftrightarrow> va_bits (with_pat VmAttributes_DEFAULT 5) = 5"

definition test_vm_wt :: bool where
  "test_vm_wt \<longleftrightarrow> va_bits (with_write_through VmAttributes_DEFAULT) = push_bit 3 1"

definition test_vm_cd :: bool where
  "test_vm_cd \<longleftrightarrow> va_bits (with_cache_disabled VmAttributes_DEFAULT) = push_bit 4 1"

definition test_vm_combined :: bool where
  "test_vm_combined \<longleftrightarrow>
     va_bits (with_cache_disabled (with_write_through VmAttributes_DEFAULT)) = push_bit 3 1 OR push_bit 4 1"

section \<open>Enumerations and registers\<close>

definition test_ot_all :: bool where
  "test_ot_all \<longleftrightarrow>
     size_bits Frame4K = 12 \<and> size_bits LargePage = 21 \<and> size_bits PageTable = 12 \<and> size_bits PageDirectory = 12 \<and>
     size_bits PDPT = 12 \<and> size_bits PML4 = 12 \<and> size_bits HugePage = 30 \<and> size_bits IOPageTable = 12 \<and>
     size_bits TCB = 11 \<and> size_bits Endpoint = 4 \<and> size_bits Notification = 5"

definition test_ot_variable :: bool where
  "test_ot_variable \<longleftrightarrow> size_bits CNode = 0 \<and> size_bits Untyped = 0"

definition test_uc_default :: bool where
  "test_uc_default \<longleftrightarrow>
     (let ctx = UserContext_default
      in uc_ip ctx = 0 \<and> uc_sp ctx = 0 \<and> rflags ctx = 0x202 \<and>
         rax ctx = 0 \<and> rbx ctx = 0 \<and> rcx ctx = 0 \<and> rdx ctx = 0 \<and> rsi ctx = 0 \<and> rdi ctx = 0 \<and> rbp ctx = 0 \<and>
         r8 ctx = 0 \<and> r9 ctx = 0 \<and> r10 ctx = 0 \<and> r11 ctx = 0 \<and> r12 ctx = 0 \<and> r13 ctx = 0 \<and> r14 ctx = 0 \<and> r15 ctx = 0 \<and>
         fs_base ctx = 0 \<and> gs_base ctx = 0)"

definition test_uc_ip_sp :: bool where
  "test_uc_ip_sp \<longleftrightarrow>
     (let ctx = uc_set_sp 0xBEEF (uc_set_ip 0xDEAD UserContext_default)
      in uc_ip ctx = 0xDEAD \<and> uc_sp ctx = 0xBEEF \<and> rip ctx = 0xDEAD \<and> rsp ctx = 0xBEEF)"

definition test_uc_gpr :: bool where
  "test_uc_gpr \<longleftrightarrow>
     (let ctx = set_gpr (set_gpr (set_gpr (set_gpr (set_gpr (set_gpr UserContext_default 0 100) 1 200) 2 300) 3 400) 4 500) 5 600
      in gpr ctx 0 = 100 \<and> gpr ctx 1 = 200 \<and> gpr ctx 2 = 300 \<and> gpr ctx 3 = 400 \<and> gpr ctx 4 = 500 \<and> gpr ctx 5 = 600 \<and>
         rdi ctx = 100 \<and> rsi ctx = 200 \<and> rdx ctx = 300 \<and> r10 ctx = 400 \<and> r8 ctx = 500 \<and> r9 ctx = 600 \<and> gpr ctx 99 = 0)"

definition test_uc_bytes :: bool where
  "test_uc_bytes \<longleftrightarrow> length (as_bytes UserContext_default) = 160"

definition test_uc_ipc_roundtrip :: bool where
  "test_uc_ipc_roundtrip \<longleftrightarrow>
     (let ctx = (uc_set_sp 0x5678 (uc_set_ip 0x1234 UserContext_default))\<lparr> rax := 0xAAAA, rbx := 0xBBBB \<rparr>;
          ctx2 = read_user_context (write_user_context ipc_buffer_new ctx)
      in uc_ip ctx2 = 0x1234 \<and> uc_sp ctx2 = 0x5678 \<and> rax ctx2 = 0xAAAA \<and> rbx ctx2 = 0xBBBB)"

definition test_ft_all :: bool where
  "test_ft_all \<longleftrightarrow>
     from_tag 0 = NullFault \<and> from_tag 1 = CapFault \<and> from_tag 2 = UnknownSyscall \<and> from_tag 3 = UserException \<and>
     from_tag 4 = VmFault \<and> from_tag 5 = Timeout"

definition test_ft_unknown :: bool where
  "test_ft_unknown \<longleftrightarrow> from_tag 99 = NullFault \<and> from_tag (- 1) = NullFault"

definition test_err_all :: bool where
  "test_err_all \<longleftrightarrow>
     error_from_word 0 = Success \<and> error_from_word 1 = InvalidArgument \<and> error_from_word 2 = InvalidCapability \<and>
     error_from_word 3 = IllegalOperation \<and> error_from_word 4 = RangeError \<and> error_from_word 5 = AlignmentError \<and>
     error_from_word 6 = FailedLookup \<and> error_from_word 7 = TruncatedMessage \<and> error_from_word 8 = DeleteFirst \<and>
     error_from_word 9 = RevokeFirst \<and> error_from_word 10 = NotEnoughMemory"

definition test_err_unknown :: bool where
  "test_err_unknown \<longleftrightarrow>
     error_from_word 255 = InvalidArgument \<and> error_from_word 100 = InvalidArgument \<and> error_from_word (- 1) = InvalidArgument"

definition test_err_ok_err :: bool where
  "test_err_ok_err \<longleftrightarrow>
     error_is_ok Success \<and> \<not> error_is_err Success \<and> error_is_err InvalidArgument \<and> \<not> error_is_ok InvalidArgument \<and>
     error_is_err NotEnoughMemory"

definition test_err_display :: bool where
  "test_err_display \<longleftrightarrow> (let s = error_display Success in s \<noteq> [] \<and> s = ''success'')"

definition test_err_check :: bool where
  "test_err_check \<longleftrightarrow> check 0 = Inr () \<and> check 5 = Inl AlignmentError"

section \<open>The IPC buffer and the constants\<close>

definition test_ipc_tag :: bool where
  "test_ipc_tag \<longleftrightarrow> ib_tag ipc_buffer_new = 0"

definition test_ipc_mr :: bool where
  "test_ipc_mr \<longleftrightarrow>
     (let buf = write_mr (write_mr ipc_buffer_new 0 0xDEADBEEF) 119 0xCAFE
      in read_mr buf 0 = 0xDEADBEEF \<and> read_mr buf 119 = 0xCAFE)"

definition test_ipc_mr_bounds :: bool where
  "test_ipc_mr_bounds \<longleftrightarrow>
     (let buf = write_mr (write_mr ipc_buffer_new 120 0xFFFF) 1000 0xFFFF
      in read_mr buf 120 = 0 \<and> read_mr buf 1000 = 0 \<and> read_mr buf (- 1) = 0)"

definition test_ipc_recv_slot :: bool where
  "test_ipc_recv_slot \<longleftrightarrow>
     (let buf = set_receive_slot ipc_buffer_new 42 100 64
      in receive_cnode buf = 42 \<and> receive_index buf = 100 \<and> receive_depth buf = 64)"

definition test_ipc_user_ctx :: bool where
  "test_ipc_user_ctx \<longleftrightarrow>
     (let ctx = (uc_set_sp 0xBBBB (uc_set_ip 0xAAAA UserContext_default))\<lparr> rflags := 0x202 \<rparr>;
          ctx2 = read_user_context (write_user_context ipc_buffer_new ctx)
      in uc_ip ctx2 = 0xAAAA \<and> uc_sp ctx2 = 0xBBBB \<and> rflags ctx2 = 0x202)"

definition test_ipc_words :: bool where
  "test_ipc_words \<longleftrightarrow>
     (let slice = read_words (write_words ipc_buffer_new [10, 20, 30, 40, 50]) 5
      in index slice 0 = Some 10 \<and> index slice 1 = Some 20 \<and> index slice 2 = Some 30 \<and> index slice 3 = Some 40 \<and>
         index slice 4 = Some 50)"

definition test_ipc_size :: bool where
  "test_ipc_size \<longleftrightarrow> IPC_BUFFER_HEADER + IPC_BUFFER_PADDING = IPC_BUFFER_SIZE"

definition syscall_numbers :: "isize list" where
  "syscall_numbers =
     [SYS_CALL, SYS_REPLY_RECV, SYS_SEND, SYS_NBSEND, SYS_RECV, SYS_REPLY, SYS_YIELD, SYS_NBRECV, SYS_DEBUG_PUT_CHAR,
      SYS_DEBUG_DUMP_SCHEDULER, SYS_DEBUG_HALT, SYS_SIGNAL, SYS_SET_TLS_BASE]"

definition test_const_syscall_vals :: bool where
  "test_const_syscall_vals \<longleftrightarrow>
     SYS_CALL = - 1 \<and> SYS_REPLY_RECV = - 2 \<and> SYS_SEND = - 3 \<and> SYS_NBSEND = - 4 \<and> SYS_RECV = - 5 \<and> SYS_REPLY = - 6 \<and>
     SYS_YIELD = - 7 \<and> SYS_NBRECV = - 8 \<and> SYS_DEBUG_PUT_CHAR = - 9 \<and> SYS_DEBUG_DUMP_SCHEDULER = - 10 \<and>
     SYS_DEBUG_HALT = - 11 \<and> SYS_SIGNAL = - 12 \<and> SYS_SET_TLS_BASE = - 29"

text \<open>\<^verbatim>\<open>for i in 0..vals.len() { for j in (i + 1)..vals.len() { if vals[i] == vals[j] { return false } } }\<close>\<close>

definition test_const_syscall_distinct :: bool where
  "test_const_syscall_distinct \<longleftrightarrow>
     list_all (\<lambda>i. list_all (\<lambda>j. syscall_numbers ! i \<noteq> syscall_numbers ! j) [i + 1..<length syscall_numbers])
       [0..<length syscall_numbers]"

definition test_const_init_slots :: bool where
  "test_const_init_slots \<longleftrightarrow>
     init_TCB = 1 \<and> init_CNODE = 2 \<and> init_VSPACE = 3 \<and> init_IRQ_CONTROL = 4 \<and> init_ASID_CONTROL = 5 \<and>
     init_ASID_POOL = 6 \<and> init_IO_PORT_CONTROL = 7 \<and> NUM_INITIAL_CAPS = 16 \<and> FIRST_FREE > NUM_INITIAL_CAPS"

definition test_const_ipc :: bool where
  "test_const_ipc \<longleftrightarrow> IPC_BUFFER_MSG_REGS = 120 \<and> IPC_BUFFER_SIZE = 4096 \<and> IPC_BUFFER_ALIGN = 4096"

section \<open>Tests that enter the kernel\<close>

type_synonym 'k test_fn = "'k machine \<Rightarrow> (bool \<times> 'k machine) option"

definition test_rt_putstring :: "'k kernel \<Rightarrow> 'k test_fn" where
  "test_rt_putstring kern m = Some (True, seL4_DebugPutString kern (str ''seL4-sys-test'') m)"

definition test_rt_dumpsched :: "'k kernel \<Rightarrow> 'k test_fn" where
  "test_rt_dumpsched kern m = Some (True, seL4_DebugDumpScheduler kern m)"

definition test_rt_yield :: "'k kernel \<Rightarrow> 'k test_fn" where
  "test_rt_yield kern m = Some (True, seL4_Yield kern m)"

definition test_tls_ipc :: "'k test_fn" where
  "test_tls_ipc = with_ipc_buffer (\<lambda>buf. let buf' = write_mr buf 0 0x12345678 in (read_mr buf' 0 = 0x12345678, buf'))"

section \<open>The runner\<close>

text \<open>\<^verbatim>\<open>TestCase\<close>: a name and a function; a test of a type leaves the machine alone.\<close>

definition computes :: "bool \<Rightarrow> 'k test_fn" where
  "computes b m = Some (b, m)"

definition type_tests :: "(string \<times> bool) list" where
  "type_tests = [
     (''MessageInfo: zero'', test_mi_zero),
     (''MessageInfo: round-trip'', test_mi_roundtrip),
     (''MessageInfo: max values'', test_mi_max),
     (''MessageInfo: from_word(0)'', test_mi_from_word_zero),
     (''MessageInfo: from_word manual'', test_mi_from_word_manual),
     (''MessageInfo: Builder == new'', test_mi_builder),
     (''MessageInfo: Builder empty'', test_mi_builder_empty),
     (''MessageInfo: size'', test_mi_size),
     (''CNodeCapData: round-trip'', test_cn_roundtrip),
     (''CNodeCapData: zero'', test_cn_zero),
     (''CNodeCapData: max fields'', test_cn_max),
     (''CNodeCapData: large guard'', test_cn_large_guard),
     (''CNodeCapData: from_word'', test_cn_from_word),
     (''CapRights: constants'', test_cr_constants),
     (''CapRights: default'', test_cr_default),
     (''CapRights: from_bits'', test_cr_from_bits),
     (''CapRights: custom combo'', test_cr_custom),
     (''VmAttributes: default'', test_vm_default),
     (''VmAttributes: with_pat'', test_vm_pat),
     (''VmAttributes: write_through'', test_vm_wt),
     (''VmAttributes: cache_disabled'', test_vm_cd),
     (''VmAttributes: combined'', test_vm_combined),
     (''ObjectType: all size_bits'', test_ot_all),
     (''ObjectType: variable size'', test_ot_variable),
     (''UserContext: default'', test_uc_default),
     (''UserContext: set_ip/sp'', test_uc_ip_sp),
     (''UserContext: gpr mapping'', test_uc_gpr),
     (''UserContext: as_bytes len'', test_uc_bytes),
     (''UserContext: IPC round-trip'', test_uc_ipc_roundtrip),
     (''FaultType: all variants'', test_ft_all),
     (''FaultType: unknown fallback'', test_ft_unknown),
     (''Error: all known codes'', test_err_all),
     (''Error: unknown fallback'', test_err_unknown),
     (''Error: is_ok/is_err'', test_err_ok_err),
     (''Error: Display'', test_err_display),
     (''Error: check()'', test_err_check),
     (''IpcBuffer: new tag=0'', test_ipc_tag),
     (''IpcBuffer: mr read/write'', test_ipc_mr),
     (''IpcBuffer: mr bounds'', test_ipc_mr_bounds),
     (''IpcBuffer: receive slot'', test_ipc_recv_slot),
     (''IpcBuffer: UserContext rw'', test_ipc_user_ctx),
     (''IpcBuffer: write/read_words'', test_ipc_words),
     (''IpcBuffer: size'', test_ipc_size),
     (''Consts: syscall values'', test_const_syscall_vals),
     (''Consts: syscall distinct'', test_const_syscall_distinct),
     (''Consts: init_slots'', test_const_init_slots),
     (''Consts: IPC buffer consts'', test_const_ipc)]"

definition sel4_sys_tests :: "'k kernel \<Rightarrow> (string \<times> 'k test_fn) list" where
  "sel4_sys_tests kern = map (\<lambda>(name, b). (name, computes b)) type_tests @ [
     (''Syscall: DebugPutString'', test_rt_putstring kern),
     (''Syscall: DebugDumpScheduler'', test_rt_dumpsched kern),
     (''Syscall: Yield'', test_rt_yield kern),
     (''TLS: with_ipc_buffer'', test_tls_ipc)]"

primrec run_tests :: "'k kernel \<Rightarrow> (string \<times> 'k test_fn) list \<Rightarrow> nat \<times> nat \<Rightarrow> 'k machine \<Rightarrow> ((nat \<times> nat) \<times> 'k machine) option" where
  "run_tests kern [] counts m = Some (counts, m)"
| "run_tests kern (t # ts) counts m =
     (let (name, func) = t; (passed, failed) = counts;
          m1 = seL4_DebugPutString kern (str '' ... '')
                 (seL4_DebugPutString kern (str name) (seL4_DebugPutString kern (str ''  TEST: '') m))
      in do {
        (ok, m2) \<leftarrow> func m1;
        if ok then run_tests kern ts (passed + 1, failed) (seL4_DebugPutString kern (str ''PASSED\<newline>'') m2)
        else run_tests kern ts (passed, failed + 1) (seL4_DebugPutString kern (str ''FAILED\<newline>'') m2)
      })"

definition run_sel4_sys_tests :: "'k kernel \<Rightarrow> 'k machine \<Rightarrow> ((nat \<times> nat) \<times> 'k machine) option" where
  "run_sel4_sys_tests kern m = run_tests kern (sel4_sys_tests kern) (0, 0) m"

section \<open>All tests pass\<close>

definition passes :: "('k \<Rightarrow> bool) \<Rightarrow> 'k test_fn \<Rightarrow> bool" where
  "passes P f \<longleftrightarrow> (\<forall>m. machine_typed P m \<longrightarrow> (\<exists>m'. f m = Some (True, m') \<and> machine_typed P m'))"

lemma run_tests_pass:
  assumes "kernel_typed P kern" and "\<forall>(name, f) \<in> set ts. passes P f" and "machine_typed P m"
  shows "\<exists>m'. run_tests kern ts (p, q) m = Some ((p + length ts, q), m') \<and> machine_typed P m'"
  using assms(2,3)
proof (induction ts arbitrary: m p)
  case (Cons t ts)
  obtain name f where t: "t = (name, f)" by (cases t)
  let ?m1 = "seL4_DebugPutString kern (str '' ... '')
    (seL4_DebugPutString kern (str name) (seL4_DebugPutString kern (str ''  TEST: '') m))"
  have "machine_typed P ?m1" using assms(1) Cons.prems by (intro typed_intros)
  then obtain m2 where m2: "f ?m1 = Some (True, m2)" "machine_typed P m2" using Cons.prems t by (auto simp: passes_def)
  then have "machine_typed P (seL4_DebugPutString kern (str ''PASSED\<newline>'') m2)" using assms(1) by (intro typed_intros)
  from Cons.IH [OF _ this, of "p + 1"] Cons.prems m2(1) show ?case by (simp add: t)
qed simp

lemma kernel_tests_pass:
  assumes "kernel_typed P kern"
  shows "passes P (test_rt_putstring kern)" "passes P (test_rt_dumpsched kern)" "passes P (test_rt_yield kern)"
    "passes P test_tls_ipc"
proof -
  show "passes P test_tls_ipc"
    by (auto simp: passes_def test_tls_ipc_def with_ipc_buffer_def machine_typed_def Let_def)
       (simp add: ipc_buffer_ok_def write_mr_def read_mr_def)
qed (use assms in \<open>auto simp: passes_def test_rt_putstring_def test_rt_dumpsched_def test_rt_yield_def
  seL4_DebugDumpScheduler_def seL4_Yield_def intro: typed_intros\<close>)

lemma packed_word_tests:
  "test_mi_zero" "test_mi_roundtrip" "test_mi_max" "test_mi_from_word_zero" "test_mi_from_word_manual" "test_mi_builder"
  "test_mi_builder_empty" "test_mi_size" "test_cn_roundtrip" "test_cn_zero" "test_cn_max" "test_cn_large_guard"
  "test_cn_from_word" "test_cr_constants" "test_cr_default" "test_cr_from_bits" "test_cr_custom" "test_vm_default"
  "test_vm_pat" "test_vm_wt" "test_vm_cd" "test_vm_combined"
  by (code_simp, code_simp, code_simp, code_simp, code_simp, code_simp, code_simp, code_simp, code_simp, code_simp, code_simp,
    code_simp, code_simp, code_simp, code_simp, code_simp, code_simp, code_simp, code_simp, code_simp, code_simp, code_simp)

lemma enumeration_tests:
  "test_ot_all" "test_ot_variable" "test_ft_all" "test_ft_unknown" "test_err_all" "test_err_unknown" "test_err_ok_err"
  "test_err_display" "test_err_check"
  by (simp_all add: test_ot_all_def test_ot_variable_def test_ft_all_def test_ft_unknown_def from_tag_def test_err_all_def
    test_err_unknown_def error_from_word_def test_err_ok_err_def error_is_ok_def error_is_err_def test_err_display_def
    test_err_check_def check_def)

lemma register_tests: "test_uc_default" "test_uc_ip_sp" "test_uc_gpr" "test_uc_bytes" "test_uc_ipc_roundtrip"
  by (simp_all add: test_uc_default_def test_uc_ip_sp_def test_uc_gpr_def test_uc_bytes_def test_uc_ipc_roundtrip_def
    UserContext_default_def uc_ip_def uc_sp_def uc_set_ip_def uc_set_sp_def gpr_def set_gpr_def length_as_bytes
    user_context_ipc_roundtrip Let_def)

lemma buffer_tests:
  "test_ipc_tag" "test_ipc_mr" "test_ipc_mr_bounds" "test_ipc_recv_slot" "test_ipc_user_ctx" "test_ipc_words" "test_ipc_size"
proof -
  show "test_ipc_words" by code_simp
  show "test_ipc_user_ctx"
    by (simp add: test_ipc_user_ctx_def uc_ip_def uc_sp_def uc_set_ip_def uc_set_sp_def user_context_ipc_roundtrip)
qed (simp_all add: test_ipc_tag_def test_ipc_mr_def test_ipc_mr_bounds_def test_ipc_recv_slot_def
    test_ipc_size_def IPC_BUFFER_HEADER_def IPC_BUFFER_PADDING_def IPC_BUFFER_SIZE_def read_mr_def write_mr_def
    set_receive_slot_def ipc_buffer_new_def Let_def)

lemma constant_tests: "test_const_syscall_vals" "test_const_syscall_distinct" "test_const_init_slots" "test_const_ipc"
  by (code_simp, code_simp, code_simp, code_simp)

lemma type_tests_true: "list_all snd type_tests"
  by (simp add: type_tests_def packed_word_tests enumeration_tests register_tests buffer_tests constant_tests)

lemma sel4_sys_tests_pass: "kernel_typed P kern \<Longrightarrow> \<forall>(name, f) \<in> set (sel4_sys_tests kern). passes P f"
proof -
  assume "kernel_typed P kern"
  moreover have "passes P (computes b)" if "(name, b) \<in> set type_tests" for name b
    using that type_tests_true by (auto simp: list_all_iff passes_def computes_def)
  ultimately show ?thesis by (auto simp: sel4_sys_tests_def kernel_tests_pass)
qed

lemma length_sel4_sys_tests: "length (sel4_sys_tests kern) = 51"
  by (simp add: sel4_sys_tests_def type_tests_def)

text \<open>
  Over a kernel that keeps the IPC buffer well typed and a property of the world, the self-test of the kernel interface
  runs to its end, reports 51 tests passed and none failed, and leaves the machine well typed with the property.
\<close>

lemma self_tests_pass:
  assumes "kernel_typed P kern" and "machine_typed P m"
  shows "\<exists>m'. run_sel4_sys_tests kern m = Some ((51, 0), m') \<and> machine_typed P m'"
  using run_tests_pass [OF assms(1) sel4_sys_tests_pass [OF assms(1)] assms(2), of 0 0]
  by (simp add: run_sel4_sys_tests_def length_sel4_sys_tests)

end
