(* ===== verification/Processor.thy ===== *)
theory Processor
  imports Runtime
begin

text \<open>
  What the root task asks the processor and the boot information about time (\<^verbatim>\<open>root-task/src/benchmark.rs\<close>,
  \<^verbatim>\<open>root-task/src/main.rs\<close>): the time stamp counter, the CPUID frequency leaves, and the walk over the extra boot
  information to the record of the time stamp frequency. The two instructions are the parameter \<open>cpu_insns\<close>.

  The walk trusts the record lengths the kernel wrote. It is a partial function: with lengths that wrap it goes round
  for ever. The specification is over a list of records, of which the region is the encoding.
\<close>

section \<open>Instructions\<close>

text \<open>\<^verbatim>\<open>rdtsc\<close> returns the low and high halves of a counter that is part of the world; \<^verbatim>\<open>cpuid\<close> depends on the leaf.\<close>

record 'k cpu_insns =
  insn_rdtsc :: "'k \<Rightarrow> (u32 \<times> u32) \<times> 'k"
  insn_cpuid :: "u32 \<Rightarrow> u32 \<times> u32 \<times> u32 \<times> u32"

definition rdtsc :: "'k cpu_insns \<Rightarrow> 'k machine \<Rightarrow> u64 \<times> 'k machine" where
  "rdtsc hw m =
     (let ((lo, hi), k) = insn_rdtsc hw (world m)
      in (push_bit 32 (ucast hi) OR ucast lo, m\<lparr> world := k \<rparr>))"

definition cpuid_tsc_freq :: "'k cpu_insns \<Rightarrow> u64 option" where
  "cpuid_tsc_freq hw =
     (let (eax, ebx, ecx, edx) = insn_cpuid hw 0x15
      in if eax \<noteq> 0 \<and> ebx \<noteq> 0
         then (if ecx \<noteq> 0 then let crystal_hz = ucast ecx in Some (crystal_hz * ucast ebx div ucast eax) else None)
         else None)"

definition cpuid_base_freq_mhz :: "'k cpu_insns \<Rightarrow> u32 option" where
  "cpuid_base_freq_mhz hw =
     (let (eax, ebx, ecx, edx) = insn_cpuid hw 0x16; base_mhz = eax AND 0xFFFF
      in if base_mhz > 0 then Some base_mhz else None)"

section \<open>The extra boot information\<close>

text \<open>\<open>byte_at\<close> is the memory of the root task, \<open>p\<close> the page after the boot information.\<close>

definition header_id :: "(usize \<Rightarrow> u8) \<Rightarrow> usize \<Rightarrow> usize \<Rightarrow> usize" where
  "header_id byte_at p offset = from_le (mem_slice byte_at (p + offset) 8)"

definition header_len :: "(usize \<Rightarrow> u8) \<Rightarrow> usize \<Rightarrow> usize \<Rightarrow> usize" where
  "header_len byte_at p offset = from_le (mem_slice byte_at (p + (offset + 8)) 8)"

partial_function (option) tsc_walk :: "(usize \<Rightarrow> u8) \<Rightarrow> usize \<Rightarrow> usize \<Rightarrow> usize \<Rightarrow> u32 option option" where
  "tsc_walk byte_at p extra_len offset =
     (if offset + 16 \<le> extra_len then
        let ident = header_id byte_at p offset; len = header_len byte_at p offset
        in if len = 0 then Some None
           else if ident = 5 \<and> len \<ge> 16 then Some (Some (from_le (mem_slice byte_at (p + (offset + 16)) 4)))
           else tsc_walk byte_at p extra_len (offset + len)
      else Some None)"

definition get_tsc_freq_mhz :: "'k ram \<Rightarrow> usize \<Rightarrow> boot_info \<Rightarrow> 'k machine \<Rightarrow> u32 option option" where
  "get_tsc_freq_mhz ram bi_frame_vptr bi m =
     (let extra_len = bi_extra_len bi
      in if extra_len = 0 then Some None
         else tsc_walk (load_byte ram m) (bi_frame_vptr + 4096) extra_len 0)"

section \<open>Records\<close>

text \<open>A record is an identifier and a payload; the region holds their encodings one after the other.\<close>

type_synonym extra_record = "usize \<times> bytes"

definition record_bytes :: "extra_record \<Rightarrow> bytes" where
  "record_bytes r = to_le 8 (fst r) @ to_le 8 (of_nat (16 + length (snd r)) :: usize) @ snd r"

definition region_bytes :: "extra_record list \<Rightarrow> bytes" where
  "region_bytes rs = concat (map record_bytes rs)"

text \<open>The frequency a region announces: the first word of the first record with identifier 5.\<close>

definition announced_freq :: "extra_record list \<Rightarrow> u32 option" where
  "announced_freq rs = map_option (\<lambda>r. from_le (take 4 (snd r))) (List.find (\<lambda>r. fst r = 5) rs)"

text \<open>Only a record of the frequency has to hold a word.\<close>

definition record_ok :: "extra_record \<Rightarrow> bool" where
  "record_ok r \<longleftrightarrow> (fst r = 5 \<longrightarrow> 4 \<le> length (snd r))"

lemma length_record_bytes [simp]: "length (record_bytes r) = 16 + length (snd r)"
  by (simp add: record_bytes_def)

lemma region_bytes_simps [simp]: "region_bytes [] = []" "region_bytes (r # rs) = record_bytes r @ region_bytes rs"
  by (simp_all add: region_bytes_def)

lemma mem_slice_append: "mem_slice byte_at a (n + k) = mem_slice byte_at a n @ mem_slice byte_at (a + of_nat n) k"
proof -
  have "[0..<n + k] = [0..<n] @ map (\<lambda>i. i + n) [0..<k]" using upt_add_eq_append [of 0 n k] by (simp add: map_add_upt add.commute)
  then show ?thesis by (simp add: mem_slice_def algebra_simps)
qed

text \<open>The three fields of a record in memory.\<close>

lemma record_in_memory:
  assumes "mem_slice byte_at (p + offset) (length (record_bytes r) + k) = record_bytes r @ rest" and "16 + length (snd r) < 2 ^ 64"
  shows "header_id byte_at p offset = fst r" and "unat (header_len byte_at p offset) = 16 + length (snd r)"
    and "4 \<le> length (snd r) \<Longrightarrow> mem_slice byte_at (p + (offset + 16)) 4 = take 4 (snd r)"
proof -
  let ?a = "p + offset" and ?n = "length (snd r)"
  have "mem_slice byte_at ?a (8 + (8 + (?n + k))) = to_le 8 (fst r) @ to_le 8 (of_nat (16 + ?n) :: usize) @ snd r @ rest"
    using assms(1) by (simp add: record_bytes_def algebra_simps)
  then have parts: "mem_slice byte_at ?a 8 = to_le 8 (fst r)" "mem_slice byte_at (?a + 8) 8 = to_le 8 (of_nat (16 + ?n) :: usize)"
    and pl: "mem_slice byte_at (?a + 8 + 8) (?n + k) = snd r @ rest"
    unfolding mem_slice_append by (simp_all add: append_eq_append_conv)
  show "header_id byte_at p offset = fst r" using parts(1) by (simp add: header_id_def from_le_to_le)
  show "unat (header_len byte_at p offset) = 16 + ?n"
    using parts(2) assms(2) by (simp add: header_len_def from_le_to_le unat_of_nat_small add.assoc [symmetric] del: of_nat_add)
  show "mem_slice byte_at (p + (offset + 16)) 4 = take 4 (snd r)" if "4 \<le> ?n"
  proof -
    have "mem_slice byte_at (?a + 16) (4 + (?n - 4 + k)) = take 4 (snd r) @ drop 4 (snd r) @ rest"
      using pl that by (simp add: add.assoc)
    then show ?thesis using that unfolding mem_slice_append by (simp add: append_eq_append_conv add.assoc)
  qed
qed

lemma tsc_walk_records:
  assumes "mem_slice byte_at (p + of_nat k) (length (region_bytes rs)) = region_bytes rs" and "\<forall>r \<in> set rs. record_ok r"
    and "k + length (region_bytes rs) = unat n" and "unat n + 16 < 2 ^ 64"
  shows "tsc_walk byte_at p n (of_nat k) = Some (announced_freq rs)"
  using assms(1-3)
proof (induction rs arbitrary: k)
  case Nil
  have "unat (of_nat k + 16 :: usize) = k + 16"
    using Nil(3) assms(4) by (simp add: unat_plus_no_wrap unat_of_nat_small)
  then show ?case using Nil(3) by (simp add: tsc_walk.simps announced_freq_def word_le_nat_alt)
next
  case (Cons r rs)
  let ?len = "16 + length (snd r)" and ?off = "of_nat k :: usize"
  have fits: "k + ?len + length (region_bytes rs) = unat n" using Cons.prems(3) by simp
  have slice: "mem_slice byte_at (p + ?off) (length (record_bytes r) + length (region_bytes rs)) = record_bytes r @ region_bytes rs"
    using Cons.prems(1) by simp
  have len: "?len < 2 ^ 64" using fits assms(4) by linarith
  note fields = record_in_memory [OF slice len]
  have "unat (?off + 16) = k + 16" using fits assms(4) by (simp add: unat_plus_no_wrap unat_of_nat_small)
  then have inside: "?off + 16 \<le> n" using fits by (simp add: word_le_nat_alt)
  have hl: "header_len byte_at p ?off = of_nat ?len" using fields(2) len by (simp add: word_unat_eq_iff unat_of_nat_small del: of_nat_add)
  have "header_len byte_at p ?off \<noteq> 0" "16 \<le> header_len byte_at p ?off"
    using fields(2) by (auto simp: word_le_nat_alt)
  then have step: "tsc_walk byte_at p n ?off = (if fst r = 5 then Some (Some (from_le (mem_slice byte_at (p + (?off + 16)) 4)))
      else tsc_walk byte_at p n (of_nat (k + ?len)))"
    using inside fields(1) hl by (simp add: tsc_walk.simps [of byte_at p n ?off] Let_def del: of_nat_Suc)
  have "mem_slice byte_at (p + of_nat (k + ?len)) (length (region_bytes rs)) = region_bytes rs"
    using slice unfolding mem_slice_append by (simp add: append_eq_append_conv algebra_simps)
  then have "tsc_walk byte_at p n (of_nat (k + ?len)) = Some (announced_freq rs)"
    using Cons.IH [of "k + ?len"] Cons.prems(2) fits by simp
  then show ?case
    using step fields(3) Cons.prems(2) by (auto simp: announced_freq_def record_ok_def)
qed

lemma cpuid_tsc_freq_exact:
  assumes "insn_cpuid hw 0x15 = (eax, ebx, ecx, edx)" and "eax \<noteq> 0" and "ebx \<noteq> 0" and "ecx \<noteq> 0"
  shows "\<exists>f. cpuid_tsc_freq hw = Some f \<and> unat f = unat ecx * unat ebx div unat eax"
proof -
  have u: "unat (ucast x :: u64) = unat x" for x :: u32 by (simp add: unsigned_ucast_eq take_bit_nat_eq_self unsigned_less [THEN less_trans])
  have "unat ecx * unat ebx < 2 ^ 32 * 2 ^ 32"
    using unsigned_less [of ecx, where 'a = nat] unsigned_less [of ebx, where 'a = nat]
    by (intro mult_strict_mono) auto
  then have "unat (ucast ecx * ucast ebx :: u64) = unat ecx * unat ebx" by (simp add: unat_word_ariths u)
  then show ?thesis using assms by (simp add: cpuid_tsc_freq_def Let_def unat_div u)
qed

text \<open>
  C37. Reading the time stamp frequency from the boot information: when the pages after the boot information hold a
  list of records whose encodings fill the announced length, the walk ends and returns the frequency of the first
  record with identifier 5, and nothing when there is none.
\<close>

theorem tsc_freq_exact:
  assumes "mem_slice (load_byte ram m) (f + 4096) (length (region_bytes rs)) = region_bytes rs" and "\<forall>r \<in> set rs. record_ok r"
    and "unat (bi_extra_len bi) = length (region_bytes rs)" and "unat (bi_extra_len bi) + 16 < 2 ^ 64"
  shows "get_tsc_freq_mhz ram f bi m = Some (announced_freq rs)"
proof (cases "bi_extra_len bi = 0")
  case True
  with assms(3) have "rs = []" by (cases rs) auto
  with True show ?thesis by (simp add: get_tsc_freq_mhz_def announced_freq_def)
next
  case False
  then show ?thesis
    using tsc_walk_records [of "load_byte ram m" "f + 4096" 0 rs "bi_extra_len bi"] assms by (simp add: get_tsc_freq_mhz_def)
qed

definition sample_records :: "extra_record list" where
  "sample_records = [(7, [9]), (5, to_le 4 (2400 :: u32))]"

text \<open>A machine whose memory holds the given bytes at \<^verbatim>\<open>0x11000\<close>.\<close>

definition machine_with :: "bytes \<Rightarrow> (usize \<Rightarrow> u8) machine" where
  "machine_with bs = \<lparr> ipc_set = True, ipc_buf = ipc_buffer_new,
     cpu = \<lparr> c_rax = 0, c_rdx = 0, c_rdi = 0, c_rsi = 0, c_r10 = 0, c_r8 = 0, c_r9 = 0, c_r12 = 0, c_r13 = 0, c_r15 = 0 \<rparr>,
     world = mem_store (\<lambda>_. 0) 0x11000 bs \<rparr>"

lemma machine_with_slice: "length bs < 2 ^ 64 \<Longrightarrow> mem_slice (load_byte flat_ram (machine_with bs)) 0x11000 (length bs) = bs"
proof -
  have "load_byte flat_ram (machine_with bs) = mem_store (\<lambda>_. 0) 0x11000 bs"
    by (rule ext) (simp add: load_byte_def flat_ram_def machine_with_def)
  then show "length bs < 2 ^ 64 \<Longrightarrow> mem_slice (load_byte flat_ram (machine_with bs)) 0x11000 (length bs) = bs"
    by (simp add: mem_slice_store_same)
qed

lemma length_sample_records: "length (region_bytes sample_records) = 37"
  by (simp add: sample_records_def)

theorem tsc_freq_exact_witness:
  "get_tsc_freq_mhz flat_ram 0x10000 (sample_boot_info\<lparr> bi_extra_len := 37 \<rparr>) (machine_with (region_bytes sample_records)) = Some (Some 2400)"
proof -
  have "announced_freq sample_records = Some 2400" by (simp add: sample_records_def announced_freq_def from_le_to_le)
  moreover have "\<forall>r \<in> set sample_records. record_ok r" by (simp add: sample_records_def record_ok_def)
  ultimately show ?thesis
    using tsc_freq_exact [where ram = flat_ram and m = "machine_with (region_bytes sample_records)" and f = "0x10000" and rs = sample_records and bi = "sample_boot_info\<lparr> bi_extra_len := 37 \<rparr>"]
      machine_with_slice [of "region_bytes sample_records"] length_sample_records by simp
qed

text \<open>
  The guard \<^verbatim>\<open>len >= 16\<close> admits a frequency record without a value: of two regions of 16 bytes that are equal, the
  walk returns different frequencies, which it read past their end.
\<close>

lemma tsc_record_without_value:
  "get_tsc_freq_mhz flat_ram 0x10000 (sample_boot_info\<lparr> bi_extra_len := 16 \<rparr>)
     (machine_with (record_bytes (5, []) @ to_le 4 v)) = Some (Some v)"
proof -
  let ?b = "load_byte flat_ram (machine_with (record_bytes (5, []) @ to_le 4 v))"
  have "mem_slice ?b (0x11000 + 0) (length (record_bytes (5, [])) + 4) = record_bytes (5, []) @ to_le 4 v"
    using machine_with_slice [of "record_bytes (5, []) @ to_le 4 v"] by simp
  note fields = record_in_memory [OF this]
  have "mem_slice ?b 0x11000 (16 + 4) = record_bytes (5, []) @ to_le 4 v"
    using machine_with_slice [of "record_bytes (5, []) @ to_le 4 v"] by simp
  then have "mem_slice ?b (0x11000 + 16) 4 = to_le 4 v" unfolding mem_slice_append by (simp add: append_eq_append_conv)
  moreover have "16 \<le> header_len ?b 0x11000 0" "header_len ?b 0x11000 0 \<noteq> 0" using fields(2) by (auto simp: word_le_nat_alt)
  ultimately show ?thesis
    using fields(1) by (simp add: get_tsc_freq_mhz_def tsc_walk.simps [of _ _ _ 0] from_le_to_le Let_def)
qed

end
