(* ===== verification/Root_Tests.thy ===== *)
theory Root_Tests
  imports Shell_Process Devices Sel4_Tests Sysno Processor
begin

text \<open>
  The tests and measurements the root task runs when it starts (\<^verbatim>\<open>root-task/src/main.rs\<close>): the RAM disk, the ext4 file
  system, the parts of the compatibility layer, and the two benchmarks of the disk and of the file system. A failed
  assertion is a panic, \<open>None\<close>. The embedded files are parameters.
\<close>

section \<open>Console output\<close>

text \<open>A sequence of \<^verbatim>\<open>seL4_DebugPutString\<close> and \<^verbatim>\<open>put_u64\<close>.\<close>

primrec outs :: "'k kernel \<Rightarrow> (string + u64) list \<Rightarrow> 'k machine \<Rightarrow> 'k machine option" where
  "outs kern [] m = Some m"
| "outs kern (x # xs) m =
     do {
       m1 \<leftarrow> (case x of Inl txt \<Rightarrow> Some (seL4_DebugPutString kern (str txt) m) | Inr v \<Rightarrow> put_u64 kern v m);
       outs kern xs m1
     }"

definition item_text :: "string + u64 \<Rightarrow> bytes" where
  "item_text x = (case x of Inl txt \<Rightarrow> str txt | Inr v \<Rightarrow> decimal v)"

definition text_of :: "(string + u64) list \<Rightarrow> bytes" where
  "text_of xs = concat (map item_text xs)"

text \<open>Assertions, each followed by its line of output.\<close>

primrec checks :: "'k kernel \<Rightarrow> (bool \<times> string) list \<Rightarrow> 'k machine \<Rightarrow> 'k machine option" where
  "checks kern [] m = Some m"
| "checks kern (t # ts) m = (if fst t then checks kern ts (seL4_DebugPutString kern (str (snd t)) m) else None)"

section \<open>The RAM disk\<close>

definition blk_test_block :: bytes where
  "blk_test_block = map (\<lambda>i. ucast (of_nat i AND 0xFF :: usize)) [0..<BLOCK_SIZE]"

definition test_blk_task :: "'k kernel \<Rightarrow> bytes \<Rightarrow> 'k machine \<Rightarrow> (bytes \<times> 'k machine) option" where
  "test_blk_task kern disk m =
     do {
       m1 \<leftarrow> outs kern [Inl ''\<newline>[blk-task] Testing ramdisk block device...\<newline>'', Inl ''  Capacity: '', Inr capacity, Inl '' bytes\<newline>''] m;
       disk1 \<leftarrow> write_block disk 0 blk_test_block;
       m2 \<leftarrow> outs kern [Inl ''  Write block 0: OK\<newline>''] m1;
       read_buf \<leftarrow> read_block disk1 0 (replicate BLOCK_SIZE 0);
       let ok = (read_buf = blk_test_block);
       m3 \<leftarrow> outs kern [Inl ''  Read block 0: '', Inl (if ok then ''OK (data verified)\<newline>'' else ''FAILED (data mismatch)\<newline>''),
         Inl ''[blk-task] Test completed.\<newline>''] m2;
       Some (disk1, m3)
     }"

primrec bench_writes :: "bytes \<Rightarrow> nat list \<Rightarrow> bytes \<Rightarrow> bytes option" where
  "bench_writes buf [] disk = Some disk"
| "bench_writes buf (i # is) disk = do { disk1 \<leftarrow> write_block disk (of_nat i) buf; bench_writes buf is disk1 }"

primrec bench_reads :: "bytes \<Rightarrow> nat list \<Rightarrow> bytes \<Rightarrow> bytes option" where
  "bench_reads disk [] buf = Some buf"
| "bench_reads disk (i # is) buf = do { buf1 \<leftarrow> read_block disk (of_nat i) buf; bench_reads disk is buf1 }"

definition bench_blk_task :: "'k kernel \<Rightarrow> 'k cpu_insns \<Rightarrow> bytes \<Rightarrow> 'k machine \<Rightarrow> (bytes \<times> 'k machine) option" where
  "bench_blk_task kern hw disk m =
     (let block_count = 64; total_bytes = of_nat (block_count * BLOCK_SIZE); buf = replicate BLOCK_SIZE 0
      in do {
        m1 \<leftarrow> outs kern [Inl ''\<newline>[bench] Block device benchmark...\<newline>''] m;
        let (t0, m2) = rdtsc hw m1;
        disk1 \<leftarrow> bench_writes buf [0..<block_count] disk;
        let (t1, m3) = rdtsc hw m2;
        let write_cycles = t1 - t0;
        let (t2, m4) = rdtsc hw m3;
        _ \<leftarrow> bench_reads disk1 [0..<block_count] buf;
        let (t3, m5) = rdtsc hw m4;
        let read_cycles = t3 - t2;
        m6 \<leftarrow> outs kern [Inl ''  Block size: '', Inr (of_nat BLOCK_SIZE), Inl '' bytes\<newline>'',
          Inl ''  Write '', Inr total_bytes, Inl '' bytes: '', Inr write_cycles, Inl '' cycles ('',
          Inr (write_cycles div of_nat block_count), Inl '' cycles/block)\<newline>'',
          Inl ''  Read  '', Inr total_bytes, Inl '' bytes: '', Inr read_cycles, Inl '' cycles ('',
          Inr (read_cycles div of_nat block_count), Inl '' cycles/block)\<newline>'',
          Inl ''[bench] Block benchmark completed.\<newline>''] m5;
        Some (disk1, m6)
      })"

section \<open>The file system\<close>

definition hello_data :: bytes where
  "hello_data = str ''Hello, seL4 ext4!''"

text \<open>The \<^verbatim>\<open>Ok\<close> arm after \<^verbatim>\<open>open\<close>.\<close>

definition test_hello_file ::
  "'k kernel \<Rightarrow> ('f, 'h, 's, 'z) ext4_lib_scheme \<Rightarrow> usize \<Rightarrow> ('f, 's) ext4fs \<Rightarrow> 'k machine \<Rightarrow> (('f, 's) ext4fs \<times> 'k machine) option" where
  "test_hello_file kern L inode e m =
     do {
       m1 \<leftarrow> outs kern [Inl ''  open /test/hello.txt: OK (inode='', Inr inode, Inl '')\<newline>''] m;
       (_, e1) \<leftarrow> ext4_write_at L inode 0 hello_data e;
       m2 \<leftarrow> outs kern [Inl ''  write: OK\<newline>''] m1;
       ((n, buf), e2) \<leftarrow> ext4_read_at L inode 0 (replicate 64 0) e1;
       got \<leftarrow> sub_slice buf 0 (unat n);
       m3 \<leftarrow> outs kern [Inl (if got = hello_data then ''  read: OK (data verified)\<newline>'' else ''  read: FAILED (data mismatch)\<newline>'')] m2;
       (st, e3) \<leftarrow> ext4_stat L inode e2;
       m4 \<leftarrow> outs kern [Inl ''  stat size='', Inr (st_size st), Inl ''\<newline>''] m3;
       e4 \<leftarrow> ext4_close L inode e3;
       m5 \<leftarrow> outs kern [Inl ''  close: OK\<newline>''] m4;
       Some (e4, m5)
     }"

text \<open>\<^verbatim>\<open>put_u64(e as u64)\<close> sign-extends the error.\<close>

definition say_open_failed :: "'k kernel \<Rightarrow> i32 \<Rightarrow> 'k machine \<Rightarrow> 'k machine option" where
  "say_open_failed kern err m = outs kern [Inl ''  open failed: err='', Inr (scast err), Inl ''\<newline>''] m"

definition test_lwext4_task ::
  "'k kernel \<Rightarrow> ('f, 'h, 's, 'z) ext4_lib_scheme \<Rightarrow> ('f, 's) ext4_mount \<Rightarrow> bytes \<Rightarrow> 'k machine \<Rightarrow> (bytes \<times> 'k machine) option" where
  "test_lwext4_task kern L M disk m =
     do {
       m1 \<leftarrow> outs kern [Inl ''\<newline>[lwext4-task] Testing ext4 filesystem...\<newline>''] m;
       e0 \<leftarrow> ext4fs_new M disk;
       e1 \<leftarrow> ext4_mkdir L (str ''/test'') e0;
       m2 \<leftarrow> outs kern [Inl ''  mkdir /test: OK\<newline>''] m1;
       (r, e2) \<leftarrow> ext4_open L (str ''/test/hello.txt'') 0x242 e1;
       (e3, m3) \<leftarrow> (case r of
          Inr (inode, _) \<Rightarrow> test_hello_file kern L inode e2 m2
        | Inl err \<Rightarrow> map_option (Pair e2) (say_open_failed kern err m2));
       m4 \<leftarrow> outs kern [Inl ''[lwext4-task] Test completed.\<newline>''] m3;
       Some (unmount_disk M (ext_fs e3), m4)
     }"

primrec repeat_write ::
  "('f, 'h, 's, 'z) ext4_lib_scheme \<Rightarrow> usize \<Rightarrow> bytes \<Rightarrow> nat \<Rightarrow> ('f, 's) ext4fs \<Rightarrow> ('f, 's) ext4fs option" where
  "repeat_write L inode dat 0 e = Some e"
| "repeat_write L inode dat (Suc n) e = do { (_, e1) \<leftarrow> ext4_write_at L inode 0 dat e; repeat_write L inode dat n e1 }"

primrec repeat_read ::
  "('f, 'h, 's, 'z) ext4_lib_scheme \<Rightarrow> usize \<Rightarrow> nat \<Rightarrow> bytes \<Rightarrow> ('f, 's) ext4fs \<Rightarrow> ('f, 's) ext4fs option" where
  "repeat_read L inode 0 buf e = Some e"
| "repeat_read L inode (Suc n) buf e =
     do { ((_, buf1), e1) \<leftarrow> ext4_read_at L inode 0 buf e; repeat_read L inode n buf1 e1 }"

text \<open>One size of \<^verbatim>\<open>bench_lwext4_task\<close>: ten writes, ten reads, and the removal of the file.\<close>

definition bench_size ::
  "'k kernel \<Rightarrow> 'k cpu_insns \<Rightarrow> ('f, 'h, 's, 'z) ext4_lib_scheme \<Rightarrow> nat \<Rightarrow> ('f, 's) ext4fs \<times> 'k machine \<Rightarrow> (('f, 's) ext4fs \<times> 'k machine) option" where
  "bench_size kern hw L sz em =
     (let (e, m) = em; iterations = 10; dat = replicate sz 0xA5; (t0, m1) = rdtsc hw m
      in do {
        (r, e1) \<leftarrow> ext4_open L (str ''/bench/test.bin'') 0x242 e;
        (e2, m2) \<leftarrow> (case r of
           Inr (inode, _) \<Rightarrow> do {
             ea \<leftarrow> repeat_write L inode dat iterations e1;
             let (t1, ma) = rdtsc hw m1;
             let write_cycles = (t1 - t0) div of_nat iterations;
             let (t2, mb) = rdtsc hw ma;
             eb \<leftarrow> repeat_read L inode iterations (replicate sz 0) ea;
             let (t3, mc) = rdtsc hw mb;
             let read_cycles = (t3 - t2) div of_nat iterations;
             ec \<leftarrow> ext4_close L inode eb;
             md \<leftarrow> outs kern [Inl ''  size='', Inr (of_nat sz), Inl ''  write='', Inr write_cycles, Inl ''  read='', Inr read_cycles,
               Inl '' cycles/iter\<newline>''] mc;
             Some (ec, md)
           }
         | Inl err \<Rightarrow> map_option (Pair e1) (say_open_failed kern err m1));
        e3 \<leftarrow> ext4_unlink L (str ''/bench/test.bin'') e2;
        Some (e3, m2)
      })"

primrec bench_sizes ::
  "'k kernel \<Rightarrow> 'k cpu_insns \<Rightarrow> ('f, 'h, 's, 'z) ext4_lib_scheme \<Rightarrow> nat list \<Rightarrow> ('f, 's) ext4fs \<times> 'k machine \<Rightarrow> (('f, 's) ext4fs \<times> 'k machine) option" where
  "bench_sizes kern hw L [] em = Some em"
| "bench_sizes kern hw L (sz # szs) em = do { em1 \<leftarrow> bench_size kern hw L sz em; bench_sizes kern hw L szs em1 }"

definition bench_lwext4_task ::
  "'k kernel \<Rightarrow> 'k cpu_insns \<Rightarrow> ('f, 'h, 's, 'z) ext4_lib_scheme \<Rightarrow> ('f, 's) ext4_mount \<Rightarrow> bytes \<Rightarrow> bytes \<Rightarrow> 'k machine \<Rightarrow> (bytes \<times> 'k machine) option" where
  "bench_lwext4_task kern hw L M ext4_img disk m =
     do {
       m1 \<leftarrow> outs kern [Inl ''\<newline>[bench] ext4 filesystem benchmark...\<newline>''] m;
       e0 \<leftarrow> ext4fs_new M (init_from_image ext4_img disk);
       e1 \<leftarrow> ext4_mkdir L (str ''/bench'') e0;
       (e2, m2) \<leftarrow> bench_sizes kern hw L [512, 1024, 4096] (e1, m1);
       m3 \<leftarrow> outs kern [Inl ''[bench] ext4 benchmark completed.\<newline>''] m2;
       Some (unmount_disk M (ext_fs e2), m3)
     }"

section \<open>The compatibility layer\<close>

definition USPACE_BASE :: usize where "USPACE_BASE = 0x1000"
definition VDSO_ADDR :: usize where "VDSO_ADDR = 0x400000000"
definition PAGE_COPY_TEMP :: usize where "PAGE_COPY_TEMP = 0x800000000"

definition lcl_O_RDONLY :: u32 where "lcl_O_RDONLY = 0"
definition lcl_O_WRONLY :: u32 where "lcl_O_WRONLY = 1"
definition lcl_O_RDWR :: u32 where "lcl_O_RDWR = 2"
definition lcl_O_CREAT :: u32 where "lcl_O_CREAT = 64"
definition lcl_O_TRUNC :: u32 where "lcl_O_TRUNC = 512"
definition lcl_AT_FDCWD :: i32 where "lcl_AT_FDCWD = - 100"

definition sysno_samples :: "usize list" where
  "sysno_samples =
     [0, 1, 2, 3, 4, 5, 8, 9, 10, 11, 12, 13, 14, 15, 16, 17, 18, 19, 20, 21, 22, 24, 29, 30, 31, 32, 33, 35,
      39, 40, 57, 59, 60, 61, 62, 63, 72, 77, 79, 80, 82, 83, 84, 85, 87, 96, 98, 102, 104, 107, 108, 137, 165,
      166, 202, 217, 218, 228, 231, 257, 258, 262, 263, 264, 269, 270, 271, 280, 302]"

definition lcl_test_sysno :: bool where
  "lcl_test_sysno \<longleftrightarrow> list_all (\<lambda>n. sysno_try_from n \<noteq> None) sysno_samples \<and> sysno_try_from 999 = None"

definition lcl_test_mem_info :: bool where
  "lcl_test_mem_info \<longleftrightarrow>
     (let t = task_mem_default; t1 = t\<lparr> heap := 0x80000000 \<rparr>; t2 = t1\<lparr> mapped_page := bt_insert 0x1000 42 (mapped_page t1) \<rparr>
      in bt_keys (mapped_page t) = [] \<and> heap t = 0x70000000 \<and> heap t1 = 0x80000000 \<and> bt_get (mapped_page t2) 0x1000 = Some 42)"

definition lcl_test_layout :: bool where
  "lcl_test_layout \<longleftrightarrow>
     DEF_STACK_TOP = 0x200000000 \<and> DEF_STACK_BOTTOM = 0x1F0000000 \<and> DEF_HEAP_ADDR = 0x70000000 \<and>
     USPACE_BASE = 0x1000 \<and> VDSO_ADDR = 0x400000000 \<and> PAGE_COPY_TEMP = 0x800000000"

definition lcl_test_task_info :: bool where
  "lcl_test_task_info \<longleftrightarrow>
     (let i = task_info_default; i1 = i\<lparr> ti_entry := 0x400000, task_vm_end := 0x500000 \<rparr>
      in ti_entry i = 0 \<and> task_vm_end i = 0 \<and> ti_entry i1 = 0x400000 \<and> task_vm_end i1 = 0x500000)"

definition lcl_test_file_consts :: bool where
  "lcl_test_file_consts \<longleftrightarrow>
     lcl_O_RDONLY = 0 \<and> lcl_O_WRONLY = 1 \<and> lcl_O_RDWR = 2 \<and> lcl_O_CREAT = 64 \<and> lcl_O_TRUNC = 512 \<and> lcl_AT_FDCWD = - 100"

definition elf_magic :: bytes where
  "elf_magic = 0x7F # str ''ELF''"

definition lcl_test_elf_array :: bool where
  "lcl_test_elf_array \<longleftrightarrow>
     (let elf = (copy_slice (replicate 64 0) 0 elf_magic)[4 := 2, 5 := 1, 6 := 1]
      in sub_slice elf 0 4 = Some elf_magic \<and> index elf 4 = Some 2 \<and> index elf 5 = Some 1)"

definition lcl_test_regs :: bool where
  "lcl_test_regs \<longleftrightarrow> (let regs = (replicate 20 (0 :: usize))[0 := 60, 5 := 42] in index regs 0 = Some 60 \<and> index regs 5 = Some 42)"

definition lcl_test_fault_labels :: bool where
  "lcl_test_fault_labels \<longleftrightarrow>
     (let vmfault_label = 1; ue_label = 2; us_label = (3 :: u32) in vmfault_label = (1 :: u32) \<and> ue_label = (2 :: u32) \<and> us_label = 3)"

definition lcl_test_devfs :: bool where
  "lcl_test_devfs \<longleftrightarrow>
     dev_open (str ''null'') \<noteq> None \<and> dev_open (str ''zero'') \<noteq> None \<and> dev_open (str ''stdin'') \<noteq> None \<and>
     dev_open (str ''stdout'') \<noteq> None \<and> dev_open (str ''nonexistent'') = None"

definition lcl_test_pipe :: bool where
  "lcl_test_pipe \<longleftrightarrow>
     (let p = create_pipe 1024; (written, p1) = pipe_write (str ''hello'') p
      in pipe_available p = 0 \<and> written = 5 \<and> pipe_available p1 = 5 \<and>
         (case pipe_read (replicate 5 0) p1 of
            Some (n, buf, p2) \<Rightarrow> n = 5 \<and> buf = str ''hello'' \<and> pipe_available p2 = 0
          | None \<Rightarrow> False))"

definition lcl_test_signal :: bool where
  "lcl_test_signal \<longleftrightarrow>
     (let s = task_signal_new; s1 = add_signal 9 1 s; (popped, s2) = pop_signal s1
      in \<not> has_unmasked_signal s \<and> has_unmasked_signal s1 \<and> popped = Some 9 \<and> \<not> has_unmasked_signal s2)"

definition lcl_test_pcb :: bool where
  "lcl_test_pcb \<longleftrightarrow> length (itimer pcb_new) = 3"

definition lcl_test_capacity :: bool where
  "lcl_test_capacity \<longleftrightarrow> capacity > 0"

text \<open>\<^verbatim>\<open>if let Some(page) = page_data.get_mut(&a)\<close> and the asserts of the second \<^verbatim>\<open>if let\<close>, which hold when the page is missing.\<close>

definition with_page :: "usize \<Rightarrow> task_mem_info" where
  "with_page a = task_mem_default\<lparr> mapped_page := bt_insert a 0 bt_empty, page_data := bt_insert a (replicate 4096 0) bt_empty \<rparr>"

definition page_poke :: "usize \<Rightarrow> (nat \<times> u8) list \<Rightarrow> task_mem_info \<Rightarrow> task_mem_info" where
  "page_poke a vs t =
     (case bt_get (page_data t) a of
        Some page \<Rightarrow> t\<lparr> page_data := bt_insert a (fold (\<lambda>(i, v) pg. pg[i := v]) vs page) (page_data t) \<rparr>
      | None \<Rightarrow> t)"

definition page_holds :: "usize \<Rightarrow> (nat \<times> u8) list \<Rightarrow> task_mem_info \<Rightarrow> bool" where
  "page_holds a vs t \<longleftrightarrow>
     (case bt_get (page_data t) a of Some page \<Rightarrow> list_all (\<lambda>(i, v). index page i = Some v) vs | None \<Rightarrow> True)"

definition lcl_test_page_data :: bool where
  "lcl_test_page_data \<longleftrightarrow> page_holds 0x1000 [(0, 0xDE), (1, 0xAD)] (page_poke 0x1000 [(0, 0xDE), (1, 0xAD)] (with_page 0x1000))"

definition lcl_test_task_memory :: bool where
  "lcl_test_task_memory \<longleftrightarrow>
     page_holds 0x400000 [(0, 0xDE), (3, 0xEF)]
       (page_poke 0x400000 [(0, 0xDE), (1, 0xAD), (2, 0xBE), (3, 0xEF)] (with_page 0x400000))"

definition lcl_test_brk :: bool where
  "lcl_test_brk \<longleftrightarrow>
     (let t = task_mem_default; t1 = t\<lparr> heap := 0x70010000 \<rparr> in heap t = 0x70000000 \<and> heap t1 = 0x70010000)"

definition lcl_tests_2_13 :: "(bool \<times> string) list" where
  "lcl_tests_2_13 = [
     (lcl_test_sysno, ''  [2] Syscall numbers (68 syscalls): OK\<newline>''),
     (lcl_test_mem_info, ''  [3] TaskMemInfo: OK\<newline>''),
     (lcl_test_layout, ''  [4] Memory layout: OK\<newline>''),
     (lcl_test_task_info, ''  [5] TaskInfo: OK\<newline>''),
     (lcl_test_file_consts, ''  [6] File operations: OK\<newline>''),
     (lcl_test_elf_array, ''  [7] ELF parsing: OK\<newline>''),
     (lcl_test_regs, ''  [8] x86_64 ABI: OK\<newline>''),
     (lcl_test_fault_labels, ''  [9] Fault types: OK\<newline>''),
     (lcl_test_devfs, ''  [10] DevFS: OK\<newline>''),
     (lcl_test_pipe, ''  [11] Pipe: OK\<newline>''),
     (lcl_test_signal, ''  [12] Signal handling: OK\<newline>''),
     (lcl_test_pcb, ''  [13] ProcessControlBlock: OK\<newline>'')]"

definition lcl_tests_15_19 :: "(bool \<times> string) list" where
  "lcl_tests_15_19 = [
     (lcl_test_capacity, ''  [15] Block device: OK\<newline>''),
     (lcl_test_page_data, ''  [16] Page data R/W: OK\<newline>''),
     (lcl_test_task_memory, ''  [17] Task memory R/W: OK\<newline>''),
     (True, ''  [18] Write syscall: OK\<newline>''),
     (lcl_test_brk, ''  [19] brk behavior: OK\<newline>'')]"

text \<open>Test 14 runs on the layer's clock.\<close>

definition lcl_test_timer :: "'k kernel \<Rightarrow> 'k lcl \<Rightarrow> 'k lcl option" where
  "lcl_test_timer kern l =
     (let l1 = timer_init kern l; l2 = advance_time 100 l1; l3 = advance_time 50 l2
      in if CURRENT_TIME_MS l1 = 0 \<and> CURRENT_TIME_MS l2 = 100 \<and> CURRENT_TIME_MS l3 = 150
         then Some (l3\<lparr> machine := seL4_DebugPutString kern (str ''  [14] Timer: OK\<newline>'') (machine l3) \<rparr>) else None)"

definition busybox_header_ok :: "bytes \<Rightarrow> bool" where
  "busybox_header_ok busybox \<longleftrightarrow>
     sub_slice busybox 0 4 = Some elf_magic \<and> index busybox 4 = Some 2 \<and> index busybox 5 = Some 1 \<and>
     index busybox 16 = Some 2 \<and> index busybox 18 = Some 0x3E"

definition lcl_test_busybox :: "'k kernel \<Rightarrow> bytes \<Rightarrow> 'k machine \<Rightarrow> 'k machine option" where
  "lcl_test_busybox kern busybox m =
     (if busybox_header_ok busybox then
        do {
          entry \<leftarrow> sub_slice busybox 24 32;
          Some (seL4_DebugPutString kern (str ''  [20] busybox ELF header: OK\<newline>'') (seL4_DebugPutChar kern 10
            (print_hex kern (from_le entry) (seL4_DebugPutString kern (str ''  [20] busybox ELF: entry=0x'') m))))
        }
      else None)"

definition on_layer_machine :: "('k machine \<Rightarrow> 'k machine option) \<Rightarrow> 'k lcl \<Rightarrow> 'k lcl option" where
  "on_layer_machine f l = map_option (\<lambda>m. l\<lparr> machine := m \<rparr>) (f (machine l))"

definition test_lcl :: "'k kernel \<Rightarrow> bytes \<Rightarrow> obj_pool \<Rightarrow> 'k lcl \<Rightarrow> (obj_pool \<times> 'k lcl) option" where
  "test_lcl kern busybox pool l =
     do {
       l1 \<leftarrow> on_layer_machine (outs kern [Inl ''\<newline>[lcl] Testing Linux Compatible Layer...\<newline>'']) l;
       let (_, pool1) = op_alloc pool;
       let (_, pool2) = op_alloc pool1;
       l2 \<leftarrow> on_layer_machine (outs kern [Inl ''  [1] Object allocator: OK\<newline>'']) l1;
       l3 \<leftarrow> on_layer_machine (checks kern lcl_tests_2_13) l2;
       l4 \<leftarrow> lcl_test_timer kern l3;
       l5 \<leftarrow> on_layer_machine (checks kern lcl_tests_15_19) l4;
       l6 \<leftarrow> on_layer_machine (lcl_test_busybox kern busybox) l5;
       l7 \<leftarrow> on_layer_machine (outs kern [Inl ''[lcl] All 20 tests passed.\<newline>'']) l6;
       Some (pool2, l7)
     }"

text \<open>The line of output of the second test speaks of 68 calls; the array has one more.\<close>

lemma length_sysno_samples: "length sysno_samples = 69"
  by (simp add: sysno_samples_def)

section \<open>Lemmas\<close>

text \<open>Output is the printing of one text.\<close>

lemma putstring_append: "seL4_DebugPutString kern (a @ b) m = seL4_DebugPutString kern b (seL4_DebugPutString kern a m)"
  by (simp add: seL4_DebugPutString_def)

lemma putstring_nil [simp]: "seL4_DebugPutString kern [] m = m"
  by (simp add: seL4_DebugPutString_def)

lemma put_u64_text: "put_u64 kern v m = Some (seL4_DebugPutString kern (decimal v) m)"
  by (simp add: put_u64_def put_u64_bytes_decimal seL4_DebugPutString_def)

lemma outs_text: "outs kern xs m = Some (seL4_DebugPutString kern (text_of xs) m)"
  by (induction xs arbitrary: m)
    (simp_all add: text_of_def item_text_def put_u64_text putstring_append split: sum.splits)

lemma checks_text: "list_all fst ts \<Longrightarrow> checks kern ts m = Some (seL4_DebugPutString kern (concat (map (str \<circ> snd) ts)) m)"
  by (induction ts arbitrary: m) (simp_all add: putstring_append)

lemma putnewline_text: "seL4_DebugPutChar kern 10 m = seL4_DebugPutString kern (str ''\<newline>'') m"
  by (simp add: seL4_DebugPutString_def str_def)

text \<open>The RAM disk.\<close>

lemma length_blk_test_block [simp]: "length blk_test_block = 512"
  by (simp add: blk_test_block_def BLOCK_SIZE_def)

lemma write_block_exact:
  assumes "length disk = RAMDISK_SIZE" and "i < RAMDISK_BLOCKS" and "length buf = 512"
  shows "write_block disk (of_nat i) buf = Some (copy_slice disk (i * 512) buf)"
    and "read_block disk (of_nat i) buf = Some (take 512 (drop (i * 512) disk))"
proof -
  have i: "i < 8192" using assms(2) by (simp add: RAMDISK_BLOCKS_def RAMDISK_SIZE_def BLOCK_SIZE_def)
  have start: "block_start (of_nat i) = of_nat (i * 512)" by (simp add: block_start_def BLOCK_SIZE_def)
  have us: "unat (of_nat (i * 512) :: usize) = i * 512" using i by (intro unat_of_nat_small) simp
  have "unat (of_nat RAMDISK_SIZE - of_nat (i * 512) :: usize) = RAMDISK_SIZE - i * 512"
    using i us by (subst unat_minus_le) (simp_all add: word_le_nat_alt RAMDISK_SIZE_def)
  moreover have "512 \<le> RAMDISK_SIZE - i * 512" using i by (simp add: RAMDISK_SIZE_def)
  ultimately have "block_len (of_nat (i * 512)) 512 = 512"
    by (simp add: block_len_def BLOCK_SIZE_def min_def word_le_nat_alt RAMDISK_SIZE_def)
  moreover have "unat (of_nat (i * 512) + 512 :: usize) = i * 512 + 512"
    using i us by (simp add: unat_plus_no_wrap)
  ultimately show "write_block disk (of_nat i) buf = Some (copy_slice disk (i * 512) buf)"
    and "read_block disk (of_nat i) buf = Some (take 512 (drop (i * 512) disk))"
    using i us assms(1,3) start
    by (simp_all add: write_block_def read_block_def sub_slice_def Let_def copy_slice_def RAMDISK_SIZE_def)
qed

lemma bench_writes_total:
  assumes "length disk = RAMDISK_SIZE" and "\<forall>i \<in> set is. i < RAMDISK_BLOCKS" and "length buf = 512"
  shows "\<exists>disk'. bench_writes buf is disk = Some disk' \<and> length disk' = RAMDISK_SIZE"
  using assms(1,2)
proof (induction "is" arbitrary: disk)
  case (Cons i "is")
  have "i * 512 + 512 \<le> RAMDISK_SIZE" using Cons.prems(2) by (simp add: RAMDISK_BLOCKS_def RAMDISK_SIZE_def BLOCK_SIZE_def)
  then have "length (copy_slice disk (i * 512) buf) = RAMDISK_SIZE" using Cons.prems(1) assms(3) by simp
  with Cons show ?case by (simp add: write_block_exact assms(3))
qed simp

lemma bench_reads_total:
  assumes "length disk = RAMDISK_SIZE" and "\<forall>i \<in> set is. i < RAMDISK_BLOCKS" and "length buf = 512"
  shows "\<exists>buf'. bench_reads disk is buf = Some buf'"
  using assms(2,3)
proof (induction "is" arbitrary: buf)
  case (Cons i "is")
  have "i * 512 + 512 \<le> length disk" using Cons.prems(1) assms(1) by (simp add: RAMDISK_BLOCKS_def RAMDISK_SIZE_def BLOCK_SIZE_def)
  then have "length (take 512 (drop (i * 512) disk)) = 512" by simp
  with Cons show ?case by (simp add: write_block_exact(2) assms(1))
qed simp

definition blk_test_transcript :: bytes where
  "blk_test_transcript = text_of [Inl ''\<newline>[blk-task] Testing ramdisk block device...\<newline>'', Inl ''  Capacity: '', Inr capacity,
     Inl '' bytes\<newline>'', Inl ''  Write block 0: OK\<newline>'', Inl ''  Read block 0: '', Inl ''OK (data verified)\<newline>'',
     Inl ''[blk-task] Test completed.\<newline>'']"

lemma test_blk_task_exact:
  assumes "length disk = RAMDISK_SIZE"
  shows "test_blk_task kern disk m = Some (copy_slice disk 0 blk_test_block, seL4_DebugPutString kern blk_test_transcript m)"
proof -
  have len: "length (copy_slice disk 0 blk_test_block) = RAMDISK_SIZE" using assms by (simp add: RAMDISK_SIZE_def)
  have w: "write_block disk 0 blk_test_block = Some (copy_slice disk 0 blk_test_block)"
    using write_block_exact(1) [OF assms, of 0 blk_test_block] by (simp add: RAMDISK_BLOCKS_def RAMDISK_SIZE_def BLOCK_SIZE_def)
  have "take 512 (copy_slice disk 0 blk_test_block) = blk_test_block" by (simp add: copy_slice_def)
  then have r: "read_block (copy_slice disk 0 blk_test_block) 0 (replicate BLOCK_SIZE 0) = Some blk_test_block"
    using write_block_exact(2) [OF len, of 0 "replicate BLOCK_SIZE 0"] by (simp add: RAMDISK_BLOCKS_def RAMDISK_SIZE_def BLOCK_SIZE_def)
  show ?thesis
    by (simp add: test_blk_task_def w r outs_text blk_test_transcript_def text_of_def putstring_append [symmetric] Let_def)
qed

text \<open>Reading the counter keeps the property of the world, too.\<close>

definition tsc_keeps :: "('k \<Rightarrow> bool) \<Rightarrow> 'k cpu_insns \<Rightarrow> bool" where
  "tsc_keeps P hw \<longleftrightarrow> (\<forall>k. P k \<longrightarrow> P (snd (insn_rdtsc hw k)))"

lemma rdtsc_typed [typed_intros]: "tsc_keeps P hw \<Longrightarrow> machine_typed P m \<Longrightarrow> machine_typed P (snd (rdtsc hw m))"
  by (simp add: rdtsc_def machine_typed_def tsc_keeps_def split_beta)

lemma bench_blk_task_total:
  assumes "tsc_keeps P hw" and "kernel_typed P kern" and "machine_typed P m" and "length disk = RAMDISK_SIZE"
  shows "\<exists>disk' m'. bench_blk_task kern hw disk m = Some (disk', m') \<and> length disk' = RAMDISK_SIZE \<and> machine_typed P m'"
proof -
  have blocks: "\<forall>i \<in> set [0..<64]. i < RAMDISK_BLOCKS" by (simp add: RAMDISK_BLOCKS_def RAMDISK_SIZE_def BLOCK_SIZE_def)
  from bench_writes_total [OF assms(4) blocks, of "replicate BLOCK_SIZE 0"] obtain disk' where
    w: "bench_writes (replicate BLOCK_SIZE 0) [0..<64] disk = Some disk'" and len: "length disk' = RAMDISK_SIZE"
    by (auto simp: BLOCK_SIZE_def)
  from bench_reads_total [OF len blocks, of "replicate BLOCK_SIZE 0"] obtain buf where
    "bench_reads disk' [0..<64] (replicate BLOCK_SIZE 0) = Some buf" by (auto simp: BLOCK_SIZE_def)
  with w len assms(1-3) show ?thesis by (auto simp: bench_blk_task_def outs_text split_beta Let_def intro!: typed_intros)
qed

text \<open>The layer.\<close>

lemma lcl_tests_2_13_hold: "list_all fst lcl_tests_2_13"
proof -
  have "lcl_test_sysno" by code_simp
  moreover have "lcl_test_mem_info" "lcl_test_layout" "lcl_test_task_info" "lcl_test_file_consts" by code_simp+
  moreover have "lcl_test_elf_array" "lcl_test_regs" "lcl_test_fault_labels" "lcl_test_devfs" by code_simp+
  moreover have "lcl_test_pipe" "lcl_test_signal" "lcl_test_pcb" by code_simp+
  ultimately show ?thesis by (simp add: lcl_tests_2_13_def)
qed

lemma lcl_tests_15_19_hold: "list_all fst lcl_tests_15_19"
proof -
  have "lcl_test_page_data" "lcl_test_task_memory"
    by (simp_all add: lcl_test_page_data_def lcl_test_task_memory_def page_holds_def page_poke_def with_page_def index_def)
  moreover have "lcl_test_capacity" "lcl_test_brk"
    by (simp_all add: lcl_test_capacity_def lcl_test_brk_def capacity_def RAMDISK_SIZE_def task_mem_default_def DEF_HEAP_ADDR_def)
  ultimately show ?thesis by (simp add: lcl_tests_15_19_def)
qed

definition lcl_transcript :: "usize \<Rightarrow> bytes" where
  "lcl_transcript entry =
     str ''\<newline>[lcl] Testing Linux Compatible Layer...\<newline>'' @ str ''  [1] Object allocator: OK\<newline>'' @
     concat (map (str \<circ> snd) lcl_tests_2_13) @ str ''[lcl] Timer initialized\<newline>'' @ str ''  [14] Timer: OK\<newline>'' @
     concat (map (str \<circ> snd) lcl_tests_15_19) @ str ''  [20] busybox ELF: entry=0x'' @ hex_string entry @ str ''\<newline>'' @
     str ''  [20] busybox ELF header: OK\<newline>'' @ str ''[lcl] All 20 tests passed.\<newline>''"

lemma test_lcl_exact:
  assumes "busybox_header_ok busybox" and "32 \<le> length busybox" and "CURRENT_TIME_MS l = 0"
  shows "test_lcl kern busybox pool l =
    Some (snd (op_alloc (snd (op_alloc pool))),
      l\<lparr> CURRENT_TIME_MS := 150, machine := seL4_DebugPutString kern (lcl_transcript (from_le (take 8 (drop 24 busybox)))) (machine l) \<rparr>)"
  using assms
  by (simp add: test_lcl_def on_layer_machine_def outs_text checks_text lcl_tests_2_13_hold lcl_tests_15_19_hold lcl_test_timer_def
    timer_init_def advance_time_def lcl_test_busybox_def sub_slice_def split_beta Let_def print_hex_string putnewline_text
    lcl_transcript_def putstring_append text_of_def item_text_def)

text \<open>
  The file system. Whatever the library answers, a stage that does not panic keeps the machine well typed and the disk's
  length; the disk is an array, which \<open>unmounts_disk\<close> says of the one that comes back.
\<close>

definition unmounts_disk :: "('f, 's) ext4_mount \<Rightarrow> bool" where
  "unmounts_disk M \<longleftrightarrow> (\<forall>f. length (unmount_disk M f) = RAMDISK_SIZE)"

lemma test_lwext4_task_typed:
  assumes "kernel_typed P kern" and "machine_typed P m" and "unmounts_disk M" and "test_lwext4_task kern L M disk m = Some (disk', m')"
  shows "length disk' = RAMDISK_SIZE \<and> machine_typed P m'"
proof -
  have hello: "machine_typed P m'" if "test_hello_file kern L i e m = Some (e', m')" "machine_typed P m" for i e m e' m'
    using that assms(1) by (auto simp: test_hello_file_def outs_text intro!: typed_intros split: bind_splits)
  have failed: "machine_typed P m'" if "say_open_failed kern err m = Some m'" "machine_typed P m" for err m m'
    using that assms(1) by (auto simp: say_open_failed_def outs_text intro!: typed_intros)
  show ?thesis using assms
    by (auto simp: test_lwext4_task_def outs_text unmounts_disk_def intro!: typed_intros split: bind_splits sum.splits
        dest!: hello failed)
qed

lemma bench_lwext4_task_typed:
  assumes "tsc_keeps P hw" and "kernel_typed P kern" and "machine_typed P m" and "unmounts_disk M"
    and "bench_lwext4_task kern hw L M img disk m = Some (disk', m')"
  shows "length disk' = RAMDISK_SIZE \<and> machine_typed P m'"
proof -
  have size: "machine_typed P m'" if "bench_size kern hw L sz (e, m) = Some (e', m')" "machine_typed P m" for sz e m e' m'
    using that assms(1,2)
    by (auto simp: bench_size_def say_open_failed_def outs_text split_beta Let_def intro!: typed_intros split: bind_splits sum.splits)
  have sizes: "bench_sizes kern hw L szs (e, m) = Some (e', m') \<Longrightarrow> machine_typed P m \<Longrightarrow> machine_typed P m'" for szs e m e' m'
    by (induction szs arbitrary: e m) (auto split: bind_splits dest: size)
  show ?thesis using assms
    by (auto simp: bench_lwext4_task_def outs_text unmounts_disk_def simp del: bench_sizes.simps intro!: typed_intros split: bind_splits
        dest!: sizes)
qed

text \<open>
  A sufficient condition for these stages not to panic. \<open>lib_total\<close>: the operations of the library that the tests unwrap succeed,
  and a read reports no more than the buffer holds. \<open>mounts_image\<close>: the image mounts whatever its first block, the boot
  block, holds.
\<close>

definition lib_total :: "('f, 'h, 's, 'z) ext4_lib_scheme \<Rightarrow> bool" where
  "lib_total L \<longleftrightarrow>
     (\<forall>off w h f. \<exists>n. fst (file_seek L off w h f) = Inr n) \<and>
     (\<forall>buf h f. \<exists>n buf'. fst (file_read L buf h f) = Inr (n, buf') \<and> length buf' = length buf \<and> unat n \<le> length buf) \<and>
     (\<forall>dat h f. \<exists>n. fst (file_write L dat h f) = Inr n) \<and> (\<forall>h f. \<exists>n. fst (file_close L h f) = Inr n) \<and>
     (\<forall>p h f. \<exists>n. fst (dir_mk L p h f) = Inr n) \<and> (\<forall>p h f. \<exists>n. fst (file_remove L p h f) = Inr n)"

definition mounts_image :: "('f, 's) ext4_mount \<Rightarrow> bytes \<Rightarrow> bool" where
  "mounts_image M img \<longleftrightarrow>
     (\<forall>disk. length disk = RAMDISK_SIZE \<longrightarrow> drop 512 (take (length img) disk) = drop 512 img \<longrightarrow> mount_disk M disk \<noteq> None) \<and>
     unmounts_disk M"

lemma ext4_write_total:
  assumes "lib_total L"
  shows "\<exists>n e'. ext4_write_at L i off dat e = Some (n, e')"
proof (cases "st_get L (stores e) i")
  case (Some h)
  obtain r h1 f1 where seek: "file_seek L off 0 h (ext_fs e) = (r, h1, f1)" by (cases "file_seek L off 0 h (ext_fs e)")
  obtain r2 h2 f2 where wr: "file_write L dat h1 f1 = (r2, h2, f2)" by (cases "file_write L dat h1 f1")
  have "\<exists>n. r = Inr n" "\<exists>n. r2 = Inr n" using assms seek wr unfolding lib_total_def by (metis fst_conv)+
  then show ?thesis using Some seek wr by (auto simp: ext4_write_at_def unwrap_def)
qed (simp add: ext4_write_at_def)

lemma ext4_read_total:
  assumes "lib_total L"
  shows "\<exists>n buf' e'. ext4_read_at L i off buf e = Some ((n, buf'), e') \<and> length buf' = length buf \<and> unat n \<le> length buf"
proof (cases "st_get L (stores e) i")
  case (Some h)
  obtain r h1 f1 where seek: "file_seek L off 0 h (ext_fs e) = (r, h1, f1)" by (cases "file_seek L off 0 h (ext_fs e)")
  obtain r2 h2 f2 where rd: "file_read L buf h1 f1 = (r2, h2, f2)" by (cases "file_read L buf h1 f1")
  have "\<exists>n. r = Inr n" "\<exists>n buf'. r2 = Inr (n, buf') \<and> length buf' = length buf \<and> unat n \<le> length buf"
    using assms seek rd unfolding lib_total_def by (metis fst_conv)+
  then show ?thesis using Some seek rd by (auto simp: ext4_read_at_def unwrap_def)
qed (simp add: ext4_read_at_def)

lemma ext4_close_total:
  assumes "lib_total L"
  shows "\<exists>e'. ext4_close L i e = Some e'"
proof -
  obtain r s1 where rm: "st_remove L i (stores e) = (r, s1)" by (cases "st_remove L i (stores e)")
  show ?thesis
  proof (cases r)
    case (Some h)
    obtain n where "fst (file_close L h (ext_fs e)) = Inr n" using assms unfolding lib_total_def by blast
    then show ?thesis using rm Some by (auto simp: ext4_close_def unwrap_def split_beta)
  qed (simp add: ext4_close_def rm)
qed

lemma ext4_path_ops_total:
  assumes "lib_total L"
  shows "\<exists>e'. ext4_mkdir L p e = Some e'" and "\<exists>e'. ext4_unlink L p e = Some e'" and "\<exists>r e'. ext4_open L p fl e = Some (r, e')"
proof -
  obtain n k where "fst (dir_mk L p (file_new L p EXT4_DE_DIR) (ext_fs e)) = Inr n" "fst (file_remove L p (file_new L p EXT4_DE_DIR) (ext_fs e)) = Inr k"
    using assms unfolding lib_total_def by blast
  then show "\<exists>e'. ext4_mkdir L p e = Some e'" "\<exists>e'. ext4_unlink L p e = Some e'"
    by (auto simp: ext4_mkdir_def ext4_unlink_def unwrap_def split_beta)
  show "\<exists>r e'. ext4_open L p fl e = Some (r, e')"
    by (auto simp: ext4_open_def Let_def split: prod.splits bool.splits sum.splits)
qed

lemma ext4_stat_total: "\<exists>st e'. ext4_stat L i e = Some (st, e')"
  by (cases "st_get L (stores e) i") (simp_all add: ext4_stat_def split_beta Let_def)

lemmas ext4_ops_total = ext4_write_total ext4_read_total ext4_close_total ext4_path_ops_total

lemma test_hello_file_total:
  assumes "kernel_typed P kern" and "machine_typed P m" and "lib_total L"
  shows "\<exists>e' m'. test_hello_file kern L inode e m = Some (e', m') \<and> machine_typed P m'"
proof -
  note ops = ext4_ops_total [OF assms(3)]
  obtain n e1 where w: "ext4_write_at L inode 0 hello_data e = Some (n, e1)" using ops(1) by blast
  obtain k buf e2 where r: "ext4_read_at L inode 0 (replicate 64 0) e1 = Some ((k, buf), e2)" "length buf = 64" "unat k \<le> 64"
    using ops(2) [of inode 0 "replicate 64 0" e1] by auto
  obtain st e3 where "ext4_stat L inode e2 = Some (st, e3)" using ext4_stat_total by blast
  moreover obtain e4 where "ext4_close L inode e3 = Some e4" using ops(3) by blast
  ultimately show ?thesis
    using assms(1,2) w r by (auto simp: test_hello_file_def outs_text sub_slice_def intro!: typed_intros)
qed

lemma test_lwext4_task_total:
  assumes "kernel_typed P kern" and "machine_typed P m" and "lib_total L" and "mounts_image M img"
    and "length disk = RAMDISK_SIZE" and "drop 512 (take (length img) disk) = drop 512 img"
  shows "\<exists>disk' m'. test_lwext4_task kern L M disk m = Some (disk', m') \<and> length disk' = RAMDISK_SIZE \<and> machine_typed P m'"
proof -
  note ops = ext4_ops_total [OF assms(3)]
  obtain f where "mount_disk M disk = Some f" using assms(4-6) unfolding mounts_image_def by blast
  then obtain e0 where e0: "ext4fs_new M disk = Some e0" by (simp add: ext4fs_new_def)
  obtain e1 where e1: "ext4_mkdir L (str ''/test'') e0 = Some e1" using ops(4) by blast
  obtain r e2 where op: "ext4_open L (str ''/test/hello.txt'') 0x242 e1 = Some (r, e2)" using ops(6) by blast
  let ?m2 = "seL4_DebugPutString kern (text_of [Inl ''  mkdir /test: OK\<newline>''])
    (seL4_DebugPutString kern (text_of [Inl ''\<newline>[lwext4-task] Testing ext4 filesystem...\<newline>'']) m)"
  have m2: "machine_typed P ?m2" using assms(1,2) by (intro typed_intros)
  have "\<exists>e3 m3. (case r of Inr (inode, _) \<Rightarrow> test_hello_file kern L inode e2 ?m2
      | Inl err \<Rightarrow> map_option (Pair e2) (say_open_failed kern err ?m2)) = Some (e3, m3) \<and> machine_typed P m3"
  proof (cases r)
    case (Inl err)
    then show ?thesis using assms(1) m2 by (auto simp: say_open_failed_def outs_text intro!: typed_intros)
  next
    case (Inr x)
    then show ?thesis using test_hello_file_total [OF assms(1) m2 assms(3)] by (cases x) simp
  qed
  then obtain e3 m3 where "(case r of Inr (inode, _) \<Rightarrow> test_hello_file kern L inode e2 ?m2
      | Inl err \<Rightarrow> map_option (Pair e2) (say_open_failed kern err ?m2)) = Some (e3, m3)" and m3: "machine_typed P m3" by blast
  then have "test_lwext4_task kern L M disk m =
      Some (unmount_disk M (ext_fs e3), seL4_DebugPutString kern (text_of [Inl ''[lwext4-task] Test completed.\<newline>'']) m3)"
    using e0 e1 op by (simp add: test_lwext4_task_def outs_text)
  moreover have "length (unmount_disk M (ext_fs e3)) = RAMDISK_SIZE" using assms(4) by (simp add: mounts_image_def unmounts_disk_def)
  ultimately show ?thesis using assms(1) m3 by (auto intro!: typed_intros)
qed

lemma repeat_write_total: "lib_total L \<Longrightarrow> \<exists>e'. repeat_write L i dat n e = Some e'"
proof (induction n arbitrary: e)
  case (Suc n)
  then show ?case using ext4_ops_total(1) [OF Suc.prems, of i 0 dat e] by auto
qed simp

lemma repeat_read_total: "lib_total L \<Longrightarrow> \<exists>e'. repeat_read L i n buf e = Some e'"
proof (induction n arbitrary: buf e)
  case (Suc n)
  then show ?case using ext4_ops_total(2) [OF Suc.prems, of i 0 buf e] by auto
qed simp

lemma bench_size_total:
  assumes "tsc_keeps P hw" and "kernel_typed P kern" and "machine_typed P m" and "lib_total L"
  shows "\<exists>e' m'. bench_size kern hw L sz (e, m) = Some (e', m') \<and> machine_typed P m'"
proof -
  note ops = ext4_ops_total [OF assms(4)]
  obtain r e1 where op: "ext4_open L (str ''/bench/test.bin'') 0x242 e = Some (r, e1)" using ops(6) by blast
  show ?thesis
  proof (cases r)
    case (Inl err)
    obtain e3 where "ext4_unlink L (str ''/bench/test.bin'') e1 = Some e3" using ops(5) by blast
    then show ?thesis using assms(1-3) op Inl
      by (auto simp: bench_size_def say_open_failed_def outs_text split_beta Let_def intro!: typed_intros)
  next
    case (Inr x)
    obtain inode s where x: "x = (inode, s)" by (cases x)
    obtain ea where ea: "repeat_write L inode (replicate sz 0xA5) 10 e1 = Some ea" using repeat_write_total [OF assms(4)] by blast
    obtain eb where eb: "repeat_read L inode 10 (replicate sz 0) ea = Some eb" using repeat_read_total [OF assms(4)] by blast
    obtain ec where ec: "ext4_close L inode eb = Some ec" using ops(3) by blast
    obtain e3 where "ext4_unlink L (str ''/bench/test.bin'') ec = Some e3" using ops(5) by blast
    then show ?thesis using assms(1-3) op Inr x ea eb ec
      by (auto simp: bench_size_def outs_text split_beta Let_def intro!: typed_intros)
  qed
qed

lemma bench_sizes_total:
  assumes "tsc_keeps P hw" and "kernel_typed P kern" and "machine_typed P m" and "lib_total L"
  shows "\<exists>e' m'. bench_sizes kern hw L szs (e, m) = Some (e', m') \<and> machine_typed P m'"
  using assms(3)
proof (induction szs arbitrary: e m)
  case (Cons sz szs)
  from bench_size_total [OF assms(1) assms(2) Cons.prems assms(4), of sz e] obtain e1 m1 where
    "bench_size kern hw L sz (e, m) = Some (e1, m1)" "machine_typed P m1" by blast
  with Cons.IH show ?case by simp
qed simp

lemma bench_lwext4_task_total:
  assumes "tsc_keeps P hw" and "kernel_typed P kern" and "machine_typed P m" and "lib_total L" and "mounts_image M img"
    and "length disk = RAMDISK_SIZE" and "length img \<le> RAMDISK_SIZE"
  shows "\<exists>disk' m'. bench_lwext4_task kern hw L M img disk m = Some (disk', m') \<and> length disk' = RAMDISK_SIZE \<and> machine_typed P m'"
proof -
  have "length (init_from_image img disk) = RAMDISK_SIZE" "take (length img) (init_from_image img disk) = img"
    using assms(6,7) by (simp_all add: init_from_image_def copy_slice_def)
  then obtain f where "mount_disk M (init_from_image img disk) = Some f" using assms(5) unfolding mounts_image_def by auto
  then obtain e0 where e0: "ext4fs_new M (init_from_image img disk) = Some e0" by (simp add: ext4fs_new_def)
  obtain e1 where e1: "ext4_mkdir L (str ''/bench'') e0 = Some e1" using ext4_ops_total(4) [OF assms(4)] by blast
  let ?m1 = "seL4_DebugPutString kern (text_of [Inl ''\<newline>[bench] ext4 filesystem benchmark...\<newline>'']) m"
  have "machine_typed P ?m1" using assms(2,3) by (intro typed_intros)
  from bench_sizes_total [OF assms(1) assms(2) this assms(4)] obtain e2 m2 where
    "bench_sizes kern hw L [512, 1024, 4096] (e1, ?m1) = Some (e2, m2)" and m2: "machine_typed P m2" by blast
  then have "bench_lwext4_task kern hw L M img disk m =
      Some (unmount_disk M (ext_fs e2), seL4_DebugPutString kern (text_of [Inl ''[bench] ext4 benchmark completed.\<newline>'']) m2)"
    using e0 e1 by (simp add: bench_lwext4_task_def outs_text del: bench_sizes.simps)
  moreover have "length (unmount_disk M (ext_fs e2)) = RAMDISK_SIZE" using assms(5) by (simp add: mounts_image_def unmounts_disk_def)
  ultimately show ?thesis using assms(2) m2 by (auto intro!: typed_intros)
qed

end
