(* ===== verification/Root_Main.thy ===== *)
theory Root_Main
  imports Root_Tests
begin

text \<open>
  The program of the root task (\<^verbatim>\<open>root-task/src/main.rs\<close>): the entry point, the report on the system, the sequence of
  tests and benchmarks up to the shell, the shell, and the shutdown. The state is the slot manager behind its spin lock,
  the RAM disk, the object pool of the layer, and the layer with the machine.

  \<open>None\<close> is a panic or a loop that never ends; the final \<^verbatim>\<open>loop { spin_loop() }\<close> after the halt is not modelled, the result
  is the state in which it starts.
\<close>

record 'k root =
  root_slots :: "root_slot_manager simple_mutex"
  root_disk :: bytes
  root_pool :: obj_pool
  root_layer :: "'k lcl"

abbreviation root_machine :: "'k root \<Rightarrow> 'k machine" where
  "root_machine s \<equiv> machine (root_layer s)"

definition set_machine :: "'k machine \<Rightarrow> 'k root \<Rightarrow> 'k root" where
  "set_machine m s = s\<lparr> root_layer := (root_layer s)\<lparr> machine := m \<rparr> \<rparr>"

definition say_root :: "'k kernel \<Rightarrow> (string + u64) list \<Rightarrow> 'k root \<Rightarrow> 'k root option" where
  "say_root kern items s = map_option (\<lambda>m. set_machine m s) (outs kern items (root_machine s))"

text \<open>A step on the disk and the machine.\<close>

definition on_disk :: "(bytes \<Rightarrow> 'k machine \<Rightarrow> (bytes \<times> 'k machine) option) \<Rightarrow> 'k root \<Rightarrow> 'k root option" where
  "on_disk f s = map_option (\<lambda>(d, m). set_machine m (s\<lparr> root_disk := d \<rparr>)) (f (root_disk s) (root_machine s))"

section \<open>The report on the system\<close>

definition ROOT_HEAP_SIZE :: usize where "ROOT_HEAP_SIZE = 0x100000"

definition heap_size :: usize where
  "heap_size = ROOT_HEAP_SIZE"

definition bootinfo_freq_items :: "u32 option \<Rightarrow> (string + u64) list" where
  "bootinfo_freq_items freq =
     (case freq of
        Some freq_mhz \<Rightarrow> [Inl ''  TSC frequency (bootinfo): '', Inr (ucast freq_mhz * 1000000), Inl '' Hz ('', Inr (ucast freq_mhz), Inl '' MHz)\<newline>'']
      | None \<Rightarrow> [Inl ''  TSC frequency (bootinfo): not available\<newline>''])"

definition cpuid_freq_items :: "'k cpu_insns \<Rightarrow> (string + u64) list" where
  "cpuid_freq_items hw =
     (case cpuid_tsc_freq hw of
        Some freq_hz \<Rightarrow> [Inl ''  TSC frequency (CPUID 0x15): '', Inr freq_hz, Inl '' Hz ('', Inr (freq_hz div 1000000), Inl '' MHz)\<newline>'']
      | None \<Rightarrow> [Inl ''  TSC frequency (CPUID 0x15): not available\<newline>'']) @
     (case cpuid_base_freq_mhz hw of
        Some base_mhz \<Rightarrow> [Inl ''  CPU base frequency (CPUID 0x16): '', Inr (ucast base_mhz * 1000000), Inl '' Hz ('', Inr (ucast base_mhz), Inl '' MHz)\<newline>'']
      | None \<Rightarrow> [Inl ''  CPU base frequency (CPUID 0x16): not available\<newline>''])"

text \<open>The guard of the slot manager lives to the end of the function.\<close>

definition print_system_info ::
  "'k kernel \<Rightarrow> 'k ram \<Rightarrow> 'k cpu_insns \<Rightarrow> usize \<Rightarrow> boot_info \<Rightarrow> 'k root \<Rightarrow> 'k root option" where
  "print_system_info kern ram hw bi_frame_vptr bi s =
     do {
       s1 \<leftarrow> say_root kern [Inl ''=== System Information ===\<newline>'', Inl ''  Architecture: x86_64\<newline>''] s;
       sm \<leftarrow> mutex_lock (root_slots s1);
       s2 \<leftarrow> say_root kern [Inl ''  Free capability slots: '', Inr (rsm_available (mu_data sm)), Inl ''\<newline>'',
         Inl ''  Page size: 4096 bytes\<newline>'', Inl ''  Heap size: '', Inr heap_size, Inl '' bytes\<newline>'',
         Inl ''  Stack base: (in .bss)\<newline>'', Inl ''  IPC buffer size: '', Inr (of_nat IPC_BUFFER_SIZE), Inl '' bytes\<newline>'']
         (s1\<lparr> root_slots := sm \<rparr>);
       freq \<leftarrow> get_tsc_freq_mhz ram bi_frame_vptr bi (root_machine s2);
       s3 \<leftarrow> say_root kern (bootinfo_freq_items freq) s2;
       s4 \<leftarrow> say_root kern (cpuid_freq_items hw) s3;
       s5 \<leftarrow> say_root kern [Inl ''===========================\<newline>''] s4;
       Some (s5\<lparr> root_slots := mutex_drop (root_slots s5) \<rparr>)
     }"

section \<open>The program\<close>

text \<open>\<^verbatim>\<open>{ let mut sm = SLOT_MANAGER.lock(); *sm = SlotManager::new(start, end); }\<close>\<close>

definition reset_slots :: "boot_info \<Rightarrow> 'k root \<Rightarrow> 'k root option" where
  "reset_slots bi s =
     do {
       sm \<leftarrow> mutex_lock (root_slots s);
       Some (s\<lparr> root_slots := mutex_drop (sm\<lparr> mu_data := root_slot_manager_new (sr_start (empty_slots bi)) (sr_end (empty_slots bi)) \<rparr>) \<rparr>)
     }"

definition read_counter :: "'k cpu_insns \<Rightarrow> 'k root \<Rightarrow> u64 \<times> 'k root" where
  "read_counter hw s = (let (t, m) = rdtsc hw (root_machine s) in (t, set_machine m s))"

definition self_test :: "'k kernel \<Rightarrow> 'k root \<Rightarrow> 'k root option" where
  "self_test kern s =
     do {
       ((passed, failed), m) \<leftarrow> run_sel4_sys_tests kern (root_machine s);
       say_root kern [Inl ''\<newline>----------------------------------------\<newline>'', Inl ''  Results: '', Inr (of_nat passed), Inl '' passed, '',
         Inr (of_nat failed), Inl '' failed'', Inl (if failed > 0 then '' (SOME TESTS FAILED)\<newline>'' else '' (all tests passed)\<newline>''),
         Inl ''----------------------------------------\<newline>\<newline>''] (set_machine m s)
     }"

text \<open>The tests and benchmarks of \<^verbatim>\<open>main\<close> on the disk and the layer, in their order.\<close>

definition run_stages ::
  "'k kernel \<Rightarrow> 'k cpu_insns \<Rightarrow> ('f, 'h, 's, 'z) ext4_lib_scheme \<Rightarrow> ('f, 's) ext4_mount \<Rightarrow> bytes \<Rightarrow> bytes \<Rightarrow> 'k root \<Rightarrow> 'k root option" where
  "run_stages kern hw L M ext4_img busybox s8 =
     do {
       s9 \<leftarrow> on_disk (test_blk_task kern) s8;
       s10 \<leftarrow> on_disk (test_lwext4_task kern L M) s9;
       (pool, l) \<leftarrow> test_lcl kern busybox (root_pool s10) (root_layer s10);
       s11 \<leftarrow> on_disk (bench_blk_task kern hw) (s10\<lparr> root_pool := pool, root_layer := l \<rparr>);
       on_disk (bench_lwext4_task kern hw L M ext4_img) s11
     }"

text \<open>\<^verbatim>\<open>main\<close> up to \<^verbatim>\<open>test_busybox\<close>, with the counter it read first.\<close>

definition start_up ::
  "'k kernel \<Rightarrow> 'k ram \<Rightarrow> 'k cpu_insns \<Rightarrow> ('f, 'h, 's, 'z) ext4_lib_scheme \<Rightarrow> ('f, 's) ext4_mount \<Rightarrow> bytes \<Rightarrow> bytes \<Rightarrow> usize \<Rightarrow>
   boot_info \<Rightarrow> 'k root \<Rightarrow> (u64 \<times> 'k root) option" where
  "start_up kern ram hw L M ext4_img busybox bi_frame_vptr bi s =
     do {
       s1 \<leftarrow> say_root kern [Inl ''[main] empty slots: '', Inr (sr_start (empty_slots bi)), Inl ''..'', Inr (sr_end (empty_slots bi)),
         Inl '' untyped: '', Inr (untyped_start bi), Inl ''\<newline>''] s;
       s2 \<leftarrow> reset_slots bi s1;
       s3 \<leftarrow> say_root kern [Inl ''\<newline>========================================\<newline>'', Inl ''  rel4-linux-kit -- seL4 x86_64 Tests\<newline>'',
         Inl ''========================================\<newline>\<newline>''] s2;
       let (tsc, s4) = read_counter hw s3;
       s5 \<leftarrow> say_root kern [Inl ''[main] TSC: '', Inr tsc, Inl ''\<newline>''] s4;
       s6 \<leftarrow> self_test kern s5;
       s7 \<leftarrow> print_system_info kern ram hw bi_frame_vptr bi s6;
       s8 \<leftarrow> say_root kern [Inl ''[blk-task] ramdisk initialized with ext4 image\<newline>''] (s7\<lparr> root_disk := init_from_image ext4_img (root_disk s7) \<rparr>);
       s9 \<leftarrow> run_stages kern hw L M ext4_img busybox s8;
       Some (tsc, s9)
     }"

definition run_shell :: "'k kernel \<Rightarrow> 'k ram \<Rightarrow> boot_info \<Rightarrow> bytes \<Rightarrow> 'k root \<Rightarrow> 'k root option" where
  "run_shell kern ram bi busybox s =
     do {
       (c, r) \<leftarrow> test_busybox kern ram bi busybox (FS_CLIENT (root_layer s)) \<lparr> rt_pool = root_pool s, rt_machine = root_machine s \<rparr>;
       Some (s\<lparr> root_pool := rt_pool r, root_layer := (root_layer s)\<lparr> FS_CLIENT := c, machine := rt_machine r \<rparr> \<rparr>)
     }"

text \<open>The end of \<^verbatim>\<open>main\<close>: the elapsed time, the debug-exit port of the emulator, the halt.\<close>

definition shut_down :: "'k kernel \<Rightarrow> 'k cpu_insns \<Rightarrow> u64 \<Rightarrow> 'k root \<Rightarrow> 'k root option" where
  "shut_down kern hw tsc s =
     (let (tsc_end, s1) = read_counter hw s
      in do {
        s2 \<leftarrow> say_root kern [Inl ''\<newline>[main] TSC end: '', Inr tsc_end, Inl '' (elapsed: '', Inr (tsc_end - tsc), Inl '' cycles)\<newline>'',
          Inl ''\<newline>Root task completed successfully.\<newline>'', Inl ''Shutting down.\<newline>\<newline>''] s1;
        let (slot, pool) = op_alloc (root_pool s2);
        io_slot \<leftarrow> slot;
        (_, m1) \<leftarrow> seL4_X86_IOPortControl_Issue kern 7 0x501 0x502 2 io_slot 64 (root_machine s2);
        (_, m2) \<leftarrow> seL4_X86_IOPort_Out16 kern io_slot 0x501 0x0001 m1;
        Some (set_machine (seL4_DebugHalt kern m2) (s2\<lparr> root_pool := pool \<rparr>))
      })"

definition root_main ::
  "'k kernel \<Rightarrow> 'k ram \<Rightarrow> 'k cpu_insns \<Rightarrow> ('f, 'h, 's, 'z) ext4_lib_scheme \<Rightarrow> ('f, 's) ext4_mount \<Rightarrow> bytes \<Rightarrow> bytes \<Rightarrow> usize \<Rightarrow>
   boot_info \<Rightarrow> 'k root \<Rightarrow> 'k root option" where
  "root_main kern ram hw L M ext4_img busybox bi_frame_vptr bi s =
     do {
       (tsc, s1) \<leftarrow> start_up kern ram hw L M ext4_img busybox bi_frame_vptr bi s;
       s2 \<leftarrow> run_shell kern ram bi busybox s1;
       shut_down kern hw tsc s2
     }"

text \<open>\<^verbatim>\<open>rust_entry\<close>: \<open>b\<close> is the page below the boot information, which becomes the IPC buffer.\<close>

definition root_entry ::
  "'k kernel \<Rightarrow> 'k ram \<Rightarrow> 'k cpu_insns \<Rightarrow> ('f, 'h, 's, 'z) ext4_lib_scheme \<Rightarrow> ('f, 's) ext4_mount \<Rightarrow> bytes \<Rightarrow> bytes \<Rightarrow> usize \<Rightarrow>
   boot_info \<Rightarrow> ipc_buffer \<Rightarrow> 'k root \<Rightarrow> 'k root option" where
  "root_entry kern ram hw L M ext4_img busybox bi_frame_vptr bi b s =
     root_main kern ram hw L M ext4_img busybox bi_frame_vptr bi (set_machine (init_ipc_buffer b (root_machine s)) s)"

section \<open>Lemmas\<close>

lemma set_machine_simps [simp]:
  "root_machine (set_machine m s) = m" "set_machine m (set_machine m' s) = set_machine m s"
  "root_slots (set_machine m s) = root_slots s" "root_disk (set_machine m s) = root_disk s" "root_pool (set_machine m s) = root_pool s"
  "root_layer (set_machine m s) = (root_layer s)\<lparr> machine := m \<rparr>"
  "(set_machine m s)\<lparr> root_slots := mu \<rparr> = set_machine m (s\<lparr> root_slots := mu \<rparr>)"
  "(set_machine m s)\<lparr> root_disk := d \<rparr> = set_machine m (s\<lparr> root_disk := d \<rparr>)"
  "(set_machine m s)\<lparr> root_pool := p \<rparr> = set_machine m (s\<lparr> root_pool := p \<rparr>)"
  by (simp_all add: set_machine_def)

lemma say_root_text: "say_root kern items s = Some (set_machine (seL4_DebugPutString kern (text_of items) (root_machine s)) s)"
  by (simp add: say_root_def outs_text)

lemma reset_slots_free:
  "\<not> mu_locked (root_slots s) \<Longrightarrow>
   reset_slots bi s = Some (s\<lparr> root_slots := mutex_new (root_slot_manager_new (sr_start (empty_slots bi)) (sr_end (empty_slots bi))) \<rparr>)"
  by (simp add: reset_slots_def mutex_lock_free mutex_drop_def mutex_new_def)

lemma self_test_total:
  assumes "kernel_typed P kern" and "machine_typed P (root_machine s)"
  shows "\<exists>m'. self_test kern s = Some (set_machine m' s) \<and> machine_typed P m'"
proof -
  note self_tests_pass [OF assms]
  then show ?thesis using assms(1) by (auto simp: self_test_def say_root_text intro!: typed_intros)
qed

text \<open>The part of the world the report reads: the extra pages of the boot information.\<close>

definition boot_pages :: "'k ram \<Rightarrow> usize \<Rightarrow> extra_record list \<Rightarrow> 'k \<Rightarrow> bool" where
  "boot_pages ram bi_frame_vptr rs k \<longleftrightarrow>
     mem_slice (\<lambda>a. ld ram a k) (bi_frame_vptr + 4096) (length (region_bytes rs)) = region_bytes rs"

definition extra_info_ok :: "boot_info \<Rightarrow> extra_record list \<Rightarrow> bool" where
  "extra_info_ok bi rs \<longleftrightarrow> (\<forall>r \<in> set rs. record_ok r) \<and> unat (bi_extra_len bi) = length (region_bytes rs) \<and> unat (bi_extra_len bi) + 16 < 2 ^ 64"

lemma freq_known:
  assumes "machine_typed (boot_pages ram f rs) m" and "extra_info_ok bi rs"
  shows "\<exists>freq. get_tsc_freq_mhz ram f bi m = Some freq"
proof (cases "bi_extra_len bi = 0")
  case False
  have "mem_slice (load_byte ram m) (f + 4096) (length (region_bytes rs)) = region_bytes rs"
    using assms(1) by (simp add: machine_typed_def boot_pages_def load_byte_def [abs_def])
  then show ?thesis
    using tsc_walk_records [of "load_byte ram m" "f + 4096" 0 rs "bi_extra_len bi"] assms(2) False
    by (simp add: get_tsc_freq_mhz_def extra_info_ok_def)
qed (simp add: get_tsc_freq_mhz_def)

lemma print_system_info_total:
  assumes "kernel_typed (boot_pages ram f rs) kern" and "machine_typed (boot_pages ram f rs) (root_machine s)" and "extra_info_ok bi rs"
    and "\<not> mu_locked (root_slots s)"
  shows "\<exists>m'. print_system_info kern ram hw f bi s = Some (set_machine m' s) \<and> machine_typed (boot_pages ram f rs) m'"
proof -
  let ?P = "boot_pages ram f rs"
  have put: "machine_typed ?P (seL4_DebugPutString kern t m)" if "machine_typed ?P m" for t m
    using assms(1) that by (rule putstring_typed)
  let ?m1 = "seL4_DebugPutString kern (text_of [Inl ''=== System Information ===\<newline>'', Inl ''  Architecture: x86_64\<newline>'']) (root_machine s)"
  let ?m2 = "seL4_DebugPutString kern (text_of [Inl ''  Free capability slots: '', Inr (rsm_available (mu_data (root_slots s))), Inl ''\<newline>'',
         Inl ''  Page size: 4096 bytes\<newline>'', Inl ''  Heap size: '', Inr heap_size, Inl '' bytes\<newline>'',
         Inl ''  Stack base: (in .bss)\<newline>'', Inl ''  IPC buffer size: '', Inr (of_nat IPC_BUFFER_SIZE), Inl '' bytes\<newline>'']) ?m1"
  have m2: "machine_typed ?P ?m2" using assms(2) by (intro put)
  from freq_known [OF this assms(3)] obtain freq where freq: "get_tsc_freq_mhz ram f bi ?m2 = Some freq" by blast
  have same: "s\<lparr> root_slots := mutex_drop ((root_slots s)\<lparr> mu_locked := True \<rparr>) \<rparr> = s"
    using assms(4) by (simp add: mutex_drop_def)
  have "print_system_info kern ram hw f bi s =
      Some (set_machine (seL4_DebugPutString kern (text_of [Inl ''===========================\<newline>''])
        (seL4_DebugPutString kern (text_of (cpuid_freq_items hw)) (seL4_DebugPutString kern (text_of (bootinfo_freq_items freq)) ?m2))) s)"
    using freq assms(4) by (simp add: print_system_info_def say_root_text mutex_lock_free same)
  moreover have "machine_typed ?P (seL4_DebugPutString kern (text_of [Inl ''===========================\<newline>''])
        (seL4_DebugPutString kern (text_of (cpuid_freq_items hw)) (seL4_DebugPutString kern (text_of (bootinfo_freq_items freq)) ?m2)))"
    by (intro put m2)
  ultimately show ?thesis by blast
qed

text \<open>What the start-up leaves: the slot manager of the boot information, the pool less two slots, the clock at 150.\<close>

definition started :: "('k \<Rightarrow> bool) \<Rightarrow> boot_info \<Rightarrow> 'k root \<Rightarrow> 'k root \<Rightarrow> bool" where
  "started P bi s s' \<longleftrightarrow>
     root_slots s' = mutex_new (root_slot_manager_new (sr_start (empty_slots bi)) (sr_end (empty_slots bi))) \<and>
     root_pool s' = snd (op_alloc (snd (op_alloc (root_pool s)))) \<and> length (root_disk s') = RAMDISK_SIZE \<and>
     (\<exists>m'. root_layer s' = (root_layer s)\<lparr> CURRENT_TIME_MS := 150, machine := m' \<rparr>) \<and> machine_typed P (root_machine s')"

lemma image_disk:
  assumes "length disk = RAMDISK_SIZE" and "length img \<le> RAMDISK_SIZE" and "512 \<le> length img"
  defines "d \<equiv> copy_slice (init_from_image img disk) 0 blk_test_block"
  shows "length d = RAMDISK_SIZE" and "drop 512 (take (length img) d) = drop 512 img"
proof -
  have "init_from_image img disk = img @ drop (length img) disk"
    using assms(2) by (simp add: init_from_image_def copy_slice_def)
  then have d: "d = blk_test_block @ drop 512 img @ drop (length img) disk"
    using assms(3) by (simp add: d_def copy_slice_def)
  show "length d = RAMDISK_SIZE" using d assms(1-3) by simp
  show "drop 512 (take (length img) d) = drop 512 img" using d assms(3) by simp
qed

lemma run_stages_cases:
  assumes typed: "kernel_typed P kern" "tsc_keeps P hw" "machine_typed P (root_machine s)"
    and fs: "unmounts_disk M" and disk: "length (root_disk s) = RAMDISK_SIZE"
    and elf: "busybox_header_ok busybox" "32 \<le> length busybox" "CURRENT_TIME_MS (root_layer s) = 0"
  obtains (go) d m' where "run_stages kern hw L M img busybox s =
      Some (s\<lparr> root_disk := d, root_pool := snd (op_alloc (snd (op_alloc (root_pool s)))),
               root_layer := (root_layer s)\<lparr> CURRENT_TIME_MS := 150, machine := m' \<rparr> \<rparr>)"
      and "length d = RAMDISK_SIZE" and "machine_typed P m'"
  | (test) m where "run_stages kern hw L M img busybox s = None" and "machine_typed P m"
      and "test_lwext4_task kern L M (copy_slice (root_disk s) 0 blk_test_block) m = None"
  | (bench) d m where "run_stages kern hw L M img busybox s = None" and "machine_typed P m" and "length d = RAMDISK_SIZE"
      and "bench_lwext4_task kern hw L M img d m = None"
proof -
  let ?d9 = "copy_slice (root_disk s) 0 blk_test_block" and ?m9 = "seL4_DebugPutString kern blk_test_transcript (root_machine s)"
  note t9 = test_blk_task_exact [OF disk, of kern "root_machine s"]
  have m9: "machine_typed P ?m9" by (intro typed_intros typed)
  show thesis
  proof (cases "test_lwext4_task kern L M ?d9 ?m9")
    case None
    then show thesis using test [OF _ m9] t9 by (simp add: run_stages_def on_disk_def)
  next
    case (Some x)
    obtain d10 m10 where x: "x = (d10, m10)" by (cases x)
    note t10 = test_lwext4_task_typed [OF typed(1) m9 fs Some [unfolded x]]
    let ?t = "lcl_transcript (from_le (take 8 (drop 24 busybox)))"
    let ?m = "seL4_DebugPutString kern ?t m10" and ?pool = "snd (op_alloc (snd (op_alloc (root_pool s))))"
    let ?l = "\<lambda>m. (root_layer s)\<lparr> CURRENT_TIME_MS := 150, machine := m \<rparr>"
    have lcl: "test_lcl kern busybox (root_pool s) ((root_layer s)\<lparr> machine := m10 \<rparr>) = Some (?pool, ?l ?m)"
      using elf by (simp add: test_lcl_exact)
    have m: "machine_typed P ?m" using t10 by (intro typed_intros typed) simp
    from bench_blk_task_total [OF typed(2,1) m] t10 obtain d11 m11 where
      t11: "bench_blk_task kern hw d10 ?m = Some (d11, m11)" "length d11 = RAMDISK_SIZE" "machine_typed P m11" by blast
    have run: "run_stages kern hw L M img busybox s = map_option (\<lambda>(d, m). s\<lparr> root_disk := d, root_pool := ?pool, root_layer := ?l m \<rparr>)
        (bench_lwext4_task kern hw L M img d11 m11)"
      using t9 Some x lcl t11(1)
      by (cases "bench_lwext4_task kern hw L M img d11 m11") (auto simp: run_stages_def on_disk_def set_machine_def)
    show thesis
    proof (cases "bench_lwext4_task kern hw L M img d11 m11")
      case None
      then show thesis using bench [OF _ t11(3,2)] run by simp
    next
      case (Some y)
      obtain d12 m12 where y: "y = (d12, m12)" by (cases y)
      then show thesis using go [of m12 d12] run Some bench_lwext4_task_typed [OF typed(2,1) t11(3) fs Some [unfolded y]] by simp
    qed
  qed
qed

section \<open>Properties\<close>

text \<open>
  C14. The root task reaches the shell unless its file-system test or benchmark panics. The hypotheses: the kernel and the time stamp
  counter keep the IPC buffer well typed and the boot pages; the extra boot information is a sequence of well-formed records; the
  slot manager's lock is free; the disk is an array of its size and the image fits it; the embedded program has the ELF header
  the test asserts; the layer's clock stands at 0. Nothing is assumed of the results of the file-system library. Then
  start-up does not wait on its own lock, every test and benchmark outside the file system passes or ends, and either it
  reaches the shell, with the slot manager unlocked and handing out exactly the empty slots of the boot information, two slots
  of the pool taken, the layer's clock at 150 ms, the disk of its length and the machine well typed; or it panics, and then it is
  the file-system test on the disk with the test block in place of the image's first, or the file-system benchmark that panics.
\<close>

theorem start_up_reaches_shell:
  assumes typed: "kernel_typed (boot_pages ram f rs) kern" "tsc_keeps (boot_pages ram f rs) hw" "machine_typed (boot_pages ram f rs) (root_machine s)"
    and extra: "extra_info_ok bi rs" and free: "\<not> mu_locked (root_slots s)"
    and fs: "unmounts_disk M" "length img \<le> RAMDISK_SIZE" "length (root_disk s) = RAMDISK_SIZE"
    and elf: "busybox_header_ok busybox" "32 \<le> length busybox" and clock: "CURRENT_TIME_MS (root_layer s) = 0"
  shows "(\<exists>tsc s'. start_up kern ram hw L M img busybox f bi s = Some (tsc, s') \<and> started (boot_pages ram f rs) bi s s') \<or>
    start_up kern ram hw L M img busybox f bi s = None \<and>
    (\<exists>m. machine_typed (boot_pages ram f rs) m \<and>
       (test_lwext4_task kern L M (copy_slice (init_from_image img (root_disk s)) 0 blk_test_block) m = None \<or>
        (\<exists>d. length d = RAMDISK_SIZE \<and> bench_lwext4_task kern hw L M img d m = None)))"
proof -
  let ?P = "boot_pages ram f rs"
  let ?mu = "mutex_new (root_slot_manager_new (sr_start (empty_slots bi)) (sr_end (empty_slots bi)))"
  let ?s2 = "\<lambda>m. set_machine m (s\<lparr> root_slots := ?mu \<rparr>)"
  define m1 where "m1 = seL4_DebugPutString kern (text_of [Inl ''[main] empty slots: '', Inr (sr_start (empty_slots bi)), Inl ''..'',
    Inr (sr_end (empty_slots bi)), Inl '' untyped: '', Inr (untyped_start bi), Inl ''\<newline>'']) (root_machine s)"
  define m3 where "m3 = seL4_DebugPutString kern (text_of [Inl ''\<newline>========================================\<newline>'',
    Inl ''  rel4-linux-kit -- seL4 x86_64 Tests\<newline>'', Inl ''========================================\<newline>\<newline>'']) m1"
  define t m4 where "t = fst (rdtsc hw m3)" and "m4 = snd (rdtsc hw m3)"
  define m5 where "m5 = seL4_DebugPutString kern (text_of [Inl ''[main] TSC: '', Inr t, Inl ''\<newline>'']) m4"
  have "machine_typed ?P m1" unfolding m1_def by (intro typed_intros typed)
  then have "machine_typed ?P m3" unfolding m3_def by (intro typed_intros typed)
  then have "machine_typed ?P m4" unfolding m4_def by (intro typed_intros typed)
  then have "machine_typed ?P m5" unfolding m5_def by (intro typed_intros typed)
  then obtain m6 where s6: "self_test kern (?s2 m5) = Some (?s2 m6)" and m6: "machine_typed ?P m6"
    using self_test_total [OF typed(1), of "?s2 m5"] by auto
  obtain m7 where s7: "print_system_info kern ram hw f bi (?s2 m6) = Some (?s2 m7)" and m7: "machine_typed ?P m7"
    using print_system_info_total [OF typed(1) _ extra, of "?s2 m6" hw] m6 by (auto simp: mutex_new_def)
  define m8 where "m8 = seL4_DebugPutString kern (text_of [Inl ''[blk-task] ramdisk initialized with ext4 image\<newline>'']) m7"
  have m8: "machine_typed ?P m8" unfolding m8_def by (intro typed_intros typed m7)
  let ?s8 = "set_machine m8 (s\<lparr> root_slots := ?mu, root_disk := init_from_image img (root_disk s) \<rparr>)"
  have run: "start_up kern ram hw L M img busybox f bi s = map_option (Pair t) (run_stages kern hw L M img busybox ?s8)"
    using s6 s7 free
    by (simp add: start_up_def say_root_text reset_slots_free read_counter_def split_beta Let_def m1_def [symmetric] m3_def [symmetric]
      t_def [symmetric] m4_def [symmetric] m5_def [symmetric] m8_def [symmetric] map_conv_bind_option comp_def)
  have pre: "machine_typed ?P (root_machine ?s8)" "length (root_disk ?s8) = RAMDISK_SIZE" "CURRENT_TIME_MS (root_layer ?s8) = 0"
    using m8 fs clock by (simp_all add: init_from_image_def copy_slice_def)
  from typed(1,2) pre(1) fs(1) pre(2) elf pre(3) show ?thesis
  proof (cases rule: run_stages_cases [where L = L and img = img])
    case (go d m')
    then show ?thesis using run by (auto simp: started_def)
  next
    case (test m)
    then show ?thesis using run by auto
  next
    case (bench d m)
    then show ?thesis using run by auto
  qed
qed

text \<open>A library whose every operation succeeds on files that stay empty, and a machine with two records behind the boot information.\<close>

definition null_lib :: "(unit, unit, unit) ext4_lib" where
  "null_lib = \<lparr> O_CREAT = 0x40, O_TRUNC = 0x200, file_new = (\<lambda>_ _. ()), check_inode_exist = (\<lambda>_ _ h f. (True, h, f)),
     file_open = (\<lambda>_ _ h f. (Inr 0, h, f)), file_size = (\<lambda>h f. (0, h, f)), file_seek = (\<lambda>_ _ h f. (Inr 0, h, f)),
     file_read = (\<lambda>buf h f. (Inr (0, buf), h, f)), file_write = (\<lambda>_ h f. (Inr 0, h, f)), file_close = (\<lambda>h f. (Inr 0, h, f)),
     dir_mk = (\<lambda>_ h f. (Inr 0, h, f)), file_remove = (\<lambda>_ h f. (Inr 0, h, f)), file_mode_get = (\<lambda>h f. (Inr 0, h, f)),
     lwext4_dir_entries = (\<lambda>h f. (Inr ([], []), h, f)), st_add = (\<lambda>_ s. (Some 1, s)), st_get = (\<lambda>_ _. Some ()),
     st_set = (\<lambda>_ _ s. s), st_remove = (\<lambda>_ s. (Some (), s)) \<rparr>"

definition null_mount :: "(unit, unit) ext4_mount" where
  "null_mount = \<lparr> mount_disk = (\<lambda>_. Some ()), unmount_disk = (\<lambda>_. ramdisk_zero), no_files = () \<rparr>"

definition idle_kernel :: "(usize \<Rightarrow> u8) kernel" where
  "idle_kernel c b k = (c, b, k)"

definition idle_cpu :: "(usize \<Rightarrow> u8) cpu_insns" where
  "idle_cpu = \<lparr> insn_rdtsc = (\<lambda>k. ((7, 0), k)), insn_cpuid = (\<lambda>_. (0, 0, 0, 0)) \<rparr>"

definition tiny_elf :: bytes where
  "tiny_elf = elf_magic @ [2, 1, 1] @ replicate 9 0 @ [2, 0, 0x3E] @ replicate 13 0"

definition sample_root :: "(usize \<Rightarrow> u8) root" where
  "sample_root = \<lparr> root_slots = mutex_new ROOT_SLOT_MANAGER, root_disk = ramdisk_zero, root_pool = obj_pool_new,
     root_layer = \<lparr> TASK_MAP = bt_empty, TIME_QUEUE = [], CURRENT_TIME_MS = 0, FS_CLIENT = fs_client_new,
       machine = machine_with (region_bytes sample_records) \<rparr> \<rparr>"

theorem start_up_reaches_shell_witness:
  "\<exists>tsc s'. start_up idle_kernel flat_ram idle_cpu null_lib null_mount (replicate 1024 0) tiny_elf 0x10000
      (sample_boot_info\<lparr> bi_extra_len := 37 \<rparr>) sample_root = Some (tsc, s') \<and>
    started (boot_pages flat_ram 0x10000 sample_records) (sample_boot_info\<lparr> bi_extra_len := 37 \<rparr>) sample_root s'"
proof -
  let ?P = "boot_pages flat_ram 0x10000 sample_records" and ?img = "replicate 1024 (0 :: u8)"
  have typed: "kernel_typed ?P idle_kernel" "tsc_keeps ?P idle_cpu"
    by (simp_all add: kernel_typed_def idle_kernel_def tsc_keeps_def idle_cpu_def)
  have m: "machine_typed ?P (root_machine sample_root)"
    using machine_with_slice [of "region_bytes sample_records"]
    by (simp add: machine_typed_def sample_root_def boot_pages_def load_byte_def [abs_def] length_sample_records)
       (simp add: machine_with_def)
  have extra: "extra_info_ok (sample_boot_info\<lparr> bi_extra_len := 37 \<rparr>) sample_records"
    by (simp add: extra_info_ok_def length_sample_records) (simp add: sample_records_def record_ok_def)
  have fs: "lib_total null_lib" "mounts_image null_mount ?img" "unmounts_disk null_mount" "length ?img \<le> RAMDISK_SIZE" "512 \<le> length ?img"
    "length (root_disk sample_root) = RAMDISK_SIZE"
    by (simp_all add: lib_total_def null_lib_def mounts_image_def unmounts_disk_def null_mount_def ramdisk_zero_def sample_root_def RAMDISK_SIZE_def)
  have elf: "busybox_header_ok tiny_elf" "32 \<le> length tiny_elf"
    by (simp_all add: busybox_header_ok_def tiny_elf_def elf_magic_def sub_slice_def index_def str_def nth_append)
  have rest: "\<not> mu_locked (root_slots sample_root)" "CURRENT_TIME_MS (root_layer sample_root) = 0"
    by (simp_all add: sample_root_def mutex_new_def)
  have "test_lwext4_task idle_kernel null_lib null_mount (copy_slice (init_from_image ?img (root_disk sample_root)) 0 blk_test_block) m \<noteq> None"
    if "machine_typed ?P m" for m
    using test_lwext4_task_total [OF typed(1) that fs(1,2) image_disk [OF fs(6,4,5)]] by auto
  moreover have "bench_lwext4_task idle_kernel idle_cpu null_lib null_mount ?img d m \<noteq> None"
    if "machine_typed ?P m" "length d = RAMDISK_SIZE" for d m
    using bench_lwext4_task_total [OF typed(2,1) that(1) fs(1,2) that(2) fs(4)] by auto
  ultimately show ?thesis
    using start_up_reaches_shell [OF typed m extra rest(1) fs(3,4,6) elf rest(2), of null_lib] by blast
qed

end
