(* ===== verification/Ipc_Bench.thy ===== *)
theory Ipc_Bench
  imports Root_Main
begin

text \<open>
  The IPC benchmark of the root task (\<^verbatim>\<open>root-task/src/benchmark.rs\<close>), which \<^verbatim>\<open>main\<close> leaves commented out: it creates a
  worker thread with its stack, IPC buffer, endpoint and notification, starts it, and times calls and signals. The
  addresses of the two entry points of the worker, which are assembly, are parameters.

  A step returns \<open>None\<close> when the program panics or spins on a lock, and otherwise an optional result that is \<open>None\<close> after
  an early \<^verbatim>\<open>return\<close>.
\<close>

section \<open>Steps\<close>

record 'k bench =
  bn_slots :: "root_slot_manager simple_mutex"
  bn_machine :: "'k machine"

type_synonym ('a, 'k) bstep = "'k bench \<Rightarrow> ('a option \<times> 'k bench) option"

definition bgive :: "'a \<Rightarrow> ('a, 'k) bstep" where
  "bgive x s = Some (Some x, s)"

definition bthen :: "('a, 'k) bstep \<Rightarrow> ('a \<Rightarrow> ('b, 'k) bstep) \<Rightarrow> ('b, 'k) bstep" where
  "bthen f g s =
     (case f s of
        None \<Rightarrow> None
      | Some (None, s') \<Rightarrow> Some (None, s')
      | Some (Some x, s') \<Rightarrow> g x s')"

definition bcall :: "('k machine \<Rightarrow> ('a \<times> 'k machine) option) \<Rightarrow> ('a, 'k) bstep" where
  "bcall f s = map_option (\<lambda>(x, m). (Some x, s\<lparr> bn_machine := m \<rparr>)) (f (bn_machine s))"

definition bsay :: "'k kernel \<Rightarrow> (string + u64) list \<Rightarrow> (unit, 'k) bstep" where
  "bsay kern items = bcall (\<lambda>m. map_option (Pair ()) (outs kern items m))"

definition bfail :: "'k kernel \<Rightarrow> (string + u64) list \<Rightarrow> ('a, 'k) bstep" where
  "bfail kern items s = map_option (\<lambda>(_, s'). (None, s')) (bsay kern items s)"

text \<open>\<^verbatim>\<open>if err != 0 { print; return; }\<close>\<close>

definition brequire :: "'k kernel \<Rightarrow> bool \<Rightarrow> (string + u64) list \<Rightarrow> (unit, 'k) bstep" where
  "brequire kern ok items = (if ok then bgive () else bfail kern items)"

primrec beach :: "('a \<Rightarrow> (unit, 'k) bstep) \<Rightarrow> 'a list \<Rightarrow> (unit, 'k) bstep" where
  "beach f [] = bgive ()"
| "beach f (x # xs) = bthen (f x) (\<lambda>_. beach f xs)"

text \<open>\<open>n\<close> times \<^verbatim>\<open>sm.alloc().unwrap()\<close> under one guard of the slot manager.\<close>

definition bench_slots :: "nat \<Rightarrow> (usize list, 'k) bstep" where
  "bench_slots n s =
     do {
       mu \<leftarrow> mutex_lock (bn_slots s);
       (slots, sm) \<leftarrow> alloc_many (opt_alloc rsm_alloc) n (mu_data mu);
       Some (Some slots, s\<lparr> bn_slots := mutex_drop (mu\<lparr> mu_data := sm \<rparr>) \<rparr>)
     }"

section \<open>Kernel objects\<close>

definition BENCH_STACK_VADDR :: usize where "BENCH_STACK_VADDR = 0xF10000"
definition BENCH_IPC_BUF_VADDR :: usize where "BENCH_IPC_BUF_VADDR = 0xF11000"
definition CNODE_DEPTH :: usize where "CNODE_DEPTH = 64"

definition find_untyped :: "boot_info \<Rightarrow> object_type \<Rightarrow> usize option option" where
  "find_untyped bi ty = map_option (map_option fst) (find_free_untyped bi (ucast (size_bits ty)))"

definition retype_into :: "'k kernel \<Rightarrow> usize \<Rightarrow> object_type \<Rightarrow> usize \<Rightarrow> (usize, 'k) bstep" where
  "retype_into kern ut ty slot =
     bcall (seL4_Untyped_Retype kern ut (object_type_word ty) (size_bits ty) init_CNODE init_CNODE CNODE_DEPTH slot 1)"

text \<open>The body of the loop over the five objects.\<close>

definition create_object :: "'k kernel \<Rightarrow> boot_info \<Rightarrow> string \<times> object_type \<times> usize \<Rightarrow> (unit, 'k) bstep" where
  "create_object kern bi obj s =
     (let (name, ty, slot) = obj
      in case find_untyped bi ty of
           None \<Rightarrow> None
         | Some None \<Rightarrow> bfail kern [Inl ''  FAILED no untyped for '', Inl name, Inl ''\<newline>''] s
         | Some (Some ut) \<Rightarrow>
             bthen (retype_into kern ut ty slot) (\<lambda>err.
             brequire kern (err = 0) [Inl ''  FAILED creating '', Inl name, Inl '' err='', Inr err, Inl ''\<newline>'']) s)"

definition bench_objects :: "usize list \<Rightarrow> (string \<times> object_type \<times> usize) list" where
  "bench_objects slots =
     (let tcb_slot = slots ! 0; ep_slot = slots ! 1; ntfn_slot = slots ! 2; stack_frame_slot = slots ! 3; ipc_frame_slot = slots ! 4
      in [(''TCB'', TCB, tcb_slot), (''stack frame'', Frame4K, stack_frame_slot), (''IPC buf frame'', Frame4K, ipc_frame_slot),
          (''Endpoint'', Endpoint, ep_slot), (''Notification'', Notification, ntfn_slot)])"

definition bench_page_table :: "'k kernel \<Rightarrow> boot_info \<Rightarrow> (unit, 'k) bstep" where
  "bench_page_table kern bi =
     bthen (bench_slots 1) (\<lambda>slots.
     let pt_slot = slots ! 0
     in (\<lambda>s. case find_untyped bi PageTable of
          None \<Rightarrow> None
        | Some None \<Rightarrow> bfail kern [Inl ''  FAILED no untyped for PageTable\<newline>''] s
        | Some (Some pt_ut) \<Rightarrow>
            bthen (retype_into kern pt_ut PageTable pt_slot) (\<lambda>err.
            bthen (brequire kern (err = 0) [Inl ''  FAILED creating PageTable\<newline>'']) (\<lambda>_.
            bthen (bcall (seL4_PageTable_Map kern pt_slot init_VSPACE 0xF00000 0)) (\<lambda>err.
            brequire kern (err = 0) [Inl ''  FAILED mapping PageTable\<newline>'']))) s))"

definition map_frame_at :: "'k kernel \<Rightarrow> usize \<Rightarrow> usize \<Rightarrow> string \<Rightarrow> (unit, 'k) bstep" where
  "map_frame_at kern slot vaddr name =
     bthen (bcall (seL4_Frame_Map kern slot init_VSPACE vaddr (cr_bits CapRights_ALL) 0)) (\<lambda>err.
     brequire kern (err = 0) [Inl (''  FAILED mapping '' @ name @ ''\<newline>'')])"

text \<open>
  \<^verbatim>\<open>*worker_ipc = IpcBuffer::new(); worker_ipc.set_receive_slot(CNODE, 0, 64)\<close>: a page of zeros, then the three words of the
  receive slot, which start 1000 bytes into the structure.
\<close>

definition init_worker_ipc :: "'k ram \<Rightarrow> 'k machine \<Rightarrow> 'k machine" where
  "init_worker_ipc ram m =
     store_word ram (BENCH_IPC_BUF_VADDR + 1016) CNODE_DEPTH (store_word ram (BENCH_IPC_BUF_VADDR + 1008) 0
       (store_word ram (BENCH_IPC_BUF_VADDR + 1000) init_CNODE (zero_page ram BENCH_IPC_BUF_VADDR m)))"

definition configure_worker :: "'k kernel \<Rightarrow> usize \<Rightarrow> usize \<Rightarrow> (unit, 'k) bstep" where
  "configure_worker kern tcb_slot ipc_frame_slot =
     bthen (bcall (seL4_TCB_Configure kern tcb_slot 0 init_CNODE 0 init_VSPACE BENCH_IPC_BUF_VADDR ipc_frame_slot)) (\<lambda>err.
     bthen (brequire kern (err = 0) [Inl ''  FAILED TCB_Configure err='', Inr err, Inl ''\<newline>'']) (\<lambda>_.
     bthen (bcall (seL4_TCB_SetSchedParams kern tcb_slot init_TCB 255 255)) (\<lambda>err.
     bthen (brequire kern (err = 0) [Inl ''  FAILED SetSchedParams err='', Inr err, Inl ''\<newline>'']) (\<lambda>_.
     bsay kern [Inl ''  TCB configured OK\<newline>'']))))"

definition bench_setup :: "'k kernel \<Rightarrow> 'k ram \<Rightarrow> boot_info \<Rightarrow> (usize \<times> usize \<times> usize, 'k) bstep" where
  "bench_setup kern ram bi =
     bthen (bench_slots 5) (\<lambda>slots.
     bthen (bsay kern [Inl ''[mt-bench] setting up kernel objects ...\<newline>'']) (\<lambda>_.
     bthen (beach (create_object kern bi) (bench_objects slots)) (\<lambda>_.
     bthen (bsay kern [Inl ''  kernel objects OK\<newline>'']) (\<lambda>_.
     bthen (bench_page_table kern bi) (\<lambda>_.
     bthen (map_frame_at kern (slots ! 3) BENCH_STACK_VADDR ''stack'') (\<lambda>_.
     bthen (map_frame_at kern (slots ! 4) BENCH_IPC_BUF_VADDR ''IPC buf'') (\<lambda>_.
     bthen (bsay kern [Inl ''  page mappings OK\<newline>'']) (\<lambda>_.
     bthen (bcall (\<lambda>m. Some ((), init_worker_ipc ram m))) (\<lambda>_.
     bthen (configure_worker kern (slots ! 0) (slots ! 4)) (\<lambda>_.
     bgive (slots ! 0, slots ! 1, slots ! 2)))))))))))"

section \<open>Measurement\<close>

definition ITERATIONS :: nat where "ITERATIONS = 10000"

text \<open>The register frames: instruction pointer, stack pointer, flags, and the capability in RDI and R12 (R10 for calls).\<close>

definition ep_regs :: "usize \<Rightarrow> usize \<Rightarrow> usize list" where
  "ep_regs entry ep_slot =
     (replicate 18 0)[0 := entry, 1 := BENCH_STACK_VADDR + PAGE_SIZE, 2 := 0x202, 8 := ep_slot, 12 := ep_slot, 14 := ep_slot]"

definition ntfn_regs :: "usize \<Rightarrow> usize \<Rightarrow> usize list" where
  "ntfn_regs entry ntfn_slot =
     (replicate 18 0)[0 := entry, 1 := BENCH_STACK_VADDR + PAGE_SIZE, 2 := 0x202, 8 := ntfn_slot, 14 := ntfn_slot]"

definition start_worker :: "'k kernel \<Rightarrow> usize \<Rightarrow> usize list \<Rightarrow> string \<Rightarrow> (unit, 'k) bstep" where
  "start_worker kern tcb_slot regs failed =
     bthen (bcall (seL4_TCB_WriteRegisters kern tcb_slot True 0 18 regs)) (\<lambda>err.
     bthen (brequire kern (err = 0) [Inl failed]) (\<lambda>_.
     bsay kern [Inl ''OK\<newline>'']))"

definition timed :: "'k cpu_insns \<Rightarrow> ('k machine \<Rightarrow> 'k machine) \<Rightarrow> 'k machine \<Rightarrow> u64 \<times> 'k machine" where
  "timed hw op m =
     (let (t0, m1) = rdtsc hw m; (t1, m2) = rdtsc hw ((op ^^ ITERATIONS) m1)
      in ((t1 - t0) div of_nat ITERATIONS, m2))"

definition measure_op :: "'k kernel \<Rightarrow> 'k cpu_insns \<Rightarrow> ('k machine \<Rightarrow> 'k machine) \<Rightarrow> string \<Rightarrow> (u64, 'k) bstep" where
  "measure_op kern hw op banner =
     bthen (bcall (\<lambda>m. Some ((), (op ^^ 100) m))) (\<lambda>_.
     bthen (bsay kern [Inl banner]) (\<lambda>_.
     bcall (\<lambda>m. Some (timed hw op m))))"

definition report_items :: "u64 \<Rightarrow> u64 \<Rightarrow> (string + u64) list" where
  "report_items ep_cycles ntfn_cycles =
     [Inl ''\<newline>=== Multi-threaded IPC Benchmark ===\<newline>'', Inl ''  Iterations: '', Inr (of_nat ITERATIONS), Inl ''\<newline>\<newline>'',
      Inl ''  Endpoint (Call/ReplyRecv):     '', Inr ep_cycles, Inl '' cycles/round-trip\<newline>'',
      Inl ''  Notification (Signal/Wait):    '', Inr ntfn_cycles, Inl '' cycles/round-trip\<newline>'',
      Inl ''\<newline>  Endpoint overhead vs Notification: ''] @
     (if ep_cycles > ntfn_cycles then [Inr (ep_cycles - ntfn_cycles), Inl '' cycles'']
      else [Inl ''-'', Inr (ntfn_cycles - ep_cycles), Inl '' cycles'']) @
     (if ntfn_cycles > 0
      then let ratio_x10 = ep_cycles * 10 div ntfn_cycles
           in [Inl ''\<newline>  Endpoint/Notification ratio: '', Inr (ratio_x10 div 10), Inl ''.'', Inr (ratio_x10 mod 10), Inl ''x'']
      else []) @
     [Inl ''\<newline>=====================================\<newline>\<newline>'']"

definition bench_run ::
  "'k kernel \<Rightarrow> 'k ram \<Rightarrow> 'k cpu_insns \<Rightarrow> usize \<Rightarrow> usize \<Rightarrow> boot_info \<Rightarrow> (unit, 'k) bstep" where
  "bench_run kern ram hw worker_ep_entry worker_ntfn_entry bi =
     bthen (bench_setup kern ram bi) (\<lambda>(tcb_slot, ep_slot, ntfn_slot).
     bthen (bsay kern [Inl ''[mt-bench] starting Endpoint worker ... '']) (\<lambda>_.
     bthen (start_worker kern tcb_slot (ep_regs worker_ep_entry ep_slot) ''FAILED (WriteRegisters)\<newline>'') (\<lambda>_.
     bthen (measure_op kern hw (\<lambda>m. snd (seL4_Call kern ep_slot 0 m)) ''[mt-bench] benchmarking Endpoint Call/ReplyRecv ...\<newline>'') (\<lambda>ep_cycles.
     bthen (bsay kern [Inl ''[mt-bench] switching worker to Notification ... '']) (\<lambda>_.
     bthen (start_worker kern tcb_slot (ntfn_regs worker_ntfn_entry ntfn_slot) ''FAILED\<newline>'') (\<lambda>_.
     bthen (measure_op kern hw (seL4_Signal kern ntfn_slot) ''[mt-bench] benchmarking Notification Signal/Wait ...\<newline>'') (\<lambda>ntfn_cycles.
     bsay kern (report_items ep_cycles ntfn_cycles))))))))"

section \<open>Lemmas\<close>

text \<open>
  The setting of a step: the IPC buffer is installed, the lock is free and at least \<open>k\<close> slots are left. \<open>runs k f k'\<close> says
  that the step ends from there, with a result or an early return, and leaves at least \<open>k'\<close> slots.
\<close>

definition bench_ready :: "nat \<Rightarrow> 'k bench \<Rightarrow> bool" where
  "bench_ready k s \<longleftrightarrow> ipc_set (bn_machine s) \<and> \<not> mu_locked (bn_slots s) \<and>
     k \<le> card {rsm_next (mu_data (bn_slots s))..<rsm_end (mu_data (bn_slots s))}"

definition runs :: "nat \<Rightarrow> ('a, 'k) bstep \<Rightarrow> nat \<Rightarrow> bool" where
  "runs k f k' \<longleftrightarrow> (\<forall>s. bench_ready k s \<longrightarrow> (\<exists>r s'. f s = Some (r, s') \<and> bench_ready k' s'))"

text \<open>A machine operation that returns and leaves the IPC buffer installed.\<close>

definition serves :: "('k machine \<Rightarrow> ('a \<times> 'k machine) option) \<Rightarrow> bool" where
  "serves f \<longleftrightarrow> (\<forall>m. ipc_set m \<longrightarrow> (\<exists>x m'. f m = Some (x, m') \<and> ipc_set m'))"

named_theorems bench_runs \<open>steps of the benchmark that end\<close>

lemma runs_bgive [bench_runs]: "runs k (bgive x) k"
  by (simp add: runs_def bgive_def)

lemma runs_bthen:
  assumes "runs k f k1" and "\<And>x. runs k1 (g x) k2" and "k2 \<le> k1"
  shows "runs k (bthen f g) k2"
  unfolding runs_def
proof (intro allI impI)
  fix s :: "'a bench"
  assume "bench_ready k s"
  then obtain r s1 where f: "f s = Some (r, s1)" "bench_ready k1 s1" using assms(1) by (auto simp: runs_def)
  show "\<exists>r s'. bthen f g s = Some (r, s') \<and> bench_ready k2 s'"
  proof (cases r)
    case None
    then show ?thesis using f assms(3) by (auto simp: bthen_def bench_ready_def)
  next
    case (Some x)
    then show ?thesis using f assms(2) by (auto simp: bthen_def runs_def)
  qed
qed

lemmas runs_same [bench_runs] = runs_bthen [OF _ _ order_refl]

lemma runs_bcall: "serves f \<Longrightarrow> runs k (bcall f) k"
  unfolding runs_def
proof (intro allI impI)
  fix s :: "'a bench"
  assume "serves f" "bench_ready k s"
  then obtain x m' where "f (bn_machine s) = Some (x, m')" "ipc_set m'" by (auto simp: serves_def bench_ready_def)
  then show "\<exists>r s'. bcall f s = Some (r, s') \<and> bench_ready k s'"
    using \<open>bench_ready k s\<close> by (simp add: bcall_def bench_ready_def)
qed

lemma putstring_ipc_set [simp]: "ipc_set (seL4_DebugPutString kern t m) = ipc_set m"
proof -
  have "ipc_set (fold (seL4_DebugPutChar kern) cs m) = ipc_set m" for cs
    by (induction cs arbitrary: m) (simp_all add: seL4_DebugPutChar_def syscall_insn_def split_beta)
  then show ?thesis by (simp add: seL4_DebugPutString_def)
qed

lemma runs_bsay [bench_runs]: "runs k (bsay kern items) k"
  unfolding bsay_def by (rule runs_bcall) (simp add: serves_def outs_text)

lemma runs_bfail [bench_runs]: "runs k (bfail kern items) k"
  using runs_bsay [of k kern items] by (auto simp: runs_def bfail_def)

lemma runs_brequire [bench_runs]: "runs k (brequire kern ok items) k"
  by (simp add: brequire_def bench_runs)

lemma runs_beach [bench_runs]: "(\<And>x. runs k (f x) k) \<Longrightarrow> runs k (beach f xs) k"
  by (induction xs) (simp_all add: bench_runs)

lemma serves_cap_invoke: "serves (cap_invoke kern dest label mrs)"
  by (simp add: serves_def cap_invoke_def seL4_syscall_with_buf_def seL4_syscall_def syscall_insn_def split_beta Let_def)

lemma serves_cap_invoke_with_extra: "serves (cap_invoke_with_extra kern dest label mrs caps)"
  by (simp add: serves_def cap_invoke_with_extra_def seL4_syscall_with_caps_def seL4_syscall_def syscall_insn_def split_beta Let_def)

lemma kernel_calls_run [bench_runs]:
  "runs k (retype_into kern ut ty slot) k" "runs k (bcall (seL4_PageTable_Map kern a b c d)) k"
  "runs k (bcall (seL4_Frame_Map kern a b c e d)) k" "runs k (bcall (seL4_TCB_Configure kern t a b c d e f)) k"
  "runs k (bcall (seL4_TCB_SetSchedParams kern t a p q)) k"
  unfolding retype_into_def seL4_Untyped_Retype_def seL4_PageTable_Map_def seL4_Frame_Map_def seL4_TCB_Configure_def seL4_TCB_SetSchedParams_def
  by (intro runs_bcall serves_cap_invoke serves_cap_invoke_with_extra)+

lemma write_registers_run [bench_runs]: "runs k (bcall (seL4_TCB_WriteRegisters kern t resume 0 18 regs)) k"
proof -
  have "seL4_TCB_WriteRegisters kern t resume 0 18 regs =
    cap_invoke kern t 3 (of_bool resume # of_nat (min (length regs) 18) # take (min (length regs) 18) regs)"
    by (rule ext) (simp add: seL4_TCB_WriteRegisters_def Let_def)
  then show ?thesis by (simp only: runs_bcall serves_cap_invoke)
qed

lemma ready_weaken: "bench_ready k s \<Longrightarrow> k' \<le> k \<Longrightarrow> bench_ready k' s"
  by (simp add: bench_ready_def)

lemma bench_slots_runs: "runs (n + k) (bench_slots n) k"
  unfolding runs_def
proof (intro allI impI)
  fix s :: "'a bench"
  let ?sm = "mu_data (bn_slots s)"
  let ?free = "\<lambda>sm. {rsm_next sm..<rsm_end sm}"
  assume ready: "bench_ready (n + k) s"
  then have "n \<le> card (?free ?sm)" by (simp add: bench_ready_def)
  from root_slots_distinct [OF this] obtain ss sm' where
    a: "alloc_many (opt_alloc rsm_alloc) n ?sm = Some (ss, sm')" "length ss = n" "distinct ss" "set ss \<subseteq> ?free ?sm" "?free sm' = ?free ?sm - set ss"
    by blast
  have "card (?free sm') = card (?free ?sm) - n"
    unfolding a(5) using a(2-4) by (simp only: card_Diff_subset finite_set distinct_card)
  then have "k \<le> card (?free sm')" using ready by (auto simp: bench_ready_def)
  then show "\<exists>r s'. bench_slots n s = Some (r, s') \<and> bench_ready k s'"
    using a(1) ready by (simp add: bench_slots_def bench_ready_def mutex_lock_free mutex_drop_def)
qed

lemma find_untyped_total:
  assumes "boot_info_ok bi" and "unat (untyped_count bi) \<le> MAX_UNTYPED_CAPS"
  shows "\<exists>r. find_untyped bi ty = Some r"
proof -
  have "\<forall>i \<in> set [0..<unat (untyped_count bi)]. i < length (bi_untyped_list bi)"
    using assms by (auto simp: boot_info_ok_def)
  then show ?thesis by (simp add: find_untyped_def find_free_untyped_def find_loop_find)
qed

lemma create_object_runs [bench_runs]:
  assumes "boot_info_ok bi" and "unat (untyped_count bi) \<le> MAX_UNTYPED_CAPS"
  shows "runs k (create_object kern bi obj) k"
proof -
  obtain name ty slot where o: "obj = (name, ty, slot)" by (cases obj)
  obtain r where r: "find_untyped bi ty = Some r" using find_untyped_total [OF assms] by blast
  show ?thesis
  proof (cases r)
    case None
    then have "create_object kern bi obj = bfail kern [Inl ''  FAILED no untyped for '', Inl name, Inl ''\<newline>'']"
      using r by (intro ext) (simp add: create_object_def o)
    then show ?thesis by (simp only: runs_bfail)
  next
    case (Some ut)
    then have "create_object kern bi obj = bthen (retype_into kern ut ty slot) (\<lambda>err.
      brequire kern (err = 0) [Inl ''  FAILED creating '', Inl name, Inl '' err='', Inr err, Inl ''\<newline>''])"
      using r by (intro ext) (simp add: create_object_def o)
    then show ?thesis by (simp only:) (intro bench_runs)
  qed
qed

lemma bench_page_table_runs:
  assumes "boot_info_ok bi" and "unat (untyped_count bi) \<le> MAX_UNTYPED_CAPS"
  shows "runs (1 + k) (bench_page_table kern bi) k"
proof -
  obtain r where r: "find_untyped bi PageTable = Some r" using find_untyped_total [OF assms] by blast
  show ?thesis
    unfolding bench_page_table_def r Let_def
    by (rule runs_same [OF bench_slots_runs], cases r) (simp_all, (intro bench_runs)+)
qed

lemma init_worker_ipc_runs [bench_runs]: "runs k (bcall (\<lambda>m. Some ((), init_worker_ipc ram m))) k"
  by (rule runs_bcall) (simp add: serves_def init_worker_ipc_def store_word_def zero_page_def)

lemma worker_runs [bench_runs]:
  "runs k (map_frame_at kern slot a name) k" "runs k (configure_worker kern t slot) k" "runs k (start_worker kern t rs failed) k"
  unfolding map_frame_at_def configure_worker_def start_worker_def by (intro bench_runs)+

lemma bench_setup_runs:
  assumes "boot_info_ok bi" and "unat (untyped_count bi) \<le> MAX_UNTYPED_CAPS"
  shows "runs (6 + k) (bench_setup kern ram bi) k"
proof -
  have slots: "runs (6 + k) (bench_slots 5) (1 + k)" using bench_slots_runs [of 5 "1 + k"] by (simp add: add.assoc [symmetric])
  note steps = runs_bthen [OF runs_bsay] runs_bthen [OF runs_beach [OF create_object_runs [OF assms]]]
  show ?thesis
    unfolding bench_setup_def
    by (rule runs_bthen [OF slots], (rule steps)+, rule runs_same [OF bench_page_table_runs [OF assms]]) ((intro bench_runs)+, simp_all)
qed

text \<open>Repeating an operation that keeps the IPC buffer installed.\<close>

lemma measure_op_runs:
  assumes "\<And>m. ipc_set (op m) = ipc_set m"
  shows "runs k (measure_op kern hw op banner) k"
proof -
  have iter: "ipc_set ((op ^^ n) m) = ipc_set m" for n m by (induction n) (simp_all add: assms)
  have t: "ipc_set (snd (timed hw op m)) = ipc_set m" for m by (simp add: timed_def rdtsc_def iter split_beta Let_def)
  have "serves (\<lambda>m. Some (timed hw op m))" "serves (\<lambda>m. Some ((), (op ^^ 100) m))"
    by (auto simp: serves_def iter) (metis prod.collapse t)
  then show ?thesis unfolding measure_op_def by (intro bench_runs runs_bcall)
qed

lemma ipc_calls_keep_buffer [simp]:
  "ipc_set (snd (seL4_Call kern dest i m)) = ipc_set m" "ipc_set (seL4_Signal kern dest m) = ipc_set m"
  by (simp_all add: seL4_Call_def seL4_Signal_def sys_send2_def sys_send1_def syscall_insn_def split_beta Let_def)

section \<open>Properties\<close>

text \<open>
  A search that finds memory large enough for the frames serves every object that is not larger, so all five objects are
  carved from one untyped capability where the first ordinary one is that large.
\<close>

lemma bench_objects_share_untyped:
  "(name, ty, slot) \<in> set (bench_objects slots) \<Longrightarrow> find_untyped sample_boot_info ty = Some (Some 41)"
  by (auto simp: bench_objects_def find_untyped_def find_free_untyped_def sample_boot_info_def untyped_count_def untyped_start_def
    sr_count_def get_untyped_desc_def index_def upt_rec)

text \<open>
  C36. The benchmark ends: over every kernel, processor and memory, with a boot information of at most 230 untyped
  capabilities, the lock free and at least six slots left, the run neither panics nor waits on its own lock, whatever
  errors the kernel returns. It takes at most six slots, and leaves the lock free and the IPC buffer installed.
\<close>

theorem bench_run_ends:
  assumes "boot_info_ok bi" and "unat (untyped_count bi) \<le> MAX_UNTYPED_CAPS" and "bench_ready (6 + k) s"
  shows "\<exists>r s'. bench_run kern ram hw ep_entry ntfn_entry bi s = Some (r, s') \<and> bench_ready k s'"
proof -
  have "runs (6 + k) (bench_run kern ram hw ep_entry ntfn_entry bi) k"
    unfolding bench_run_def split_def
    by (rule runs_same [OF bench_setup_runs [OF assms(1,2)]]) (intro bench_runs measure_op_runs; simp)
  with assms(3) show ?thesis by (auto simp: runs_def)
qed

lemma card_word_range: "card {a..<b :: usize} = unat b - unat a"
proof -
  have "unat ` {a..<b} = {unat a..<unat b}"
  proof (intro equalityI subsetI)
    fix n
    assume n: "n \<in> {unat a..<unat b}"
    then have "n < 2 ^ 64" using unat_less_64 [of b] by (auto intro: less_trans)
    then have "unat (of_nat n :: usize) = n" by (simp add: unat_of_nat take_bit_nat_eq_self)
    with n show "n \<in> unat ` {a..<b}" by (intro image_eqI [of _ _ "of_nat n"]) (auto simp: word_le_nat_alt word_less_nat_alt)
  qed (auto simp: word_le_nat_alt word_less_nat_alt)
  moreover have "inj_on unat {a..<b}" by (rule inj_onI) (rule word_unat_eq_iff [THEN iffD2])
  ultimately show ?thesis using card_image [of unat "{a..<b}"] by simp
qed

definition sample_bench :: "(usize \<Rightarrow> u8) bench" where
  "sample_bench = \<lparr> bn_slots = mutex_new (root_slot_manager_new 100 120), bn_machine = machine_with [] \<rparr>"

theorem bench_run_ends_witness:
  "\<exists>r s'. bench_run idle_kernel flat_ram idle_cpu 0x400000 0x401000 sample_boot_info sample_bench = Some (r, s') \<and> bench_ready 14 s'"
proof (rule bench_run_ends)
  show "boot_info_ok sample_boot_info" "unat (untyped_count sample_boot_info) \<le> MAX_UNTYPED_CAPS"
    by (simp_all add: sample_boot_info_def untyped_count_def sr_count_def MAX_UNTYPED_CAPS_def boot_info_ok_def)
  show "bench_ready (6 + 14) sample_bench"
    by (simp add: bench_ready_def sample_bench_def mutex_new_def root_slot_manager_new_def machine_with_def card_word_range)
qed

end
