(* ===== verification/Services.thy ===== *)
theory Services
  imports Root_Main
begin

text \<open>
  The small parts around the servers: the entry points of the two tasks that only start
  (\<^verbatim>\<open>lcl/src/main.rs\<close>, \<^verbatim>\<open>lwext4-task/src/main.rs\<close>), the panic handlers up to their final endless loop, and the helpers of the
  common crates (\<^verbatim>\<open>common/src/macros.rs\<close>, \<^verbatim>\<open>root.rs\<close>, \<^verbatim>\<open>log_impl.rs\<close>, \<^verbatim>\<open>sel4-ulib/src/lib.rs\<close>).
\<close>

section \<open>Entry points\<close>

text \<open>\<^verbatim>\<open>rust_entry\<close> of the layer's own image: it announces itself and halts.\<close>

definition lcl_entry :: "'k kernel \<Rightarrow> 'k machine \<Rightarrow> 'k machine" where
  "lcl_entry kern m =
     seL4_DebugHalt kern
       (seL4_DebugPutString kern (str ''[lcl] Test completed.\<newline>'')
         (seL4_DebugPutString kern (str ''[lcl] Ready to run Linux binaries\<newline>'')
           (seL4_DebugPutString kern (str ''[lcl] Initialization complete\<newline>'')
             (seL4_DebugPutString kern (str ''[lcl] Linux Compatible Layer started\<newline>'') m))))"

text \<open>\<^verbatim>\<open>rust_entry\<close> of the file system task: it mounts the disk, and panics when that fails.\<close>

definition lwext4_entry ::
  "'k kernel \<Rightarrow> ('f, 's) ext4_mount \<Rightarrow> bytes \<Rightarrow> 'k machine \<Rightarrow> (('f, 's) ext4fs \<times> 'k machine) option" where
  "lwext4_entry kern M disk m =
     (let m1 = seL4_DebugPutString kern (str ''[lwext4-task] started\<newline>'') m
      in do {
        e \<leftarrow> ext4fs_new M disk;
        Some (e, seL4_DebugPutString kern (str ''[lwext4-task] ext4 initialized\<newline>'') m1)
      })"

section \<open>Panic handlers\<close>

text \<open>The location is the file and the line; the message is only tested for being a plain string.\<close>

definition root_panic :: "'k kernel \<Rightarrow> (string \<times> u32) option \<Rightarrow> bool \<Rightarrow> 'k machine \<Rightarrow> 'k machine option" where
  "root_panic kern location plain m =
     do {
       m1 \<leftarrow> outs kern [Inl ''\<newline>\<newline>=== PANIC ===\<newline>''] m;
       m2 \<leftarrow> (case location of
          Some (file, line) \<Rightarrow> outs kern [Inl ''Location: '', Inl file, Inl '':'', Inr (ucast line), Inl ''\<newline>''] m1
        | None \<Rightarrow> Some m1);
       m3 \<leftarrow> (if plain then outs kern [Inl ''Message: (see panic info above)\<newline>''] m2 else Some m2);
       outs kern [Inl ''System halted.\<newline>''] m3
     }"

definition lcl_panic :: "'k kernel \<Rightarrow> 'k machine \<Rightarrow> 'k machine" where
  "lcl_panic kern m = seL4_DebugPutString kern (str ''[lcl] PANIC\<newline>'') m"

definition lwext4_panic :: "'k kernel \<Rightarrow> 'k machine \<Rightarrow> 'k machine" where
  "lwext4_panic kern m = seL4_DebugPutString kern (str ''[lwext4-task] PANIC\<newline>'') m"

definition blk_panic :: "'k kernel \<Rightarrow> 'k machine \<Rightarrow> 'k machine" where
  "blk_panic kern m = seL4_DebugPutString kern (str ''[blk-task] PANIC\<newline>'') m"

definition ext4_srv_panic :: "'k kernel \<Rightarrow> 'k machine \<Rightarrow> 'k machine" where
  "ext4_srv_panic kern m =
     seL4_DebugPutString kern (str ''System halted.\<newline>'') (seL4_DebugPutString kern (str ''\<newline>\<newline>=== ext4-srv PANIC ===\<newline>'') m)"

section \<open>Helpers of the common crate\<close>

definition DEFAULT_PARENT_EP :: usize where "DEFAULT_PARENT_EP = 18"
definition DEFAULT_SERVE_EP :: usize where "DEFAULT_SERVE_EP = 19"

definition shutdown :: "'k kernel \<Rightarrow> 'k machine \<Rightarrow> 'k machine" where
  "shutdown kern m = seL4_DebugHalt kern (seL4_DebugPutString kern (str ''Shutting down...\<newline>'') m)"

text \<open>The channel, interrupt and service operations are stubs.\<close>

definition create_channel :: "usize \<Rightarrow> usize \<Rightarrow> usize" where "create_channel addr page_count = 0"
definition join_channel :: "usize \<Rightarrow> usize \<Rightarrow> usize" where "join_channel channel_id addr = 0"
definition register_irq :: "usize \<Rightarrow> usize \<Rightarrow> i32" where "register_irq irq handler = 0"
definition register_notify :: "usize \<Rightarrow> usize \<Rightarrow> i32 + unit" where "register_notify ntfn badge = Inr ()"
definition translate_addr :: "usize \<Rightarrow> usize" where "translate_addr vaddr = 0"
definition find_service :: "bytes \<Rightarrow> usize" where "find_service name = 0"

text \<open>
  The macros \<^verbatim>\<open>read_types!\<close> and \<^verbatim>\<open>reply_with!\<close>. A type is the number of its bytes; the second of two values starts at the word
  after the first.
\<close>

definition read_types1 :: "ipc_buffer \<Rightarrow> nat \<Rightarrow> bytes option" where
  "read_types1 ib n = read_from_ipc ib 0 n"

definition second_offset :: "nat \<Rightarrow> nat" where
  "second_offset n = 8 * ((n + 7) div 8)"

definition read_types2 :: "ipc_buffer \<Rightarrow> nat \<Rightarrow> nat \<Rightarrow> (bytes \<times> bytes) option" where
  "read_types2 ib n1 n2 =
     do {
       a \<leftarrow> read_from_ipc ib 0 n1;
       b \<leftarrow> read_from_ipc ib (second_offset n1) n2;
       Some (a, b)
     }"

definition reply_with_value :: "'k kernel \<Rightarrow> usize \<Rightarrow> 'k machine \<Rightarrow> 'k machine" where
  "reply_with_value kern v m = seL4_Reply kern (mi_word (mi_new 0 1 0)) (m\<lparr> ipc_buf := write_mr (ipc_buf m) 0 v \<rparr>)"

text \<open>The logger prints every record; the names of the levels belong to the logging library.\<close>

definition log_enabled :: bool where "log_enabled = True"

definition log_record :: "'k kernel \<Rightarrow> string \<Rightarrow> string \<Rightarrow> 'k machine \<Rightarrow> 'k machine" where
  "log_record kern level msg_text m =
     (if log_enabled then seL4_DebugPutString kern (str (''['' @ level @ ''] '' @ msg_text @ ''\<newline>'')) m else m)"

section \<open>The compatibility names\<close>

record ulib_cap =
  cptr :: usize

definition Cap_new :: "usize \<Rightarrow> ulib_cap" where "Cap_new c = \<lparr> cptr = c \<rparr>"

definition cap_bits :: "ulib_cap \<Rightarrow> usize" where "cap_bits c = cptr c"

definition with_ipc_buffer_mut :: "(ipc_buffer \<Rightarrow> 'r \<times> ipc_buffer) \<Rightarrow> 'k machine \<Rightarrow> ('r \<times> 'k machine) option" where
  "with_ipc_buffer_mut f m = with_ipc_buffer f m"

text \<open>\<^verbatim>\<open>debug_println!\<close> drops its arguments and prints a line end, and nothing at all when it has none.\<close>

definition debug_println :: "'k kernel \<Rightarrow> bool \<Rightarrow> 'k machine \<Rightarrow> 'k machine" where
  "debug_println kern has_args m = (if has_args then seL4_DebugPutChar kern 10 m else m)"

definition UART_EVENT :: u64 where "UART_EVENT = 0x20"
definition BLOCK_EVENT :: u64 where "BLOCK_EVENT = 0x21"
definition FS_EVENT :: u64 where "FS_EVENT = 0x22"

section \<open>Lemmas\<close>

text \<open>Two values written one after the other at word boundaries are read back, whatever their sizes, as long as they fit.\<close>

lemma read_types_roundtrip:
  assumes "ipc_buffer_ok ib" and "second_offset (length a) + length b \<le> 960"
  shows "\<exists>ib1 ib2. write_to_ipc ib 0 a = Some ib1 \<and> write_to_ipc ib1 (second_offset (length a)) b = Some ib2 \<and>
    read_types2 ib2 (length a) (length b) = Some (a, b) \<and> read_types1 ib2 (length a) = Some a"
proof -
  have le: "length a \<le> second_offset (length a)" by (simp add: second_offset_def)
  have len: "length (msg ib) = 120" using assms(1) by (simp add: ipc_buffer_ok_def)
  with le assms(2) have "0 + length a \<le> 8 * length (msg ib)" by simp
  then obtain ib1 where w1: "write_to_ipc ib 0 a = Some ib1" and l1: "length (msg ib1) = length (msg ib)"
    and r1: "read_from_ipc ib1 0 (length a) = Some a" by (rule ipc_value_roundtrip)
  have "second_offset (length a) + length b \<le> 8 * length (msg ib1)" using assms(2) l1 len by simp
  then obtain ib2 where w2: "write_to_ipc ib1 (second_offset (length a)) b = Some ib2"
    and r2: "read_from_ipc ib2 (second_offset (length a)) (length b) = Some b"
    and frame: "\<And>o2 n. o2 + n \<le> second_offset (length a) \<or> second_offset (length a) + length b \<le> o2 \<Longrightarrow>
      read_from_ipc ib2 o2 n = read_from_ipc ib1 o2 n" by (rule ipc_value_roundtrip) simp
  have "read_from_ipc ib2 0 (length a) = Some a" using frame [of 0 "length a"] le r1 by simp
  with w1 w2 r2 show ?thesis by (simp add: read_types1_def read_types2_def)
qed

text \<open>The report of a panic ends, and is this text.\<close>

lemma root_panic_text:
  "root_panic kern (Some (file, line)) True m =
     Some (seL4_DebugPutString kern (text_of [Inl ''\<newline>\<newline>=== PANIC ===\<newline>'', Inl ''Location: '', Inl file, Inl '':'', Inr (ucast line),
       Inl ''\<newline>'', Inl ''Message: (see panic info above)\<newline>'', Inl ''System halted.\<newline>'']) m)"
  by (simp add: root_panic_def outs_text text_of_def putstring_append)

text \<open>The file system task stays up exactly when the disk can be mounted.\<close>

lemma lwext4_entry_mounts: "lwext4_entry kern M disk m = None \<longleftrightarrow> mount_disk M disk = None"
  by (simp add: lwext4_entry_def ext4fs_new_def bind_eq_None_conv Let_def)

end
