(* ===== verification/Spec2Isabelle.thy ===== *)
theory Spec2Isabelle
  imports Syscalls Ipc_Bench Services
begin

text \<open>
  \<^bold>\<open>A Linux compatibility layer over seL4.\<close>

  The repository is a user-level system for the seL4 kernel on x86-64, written in Rust without the standard library. Its
  parts, and the theories that model them:

  \<^item> \<^bold>\<open>The kernel interface\<close> (\<^verbatim>\<open>crates/sel4-sys\<close>): packed ABI words, object types, registers and error codes
    (\<open>Sel4_Types\<close>), the IPC buffer (\<open>Ipc_Buffer\<close>), boot information (\<open>Boot_Info\<close>), the system call stubs and
    capability invocations (\<open>Sel4_Syscalls\<close>), and the library's own 51 tests (\<open>Sel4_Tests\<close>).
  \<^item> \<^bold>\<open>Allocators\<close> (\<^verbatim>\<open>crates/common/src/slot.rs\<close>, \<^verbatim>\<open>obj_allocator.rs\<close>, \<^verbatim>\<open>root-task/src/slot.rs\<close>,
    \<^verbatim>\<open>root-task/src/allocator.rs\<close>, \<^verbatim>\<open>lcl/src/utils\<close>): capability slots, the spin lock around
    them, kernel objects, bump heaps (\<open>Slots\<close>).
  \<^item> \<^bold>\<open>The block service\<close> (\<^verbatim>\<open>blk-task\<close>): the RAM disk and its message loop (\<open>Ramdisk\<close>, \<open>Blk_Task\<close>).
  \<^item> \<^bold>\<open>The file service\<close> (\<^verbatim>\<open>lwext4-task\<close>, \<^verbatim>\<open>ext4-srv\<close>): the operations over the ext4 library (\<open>Ext4_Fs\<close>), the
    packing of requests into message registers (\<open>Fs_Protocol\<close>, \<open>Utf8\<close>), the descriptor table of both sides (\<open>Fd_Table\<close>), the
    request handlers and the service loop (\<open>Ext4_Service\<close>).
  \<^item> \<^bold>\<open>The compatibility layer\<close> (\<^verbatim>\<open>lcl\<close>): the client of the file service (\<open>Fs_Client\<close>), task memory (\<open>Task_Mem\<close>), signals
    (\<open>Task_Signal\<close>), tasks, descriptors and timers (\<open>Task\<close>), the system calls (\<open>Syscall_Mm\<close>, \<open>Syscall_Task\<close>,
    \<open>Syscall_Fs\<close>), their numbers (\<open>Sysno\<close>), their dispatch and the fault handlers (\<open>Syscalls\<close>), the loader of separate
    address spaces (\<open>Loader\<close>), the runner (\<open>Runner\<close>), and pipes, device files and the serial port (\<open>Devices\<close>).
  \<^item> \<^bold>\<open>The root task\<close> (\<^verbatim>\<open>root-task/src/main.rs\<close>): the server behind the shell (\<open>Root_Shell\<close>) and the process it
    implements (\<open>Shell_Process\<close>); console printers (\<open>Blk_Task\<close>, \<open>Console\<close>); the processor frequencies it reports
    (\<open>Processor\<close>), the tests and benchmarks it runs on the other parts (\<open>Root_Tests\<close>), its whole program from the entry
    point to the halt (\<open>Root_Main\<close>), and the IPC benchmark that the program leaves out
    (\<^verbatim>\<open>root-task/src/benchmark.rs\<close>, \<open>Ipc_Bench\<close>).
  \<^item> \<^bold>\<open>Around them\<close> (\<^verbatim>\<open>crates/common\<close>, \<^verbatim>\<open>crates/sel4-ulib\<close>, the \<^verbatim>\<open>main.rs\<close> of the tasks): entry points, panic
    handlers, message macros and stubs (\<open>Services\<close>).

  \<^bold>\<open>State and effects.\<close> The seL4 kernel is the parameter \<open>kern\<close>, a function of the processor registers, the IPC buffer
  and the rest of the world; a \<open>machine\<close> is that state. Every stub loads the registers the assembly of the source loads and
  enters the kernel. Where a property needs to know what the kernel does, this is a named hypothesis
  (\<open>maps_only\<close>: creating objects and mapping change no memory but the mapped page; \<open>console_only\<close>: console calls
  change no memory; \<open>kernel_typed P\<close> and \<open>tsc_keeps P\<close>: the kernel and the time stamp counter keep the shape of the IPC
  buffer and a property \<open>P\<close> of the world; \<open>delivers\<close>: a message reaches a receiver as the kernel
  interface defines; \<open>keeps_low_words\<close>: a call leaves the words of the caller's buffer that are CPU registers alone). Nothing is
  assumed of the results of the ext4 library at the start-up; where the service is concerned, \<open>iface_total\<close> and \<open>keeps_length\<close> say that the file
  system behind it does not panic and keeps the length of the buffers it fills. The ext4 library is the record \<open>ext4_lib\<close> of its operations, its mounting and unmounting the record
  \<open>ext4_mount\<close>, the port instructions the record \<open>ports\<close>, \<^verbatim>\<open>rdtsc\<close> and \<^verbatim>\<open>cpuid\<close> the record \<open>cpu_insns\<close>. The embedded files and
  the addresses of assembly routines are arguments. The memory of a task is the page map the layer keeps (\<open>task_mem_info\<close>); the memory of the loader's, the
  runner's and the root task's own address space is the record \<open>ram\<close> (loads and stores), with the law \<open>ram_ok\<close>. The
  global variables of the layer are the record \<open>lcl\<close>, those of the root task the record \<open>root\<close>. Locks and reference counts
  are erased, but for the root task's own spin lock (\<open>simple_mutex\<close>): taking it while it is held waits for ever.

  \<^verbatim>\<open>usize\<close> and the fixed-width integers are words and wrap, as in the release build; lengths of Rust slices and the counters of
  loops over them are natural numbers. A panic is \<open>None\<close>; a \<^verbatim>\<open>Result\<close> is a sum with the error on the left; in \<open>Runtime\<close> a step
  returns an optional result that is \<open>None\<close> after an early \<^verbatim>\<open>return None\<close>.

  \<^bold>\<open>Shared library.\<close> \<open>Prelude\<close> holds slices, little-endian words, page arithmetic and flat byte memory; \<open>Btree_Map\<close>
  the ordered maps. The interfaces are locales, each interpreted on the model's own definitions: \<open>byte_memory\<close> (a load
  after a store, by task memory and by \<open>ram\<close>), \<open>ordered_map\<close> (by the B-tree maps), \<open>slot_allocator\<close> (by the three allocators) and
  \<open>slot_recycler\<close>, which extends it (by the two that take slots back), \<open>descriptor_iter\<close> (by the three iterators of the boot
  information), \<open>block_device\<close> (by the RAM disk), \<open>mr_codec\<close> (by the packing of either direction), \<open>fd_allocator\<close> (by the
  descriptor tables of the service and of the client), \<open>task_invariant\<close> (what every system call keeps of a task, by its
  memory and by its identity), and \<open>bounded_fifo\<close> (by the pipe).

  \<^bold>\<open>What is proved.\<close> The file service: a request the client builds, when
  the kernel delivers it, is decoded and served in one round of the service, and the client makes the right result of the reply
  (\<open>open_served\<close>, \<open>read_served\<close>, \<open>response_as_read\<close>); but the client's call does not pass the first four words, so over the real interface
  it takes its own request for the reply (\<open>client_reads_own_request\<close>). System calls: serving a fault of one task leaves the others alone
  (\<open>fault_isolation\<close>) and delivers the result (\<open>syscall_result_delivered\<close>). Refinement: task memory is a flat memory
  (\<open>write_bytes_refines_store\<close>), the root task's fault loop is, round by round, a process with one level of
  fork (\<open>shell_refines_process\<close>). Images: each of the three loaders leaves the segments of the program in memory and changes
  nothing else, and the initial stack follows the ABI. Safety: no use of a closed descriptor, no slot handed out twice, no
  overlapping mappings, reads that stay inside their buffers. Termination: the loops are total functions, their bounds are
  proved where they matter (the fault loop serves at most 100000 rounds, strings end after 4096 bytes); waiting
  is a partial function whose \<open>None\<close> is waiting for ever (\<open>stdin_loop\<close>, \<open>uart_put_char\<close>, \<open>mutex_lock\<close>, \<open>sleep_poll\<close>), and
  so is the search of the extra boot information, which is proved to end on well-formed records (\<open>tsc_freq_exact\<close>).
  Start-up: all tests of the library pass (\<open>self_tests_pass\<close>), the program reaches its shell unless the file-system test or
  benchmark panics, and never waits on its own lock (\<open>start_up_reaches_shell\<close>), and the IPC benchmark ends whatever the kernel answers
  (\<open>bench_run_ends\<close>). Round
  trips and exact results for the other operations, error branches included.

  \<^bold>\<open>Not modelled.\<close> The entry assembly, the assembly of the benchmark's worker and the build; concurrency (every component
  has one thread, a message is served completely before the next, and a kernel call returns); exhaustion of the bump
  heaps inside collections; accesses to unmapped addresses; formatting for \<^verbatim>\<open>Debug\<close>; the endless loops in which the programs and
  the panic handlers end; C structures and constants of \<^verbatim>\<open>crates/libc-core\<close> that no code uses.
\<close>

end
